(* ===== verification/BTree.thy ===== *)
theory BTree
  imports Prelude
begin

text \<open>
  \<open>std::collections::BTreeMap\<close> (and redb's tables, which iterate in key order too) as an
  association list sorted strictly by key. The interface the other components use is the
  locale \<open>keyed_map\<close>; iteration order matters to \<open>values().find(..)\<close>, so the
  list itself stays visible.
\<close>

section \<open>Operations\<close>

type_synonym ('k, 'v) btree = "('k \<times> 'v) list"

definition bt_wf :: "('k::linorder, 'v) btree \<Rightarrow> bool" where
  "bt_wf m \<longleftrightarrow> sorted_wrt (<) (map fst m)"

definition bt_get :: "('k, 'v) btree \<Rightarrow> 'k \<Rightarrow> 'v option" where
  "bt_get m k = map_of m k"

fun bt_insert :: "'k::linorder \<Rightarrow> 'v \<Rightarrow> ('k, 'v) btree \<Rightarrow> ('k, 'v) btree" where
  "bt_insert k v [] = [(k, v)]"
| "bt_insert k v (p # m) =
     (if fst p < k then p # bt_insert k v m
      else if fst p = k then (k, v) # m
      else (k, v) # p # m)"

definition bt_remove :: "'k \<Rightarrow> ('k, 'v) btree \<Rightarrow> ('k, 'v) btree" where
  "bt_remove k m = filter (\<lambda>p. fst p \<noteq> k) m"

definition bt_values :: "('k, 'v) btree \<Rightarrow> 'v list" where
  "bt_values m = map snd m"

definition bt_keys :: "('k, 'v) btree \<Rightarrow> 'k list" where
  "bt_keys m = map fst m"

definition bt_contains_key :: "('k, 'v) btree \<Rightarrow> 'k \<Rightarrow> bool" where
  "bt_contains_key m k \<longleftrightarrow> bt_get m k \<noteq> None"

text \<open>\<open>get_mut(k)\<close> followed by a write through the reference.\<close>

definition bt_adjust :: "'k::linorder \<Rightarrow> ('v \<Rightarrow> 'v) \<Rightarrow> ('k, 'v) btree \<Rightarrow> ('k, 'v) btree" where
  "bt_adjust k f m = (case bt_get m k of None \<Rightarrow> m | Some v \<Rightarrow> bt_insert k (f v) m)"

definition bt_from_list :: "('k::linorder \<times> 'v) list \<Rightarrow> ('k, 'v) btree" where
  "bt_from_list ps = fold (\<lambda>p m. bt_insert (fst p) (snd p) m) ps []"

section \<open>The map interface\<close>

locale keyed_map =
  fixes get :: "'m \<Rightarrow> 'k \<Rightarrow> 'v option"
    and ins :: "'k \<Rightarrow> 'v \<Rightarrow> 'm \<Rightarrow> 'm"
    and del :: "'k \<Rightarrow> 'm \<Rightarrow> 'm"
    and inv :: "'m \<Rightarrow> bool"
  assumes get_ins: "get (ins k v m) j = (if j = k then Some v else get m j)"
    and get_del: "get (del k m) j = (if j = k then None else get m j)"
    and inv_ins: "inv m \<Longrightarrow> inv (ins k v m)"
    and inv_del: "inv m \<Longrightarrow> inv (del k m)"
begin

lemma get_ins_same: "get (ins k v m) k = Some v"
  by (simp add: get_ins)

lemma get_del_same: "get (del k m) k = None"
  by (simp add: get_del)

text \<open>A property of all values survives an insertion of a value that has it, and a removal.\<close>

lemma all_values_ins:
  assumes "\<And>j w. get m j = Some w \<Longrightarrow> P j w" and "P k v" and "get (ins k v m) j = Some w"
  shows "P j w"
  using assms by (auto simp: get_ins split: if_splits)

lemma all_values_del:
  assumes "\<And>j w. get m j = Some w \<Longrightarrow> P j w" and "get (del k m) j = Some w"
  shows "P j w"
  using assms by (auto simp: get_del split: if_splits)

end

text \<open>
  Two maps that hold the same records under two key spaces: an in-memory map and its
  durable table. The pairwise agreement is kept when both are written alike, for an
  injective key function.
\<close>

locale mirrored_maps =
  mem: keyed_map get ins del inv + tab: keyed_map get' ins' del' inv'
  for get :: "'m \<Rightarrow> 'k \<Rightarrow> 'v option" and ins del inv
    and get' :: "'t \<Rightarrow> 'j \<Rightarrow> 'w option" and ins' del' inv'
begin

lemma mirror_ins:
  assumes "inj key" and "\<And>i. get' t (key i) = map_option enc (get m i)"
  shows "get' (ins' (key k) (enc v) t) (key i) = map_option enc (get (ins k v m) i)"
  using assms by (auto simp: mem.get_ins tab.get_ins dest: injD)

lemma mirror_del:
  assumes "inj key" and "\<And>i. get' t (key i) = map_option enc (get m i)"
  shows "get' (del' (key k) t) (key i) = map_option enc (get (del k m) i)"
  using assms by (auto simp: mem.get_del tab.get_del dest: injD)

end

section \<open>The ordered list is such a map\<close>

lemma bt_get_insert [simp]:
  "bt_get (bt_insert k v m) j = (if j = k then Some v else bt_get m j)"
  by (induction m) (auto simp: bt_get_def)

lemma bt_get_remove [simp]:
  "bt_get (bt_remove k m) j = (if j = k then None else bt_get m j)"
  by (induction m) (auto simp: bt_get_def bt_remove_def)

lemma bt_get_Nil [simp]: "bt_get [] k = None"
  by (simp add: bt_get_def)

lemma bt_wf_Nil [simp, wf_intros]: "bt_wf []"
  by (simp add: bt_wf_def)

lemma set_bt_insert: "set (bt_insert k v m) \<subseteq> insert (k, v) (set m)"
  by (induction m) auto

lemma fst_set_bt_insert: "fst ` set (bt_insert k v m) = insert k (fst ` set m)"
  by (induction m) auto

lemma bt_wf_Cons: "bt_wf (p # m) \<longleftrightarrow> (\<forall>q \<in> set m. fst p < fst q) \<and> bt_wf m"
  by (simp add: bt_wf_def)

lemma bt_wf_insert [simp, wf_intros]: "bt_wf m \<Longrightarrow> bt_wf (bt_insert k v m)"
proof (induction m)
  case Nil
  then show ?case by (simp add: bt_wf_def)
next
  case (Cons p m)
  have keys: "\<And>q. q \<in> set (bt_insert k v m) \<Longrightarrow> fst q = k \<or> fst q \<in> fst ` set m"
    using fst_set_bt_insert [of k v m] by (metis image_eqI insertE)
  from Cons keys show ?case
    by (auto simp: bt_wf_Cons) force+
qed

lemma bt_wf_remove [simp, wf_intros]: "bt_wf m \<Longrightarrow> bt_wf (bt_remove k m)"
  by (induction m) (auto simp: bt_remove_def bt_wf_Cons)

interpretation bt: keyed_map bt_get bt_insert bt_remove bt_wf
  by unfold_locales auto

interpretation bt_mirror:
  mirrored_maps bt_get bt_insert bt_remove bt_wf bt_get bt_insert bt_remove bt_wf
  by unfold_locales

section \<open>Iteration\<close>

lemma bt_wf_distinct: "bt_wf m \<Longrightarrow> distinct (map fst m)"
  unfolding bt_wf_def using strict_sorted_iff by blast

lemma bt_get_mem: "bt_wf m \<Longrightarrow> bt_get m k = Some v \<longleftrightarrow> (k, v) \<in> set m"
  by (simp add: bt_get_def bt_wf_distinct)

lemma bt_values_iff: "bt_wf m \<Longrightarrow> v \<in> set (bt_values m) \<longleftrightarrow> (\<exists>k. bt_get m k = Some v)"
  by (force simp: bt_values_def bt_get_mem)

lemma bt_get_in_values: "bt_get m k = Some v \<Longrightarrow> v \<in> set (bt_values m)"
  by (force simp: bt_values_def bt_get_def dest: map_of_SomeD)

lemma bt_keys_iff: "k \<in> set (bt_keys m) \<longleftrightarrow> bt_get m k \<noteq> None"
  by (simp add: bt_keys_def bt_get_def map_of_eq_None_iff)

lemma bt_ext:
  assumes "bt_wf m" and "bt_wf n" and "\<And>k. bt_get m k = bt_get n k"
  shows "m = n"
proof -
  have same: "set m = set n"
    using assms bt_get_mem [OF assms(1)] bt_get_mem [OF assms(2)] by auto
  have strict: "sorted (map fst m)" "sorted (map fst n)" "distinct (map fst m)" "distinct (map fst n)"
    using assms(1,2) by (auto simp: bt_wf_def strict_sorted_iff)
  have "inj_on fst (set m \<union> set n)"
    using same strict by (simp add: distinct_map)
  then show ?thesis
    using same strict by (intro map_sorted_distinct_set_unique [of fst])
qed

lemma bt_get_adjust [simp]:
  "bt_get (bt_adjust k f m) j = (if j = k then map_option f (bt_get m k) else bt_get m j)"
  by (auto simp: bt_adjust_def split: option.splits)

lemma bt_wf_adjust [simp, wf_intros]: "bt_wf m \<Longrightarrow> bt_wf (bt_adjust k f m)"
  by (simp add: bt_adjust_def split: option.splits)

lemma bt_contains_key_iff: "bt_contains_key m k \<longleftrightarrow> (\<exists>v. bt_get m k = Some v)"
  by (simp add: bt_contains_key_def)

lemma bt_wf_fold_insert: "bt_wf m \<Longrightarrow> bt_wf (fold (\<lambda>p. bt_insert (fst p) (snd p)) ps m)"
  by (induction ps arbitrary: m) auto

lemma bt_wf_from_list [simp, wf_intros]: "bt_wf (bt_from_list ps)"
  by (simp add: bt_from_list_def bt_wf_fold_insert)

lemma bt_get_fold_insert:
  "bt_get (fold (\<lambda>p. bt_insert (fst p) (snd p)) ps m) k =
     (case map_of (rev ps) k of None \<Rightarrow> bt_get m k | Some v \<Rightarrow> Some v)"
proof (induction ps arbitrary: m)
  case Nil
  then show ?case by simp
next
  case (Cons p ps)
  then show ?case
    by (cases p) (auto simp: map_add_def split: option.splits)
qed

lemma bt_get_from_list: "bt_get (bt_from_list ps) k = map_of (rev ps) k"
  by (simp add: bt_from_list_def bt_get_fold_insert split: option.splits)

end
