(* ===== verification/Domain.thy ===== *)
theory Domain
  imports BTree
begin

text \<open>
  The domain types of \<open>crates/libongrok/src/lib.rs\<close>: the UUID newtypes, the enums, node
  and service records, and the two validators (\<open>Metadata::validate\<close> and
  \<open>validate_service_name\<close>) with what they accept.
\<close>

section \<open>Identifiers\<close>

text \<open>
  The macro \<open>uuid_id!\<close> makes one newtype per kind of id, with the order derived from the
  wrapped UUID. Here it is one type constructor, and each use of the macro is an instance at
  its own tag.
\<close>

datatype 'tag uuid_id = UuidId (id_uuid: uuid)

instantiation uuid_id :: (type) linorder
begin

definition less_eq_uuid_id :: "'a uuid_id \<Rightarrow> 'a uuid_id \<Rightarrow> bool" where
  "less_eq_uuid_id x y \<longleftrightarrow> id_uuid x \<le> id_uuid y"

definition less_uuid_id :: "'a uuid_id \<Rightarrow> 'a uuid_id \<Rightarrow> bool" where
  "less_uuid_id x y \<longleftrightarrow> id_uuid x < id_uuid y"

instance
  by standard (auto simp: less_eq_uuid_id_def less_uuid_id_def uuid_id.expand)

end

lemma uuid_id_order_simps [simp]:
  "UuidId x \<le> (UuidId y :: 'a uuid_id) \<longleftrightarrow> x \<le> y"
  "UuidId x < (UuidId y :: 'a uuid_id) \<longleftrightarrow> x < y"
  by (simp_all add: less_eq_uuid_id_def less_uuid_id_def)

datatype node_tag = NodeTag
datatype service_tag = ServiceTag
datatype tunnel_tag = TunnelTag
datatype event_tag = EventTag
datatype port_lease_tag = PortLeaseTag

type_synonym NodeId = "node_tag uuid_id"
type_synonym ServiceId = "service_tag uuid_id"
type_synonym TunnelId = "tunnel_tag uuid_id"
type_synonym PortLeaseId = "port_lease_tag uuid_id"
type_synonym EventId = "event_tag uuid_id"

section \<open>Enums and records\<close>

datatype TokenKind = Admin | User

datatype Protocol = Http | Https | Tcp

datatype TransportKind = Quic | TcpTlsYamux

datatype ServiceStatus = ServiceOnline | ServiceOffline

datatype NodeStatus = NodeIsOnline | NodeIsOffline

datatype EventKind =
    NodeOnline
  | NodeOffline
  | ServiceRegistered
  | ServiceDeleted
  | TokenRotated
  | TokenRevoked

type_synonym Metadata = "(string, string) btree"

record NodeMetadata =
  nm_hostname :: string
  nm_os :: string
  nm_arch :: string
  nm_client_version :: string
  nm_metadata :: Metadata

record NodeRecord =
  nr_node_id :: NodeId
  nr_public_key :: "bytes option"
  nr_metadata :: NodeMetadata
  nr_public_ip :: string
  nr_source_port :: u16
  nr_transport :: TransportKind
  nr_status :: NodeStatus
  nr_connected_at :: int
  nr_last_heartbeat_at :: "int option"
  nr_rtt_ms :: "u32 option"

record ServiceDefinition =
  sd_service_id :: ServiceId
  sd_service_name :: string
  sd_node_id :: NodeId
  sd_protocol :: Protocol
  sd_local_address :: string
  sd_public_host :: "string option"
  sd_public_port :: "u16 option"
  sd_metadata :: Metadata

record HeartbeatSnapshot =
  hs_sequence :: u64
  hs_sent_at :: int
  hs_cpu_percent :: "f32 option"
  hs_memory_percent :: "f32 option"
  hs_load_average :: "f32 option"
  hs_network_rx_bytes :: "u64 option"
  hs_network_tx_bytes :: "u64 option"

record NodeMetric =
  me_node_id :: NodeId
  me_recorded_at :: int
  me_rtt_ms :: "u32 option"
  me_snapshot :: HeartbeatSnapshot

record ControlEvent =
  ev_event_id :: EventId
  ev_occurred_at :: int
  ev_kind :: EventKind
  ev_node_id :: "NodeId option"
  ev_service_id :: "ServiceId option"
  ev_token_kind :: "TokenKind option"

section \<open>Validation\<close>

datatype ValidationError =
    TooManyMetadataEntries
  | InvalidMetadataKey string
  | MetadataValueTooLong string
  | MetadataTooLarge
  | InvalidServiceName

definition MAX_ENTRIES :: nat where "MAX_ENTRIES = 32"
definition MAX_KEY_LEN :: nat where "MAX_KEY_LEN = 64"
definition MAX_VALUE_LEN :: nat where "MAX_VALUE_LEN = 256"
definition MAX_TOTAL_BYTES :: nat where "MAX_TOTAL_BYTES = 4096"

lemmas metadata_limits = MAX_ENTRIES_def MAX_KEY_LEN_def MAX_VALUE_LEN_def MAX_TOTAL_BYTES_def

definition valid_metadata_key :: "string \<Rightarrow> bool" where
  "valid_metadata_key key \<longleftrightarrow>
     key \<noteq> [] \<and> length key \<le> MAX_KEY_LEN \<and>
     list_all (\<lambda>b. is_ascii_lowercase b \<or> is_ascii_digit b \<or>
       b = CHR ''-'' \<or> b = CHR ''_'' \<or> b = CHR ''.'') key"

text \<open>The \<open>for\<close> loop over the entries, with its running total.\<close>

fun metadata_loop :: "(string \<times> string) list \<Rightarrow> nat \<Rightarrow> ValidationError + nat" where
  "metadata_loop [] tot = Inr tot"
| "metadata_loop ((key, value) # entries) tot =
     (if \<not> valid_metadata_key key then Inl (InvalidMetadataKey key)
      else if length value > MAX_VALUE_LEN then Inl (MetadataValueTooLong key)
      else metadata_loop entries
        (saturating_add_usize (saturating_add_usize tot (length key)) (length value)))"

definition metadata_validate :: "Metadata \<Rightarrow> ValidationError + unit" where
  "metadata_validate m =
     (if length m > MAX_ENTRIES then Inl TooManyMetadataEntries
      else result_bind (metadata_loop m 0)
        (\<lambda>tot. if tot > MAX_TOTAL_BYTES then Inl MetadataTooLarge else Inr ()))"

definition validate_service_name :: "string \<Rightarrow> ValidationError + unit" where
  "validate_service_name name =
     (if name \<noteq> [] \<and> length name \<le> 63 \<and>
         list_all (\<lambda>b. is_ascii_lowercase b \<or> is_ascii_digit b \<or> b = CHR ''-'') name \<and>
         \<not> starts_with name ''-'' \<and> \<not> starts_with (rev name) ''-''
      then Inr () else Inl InvalidServiceName)"

text \<open>The \<open>#[error(..)]\<close> messages.\<close>

fun validation_message :: "ValidationError \<Rightarrow> string" where
  "validation_message TooManyMetadataEntries = ''too many metadata entries''"
| "validation_message (InvalidMetadataKey key) = ''invalid metadata key: '' @ key"
| "validation_message (MetadataValueTooLong key) = ''metadata value too long for key: '' @ key"
| "validation_message MetadataTooLarge = ''metadata exceeds total size limit''"
| "validation_message InvalidServiceName = ''service name is invalid''"

section \<open>What the validators accept\<close>

text \<open>The bytes a metadata map counts toward the total limit.\<close>

definition metadata_bytes :: "(string \<times> string) list \<Rightarrow> nat" where
  "metadata_bytes m = (\<Sum>(k, v) \<leftarrow> m. length k + length v)"

definition entry_ok :: "string \<times> string \<Rightarrow> bool" where
  "entry_ok kv \<longleftrightarrow> valid_metadata_key (fst kv) \<and> length (snd kv) \<le> MAX_VALUE_LEN"

lemma metadata_bytes_simps [simp]:
  "metadata_bytes [] = 0"
  "metadata_bytes (kv # m) = length (fst kv) + length (snd kv) + metadata_bytes m"
  by (simp_all add: metadata_bytes_def case_prod_beta)

lemma entry_ok_bytes: "entry_ok kv \<Longrightarrow> length (fst kv) + length (snd kv) \<le> 320"
  by (simp add: entry_ok_def valid_metadata_key_def metadata_limits)

lemma metadata_bytes_le: "\<forall>kv \<in> set m. entry_ok kv \<Longrightarrow> metadata_bytes m \<le> 320 * length m"
  by (induction m) (auto dest: entry_ok_bytes)

text \<open>
  The loop's result: the first offending entry in key order, else the exact byte count (it
  cannot saturate while the count is below \<open>usize::MAX\<close>).
\<close>

lemma metadata_loop_ok:
  assumes "\<forall>kv \<in> set m. entry_ok kv" and "tot + metadata_bytes m \<le> usize_max"
  shows "metadata_loop m tot = Inr (tot + metadata_bytes m)"
  using assms
proof (induction m arbitrary: tot)
  case Nil
  then show ?case by simp
next
  case (Cons kv m)
  then show ?case
    by (cases kv) (simp add: entry_ok_def saturating_add_usize_def)
qed

lemma metadata_loop_bad:
  assumes "m = pre @ kv # suf" and "\<forall>p \<in> set pre. entry_ok p" and "\<not> entry_ok kv"
  shows "metadata_loop m tot =
    Inl (if valid_metadata_key (fst kv) then MetadataValueTooLong (fst kv)
         else InvalidMetadataKey (fst kv))"
  using assms
proof (induction pre arbitrary: m tot)
  case Nil
  then show ?case by (cases kv) (auto simp: entry_ok_def)
next
  case (Cons p pre)
  then show ?case by (cases p) (auto simp: entry_ok_def)
qed

lemma first_bad_entry:
  assumes "\<not> (\<forall>kv \<in> set m. entry_ok kv)"
  obtains pre kv suf where "m = pre @ kv # suf" "\<forall>p \<in> set pre. entry_ok p" "\<not> entry_ok kv"
  using split_list_first_prop [of m "\<lambda>kv. \<not> entry_ok kv"] assms by auto

lemma metadata_loop_Inr_entries:
  assumes "metadata_loop m tot = Inr t"
  shows "\<forall>kv \<in> set m. entry_ok kv"
proof (rule ccontr)
  assume bad: "\<not> (\<forall>kv \<in> set m. entry_ok kv)"
  then obtain pre kv suf where "m = pre @ kv # suf" "\<forall>p \<in> set pre. entry_ok p" "\<not> entry_ok kv"
    by (rule first_bad_entry)
  from metadata_loop_bad [OF this] assms show False by simp
qed

lemma metadata_within_usize:
  assumes "length m \<le> MAX_ENTRIES" and "\<forall>kv \<in> set m. entry_ok kv"
  shows "metadata_bytes m \<le> usize_max"
  using metadata_bytes_le [OF assms(2)] assms(1) by (simp add: metadata_limits usize_max_def)

lemma metadata_validate_entries:
  assumes "length m \<le> MAX_ENTRIES" and "\<forall>kv \<in> set m. entry_ok kv"
  shows "metadata_validate m = (if metadata_bytes m > MAX_TOTAL_BYTES then Inl MetadataTooLarge else Inr ())"
  using assms metadata_loop_ok [of m 0] metadata_within_usize [OF assms]
  by (simp add: metadata_validate_def)

text \<open>\<open>Metadata::validate\<close> accepts exactly the maps within all four limits with keys over
  the allowed alphabet; in particular the saturating total never hides an excess.\<close>

theorem metadata_validate_accepts:
  "metadata_validate m = Inr () \<longleftrightarrow>
     length m \<le> 32 \<and> (\<Sum>(k, v) \<leftarrow> m. length k + length v) \<le> 4096 \<and>
     list_all (\<lambda>(k, v). 1 \<le> length k \<and> length k \<le> 64 \<and> length v \<le> 256 \<and>
       list_all (\<lambda>b. is_ascii_lowercase b \<or> is_ascii_digit b \<or> b \<in> set ''-_.'') k) m"
proof -
  have pred: "(\<lambda>(k, v). 1 \<le> length k \<and> length k \<le> 64 \<and> length v \<le> 256 \<and>
      list_all (\<lambda>b. is_ascii_lowercase b \<or> is_ascii_digit b \<or> b \<in> set ''-_.'') k) = entry_ok"
    by (rule ext) (auto simp: list_all_iff entry_ok_def valid_metadata_key_def metadata_limits Suc_le_eq)
  have entries: "list_all entry_ok m \<longleftrightarrow> (\<forall>kv \<in> set m. entry_ok kv)"
    by (simp add: list_all_iff)
  have "metadata_validate m = Inr () \<longleftrightarrow>
      length m \<le> 32 \<and> (\<Sum>(k, v) \<leftarrow> m. length k + length v) \<le> 4096 \<and> list_all entry_ok m"
  proof (cases "length m \<le> MAX_ENTRIES \<and> (\<forall>kv \<in> set m. entry_ok kv)")
    case True
    then show ?thesis
      using metadata_validate_entries [of m] entries
      by (auto simp: metadata_limits metadata_bytes_def)
  next
    case False
    then have "metadata_validate m \<noteq> Inr ()"
      by (auto simp: metadata_validate_def result_bind_Inr_iff split: if_splits
          dest: metadata_loop_Inr_entries)
    with False entries show ?thesis by (auto simp: metadata_limits)
  qed
  then show ?thesis by (simp only: pred)
qed

text \<open>
  An accepted service name is a DNS label: it holds no dot, no colon and no upper-case
  letter, which the public host names built from it rely on.
\<close>

lemma validate_service_name_accepts:
  "validate_service_name name = Inr () \<longleftrightarrow>
     name \<noteq> [] \<and> length name \<le> 63 \<and>
     list_all (\<lambda>b. is_ascii_lowercase b \<or> is_ascii_digit b \<or> b = CHR ''-'') name \<and>
     hd name \<noteq> CHR ''-'' \<and> last name \<noteq> CHR ''-''"
proof (cases name rule: rev_cases)
  case Nil
  then show ?thesis by (simp add: validate_service_name_def)
next
  case (snoc ys y)
  then show ?thesis
    by (auto simp: validate_service_name_def starts_with_char)
qed

end
