(* ===== verification/Codec.thy ===== *)
theory Codec
  imports Domain
begin

unbundle bit_operations_syntax

text \<open>
  The wire format: \<open>Frame\<close> and its codec from \<open>crates/libongrok/src/lib.rs\<close>, and the
  bounded control-frame I/O of \<open>crates/ongrok-relay-server/src/wire.rs\<close>. The
  serializer (the postcard crate) is a parameter: a record of its two entry points.
\<close>

section \<open>Frames\<close>

datatype Frame =
    Hello u16
  | Auth string NodeId
  | AuthAccepted TokenKind
  | AuthRejected
  | RegisterNode NodeMetadata bytes
  | RegisterService ServiceDefinition
  | RegisterServiceAccepted ServiceDefinition
  | UnregisterService ServiceId
  | ServiceList "ServiceDefinition list"
  | Heartbeat HeartbeatSnapshot
  | HeartbeatAck u64 int
  | OpenStream TunnelId ServiceId
  | OpenStreamAck TunnelId
  | StreamData TunnelId bytes
  | CloseStream TunnelId
  | ErrorFrame string
  | Goodbye

definition PROTOCOL_VERSION :: u16 where
  "PROTOCOL_VERSION = 1"

definition MAX_FRAME_SIZE :: nat where
  "MAX_FRAME_SIZE = 1024 * 1024"

datatype CodecError = FrameTooLarge | InvalidLength | Malformed string

fun codec_message :: "CodecError \<Rightarrow> string" where
  "codec_message FrameTooLarge = ''frame exceeds maximum size''"
| "codec_message InvalidLength = ''invalid frame length''"
| "codec_message (Malformed e) = ''malformed frame: '' @ e"

section \<open>The serializer\<close>

text \<open>
  \<open>postcard::to_allocvec\<close> and \<open>postcard::from_bytes\<close> at one type; the error is the
  crate's message.
\<close>

record 'a serializer =
  to_allocvec :: "'a \<Rightarrow> string + bytes"
  from_bytes :: "bytes \<Rightarrow> string + 'a"

text \<open>
  What the code relies on of the crate, one value at a time: what it writes for the value
  it reads back as the value. A frame is an enum, so its encoding starts with a
  discriminant and is not empty.
\<close>

definition reads_back :: "'a serializer \<Rightarrow> 'a \<Rightarrow> bool" where
  "reads_back pc x \<longleftrightarrow> (\<forall>p. to_allocvec pc x = Inr p \<longrightarrow> from_bytes pc p = Inr x)"

definition frame_reads_back :: "Frame serializer \<Rightarrow> Frame \<Rightarrow> bool" where
  "frame_reads_back pc f \<longleftrightarrow> reads_back pc f \<and> to_allocvec pc f \<noteq> Inr []"

section \<open>Big-endian lengths\<close>

definition put_u32 :: "u32 \<Rightarrow> bytes" where
  "put_u32 w = [ucast (drop_bit 24 w), ucast (drop_bit 16 w), ucast (drop_bit 8 w), ucast w]"

fun get_u32 :: "bytes \<Rightarrow> u32" where
  "get_u32 (a # b # c # d # _) =
     push_bit 24 (ucast a) OR push_bit 16 (ucast b) OR push_bit 8 (ucast c) OR ucast d"
| "get_u32 _ = 0"

lemma length_put_u32 [simp]: "length (put_u32 w) = 4"
  by (simp add: put_u32_def)

lemma get_put_u32 [simp]: "get_u32 (put_u32 w @ bs) = w"
proof -
  have "bit (get_u32 (put_u32 w @ bs)) n = bit w n" if "n < 32" for n
  proof -
    consider "n < 8" | "8 \<le> n" "n < 16" | "16 \<le> n" "n < 24" | "24 \<le> n" by linarith
    then show ?thesis
      using that by cases (auto simp: put_u32_def bit_simps)
  qed
  then show ?thesis by (intro bit_word_eqI) simp
qed

section \<open>Encoding and decoding\<close>

definition encode_frame :: "Frame serializer \<Rightarrow> Frame \<Rightarrow> CodecError + bytes" where
  "encode_frame pc frame =
     (case to_allocvec pc frame of
        Inl e \<Rightarrow> Inl (Malformed e)
      | Inr payload \<Rightarrow>
          if length payload > MAX_FRAME_SIZE then Inl FrameTooLarge
          else Inr (put_u32 (word_of_nat (length payload)) @ payload))"

definition decode_frame_payload :: "Frame serializer \<Rightarrow> bytes \<Rightarrow> CodecError + Frame" where
  "decode_frame_payload pc payload = map_error Malformed (from_bytes pc payload)"

text \<open>
  The loop of \<open>decode_frames\<close>: the frames decoded so far and the buffer. It returns the
  outcome and what is left in the caller's buffer, on errors too.
\<close>

function decode_loop :: "Frame serializer \<Rightarrow> Frame list \<Rightarrow> bytes \<Rightarrow> (CodecError + Frame list) \<times> bytes" where
  "decode_loop pc frames buffer =
     (if length buffer < 4 then (Inr frames, buffer)
      else if unat (get_u32 (take 4 buffer)) > MAX_FRAME_SIZE then (Inl FrameTooLarge, buffer)
      else if unat (get_u32 (take 4 buffer)) = 0 then (Inl InvalidLength, buffer)
      else if length buffer < 4 + unat (get_u32 (take 4 buffer)) then (Inr frames, buffer)
      else
        case decode_frame_payload pc (take (unat (get_u32 (take 4 buffer))) (drop 4 buffer)) of
          Inl e \<Rightarrow> (Inl e, drop (4 + unat (get_u32 (take 4 buffer))) buffer)
        | Inr f \<Rightarrow> decode_loop pc (frames @ [f]) (drop (4 + unat (get_u32 (take 4 buffer))) buffer))"
  by pat_completeness auto
termination
  by (relation "measure (\<lambda>(pc, frames, buffer). length buffer)") auto

declare decode_loop.simps [simp del]

definition decode_frames :: "Frame serializer \<Rightarrow> bytes \<Rightarrow> (CodecError + Frame list) \<times> bytes" where
  "decode_frames pc buffer = decode_loop pc [] buffer"

section \<open>Control-frame I/O\<close>

text \<open>
  A receive stream is the bytes that will still arrive before it ends. \<open>read_exact\<close>
  fails when the stream ends early; the contexts are the messages of the code.
\<close>

datatype WireError = LengthUnread | InvalidControlLength nat | PayloadUnread | WriteFailed | WireCodec CodecError

fun wire_message :: "WireError \<Rightarrow> string" where
  "wire_message LengthUnread = ''failed to read control frame length''"
| "wire_message (InvalidControlLength n) = ''invalid control frame length '' @ dec_string n"
| "wire_message PayloadUnread = ''failed to read control frame payload''"
| "wire_message WriteFailed = ''failed to write control frame''"
| "wire_message (WireCodec e) = codec_message e"

definition read_exact :: "nat \<Rightarrow> bytes \<Rightarrow> (unit + bytes) \<times> bytes" where
  "read_exact n s = (if length s < n then (Inl (), []) else (Inr (take n s), drop n s))"

text \<open>The server's \<open>wire.rs\<close>; the client's \<open>main.rs\<close> has the same functions, word for word.\<close>

definition read_control_frame :: "Frame serializer \<Rightarrow> bytes \<Rightarrow> (WireError + Frame) \<times> bytes" where
  "read_control_frame pc recv =
     (case read_exact 4 recv of
        (Inl _, recv) \<Rightarrow> (Inl LengthUnread, recv)
      | (Inr header, recv) \<Rightarrow>
          let len = unat (get_u32 header) in
          if len = 0 \<or> len > MAX_FRAME_SIZE then (Inl (InvalidControlLength len), recv)
          else case read_exact len recv of
            (Inl _, recv) \<Rightarrow> (Inl PayloadUnread, recv)
          | (Inr payload, recv) \<Rightarrow> (map_error WireCodec (decode_frame_payload pc payload), recv))"

text \<open>\<open>io\<close>: whether the transport accepts the bytes.\<close>

definition write_control_frame :: "Frame serializer \<Rightarrow> bool \<Rightarrow> Frame \<Rightarrow> bytes \<Rightarrow> (WireError + unit) \<times> bytes" where
  "write_control_frame pc io frame send =
     (case encode_frame pc frame of
        Inl e \<Rightarrow> (Inl (WireCodec e), send)
      | Inr encoded \<Rightarrow> if io then (Inr (), send @ encoded) else (Inl WriteFailed, send))"

text \<open>\<open>clock\<close> is the time since the epoch in milliseconds, \<open>None\<close> before it.\<close>

definition now_unix_ms :: "nat option \<Rightarrow> int" where
  "now_unix_ms clock = (case clock of None \<Rightarrow> 0 | Some ms \<Rightarrow> as_i64 ms)"

section \<open>Lemmas on single frames\<close>

lemma max_frame_size_u32: "n \<le> MAX_FRAME_SIZE \<Longrightarrow> unat (word_of_nat n :: u32) = n"
  by (simp add: MAX_FRAME_SIZE_def unat_of_nat)

lemma encode_frame_Inr:
  "encode_frame pc f = Inr b \<longleftrightarrow>
     (\<exists>p. to_allocvec pc f = Inr p \<and> length p \<le> MAX_FRAME_SIZE \<and>
       b = put_u32 (word_of_nat (length p)) @ p)"
  by (auto simp: encode_frame_def split: sum.splits if_splits)

lemma encode_frameE:
  assumes "encode_frame pc f = Inr b" and "frame_reads_back pc f"
  obtains p where "b = put_u32 (word_of_nat (length p)) @ p" "p \<noteq> []" "length p \<le> MAX_FRAME_SIZE"
    "from_bytes pc p = Inr f" "unat (word_of_nat (length p) :: u32) = length p"
  using assms by (auto simp: encode_frame_Inr frame_reads_back_def reads_back_def max_frame_size_u32)

lemma take4_put_u32 [simp]: "take 4 (put_u32 w @ s) = put_u32 w"
  by simp

lemma get_put_u32' [simp]: "get_u32 (put_u32 w) = w"
  using get_put_u32 [of w "[]"] by simp

lemma decode_loop_one:
  assumes "encode_frame pc f = Inr b" and "frame_reads_back pc f"
  shows "decode_loop pc fs (b @ rest) = decode_loop pc (fs @ [f]) rest"
proof -
  obtain p where b: "b = put_u32 (word_of_nat (length p)) @ p" and p: "p \<noteq> []" "length p \<le> MAX_FRAME_SIZE"
    and rd: "from_bytes pc p = Inr f" and len: "unat (word_of_nat (length p) :: u32) = length p"
    using assms by (rule encode_frameE)
  show ?thesis
    by (subst decode_loop.simps) (use p rd len in \<open>simp add: b decode_frame_payload_def\<close>)
qed

lemma read_control_frame_one:
  assumes "frame_reads_back pc f" and "encode_frame pc f = Inr b"
  shows "read_control_frame pc (b @ rest) = (Inr f, rest)"
proof -
  obtain p where b: "b = put_u32 (word_of_nat (length p)) @ p" and p: "p \<noteq> []" "length p \<le> MAX_FRAME_SIZE"
    and rd: "from_bytes pc p = Inr f" and len: "unat (word_of_nat (length p) :: u32) = length p"
    using assms(2,1) by (rule encode_frameE)
  show ?thesis
    using p rd len by (simp add: b read_control_frame_def read_exact_def decode_frame_payload_def)
qed

section \<open>Framed transports\<close>

text \<open>
  The contract between the two ends of a control stream: a writer, a reader, and the
  messages the reader recovers at the front of any stream. Sequences of messages follow.
\<close>

fun read_messages :: "('s \<Rightarrow> ('d + 'f) \<times> 's) \<Rightarrow> nat \<Rightarrow> 's \<Rightarrow> ('d + 'f list) \<times> 's" where
  "read_messages rd 0 s = (Inr [], s)"
| "read_messages rd (Suc n) s =
     (case rd s of
        (Inl d, s) \<Rightarrow> (Inl d, s)
      | (Inr f, s) \<Rightarrow>
          (case read_messages rd n s of
             (Inl d, s) \<Rightarrow> (Inl d, s)
           | (Inr fs, s) \<Rightarrow> (Inr (f # fs), s)))"

locale framed_transport =
  fixes wr :: "'f \<Rightarrow> 'e + bytes"
    and rd :: "bytes \<Rightarrow> ('d + 'f) \<times> bytes"
    and sound :: "'f \<Rightarrow> bool"
  assumes rd_wr: "sound f \<Longrightarrow> wr f = Inr b \<Longrightarrow> rd (b @ rest) = (Inr f, rest)"
begin

lemma read_written:
  assumes "\<And>f. f \<in> set fs \<Longrightarrow> sound f" and "map wr fs = map Inr bs"
  shows "read_messages rd (length fs) (concat bs @ rest) = (Inr fs, rest)"
  using assms
proof (induction fs arbitrary: bs)
  case Nil
  then show ?case by simp
next
  case (Cons f fs)
  then obtain b bs' where bs: "bs = b # bs'" "wr f = Inr b" "map wr fs = map Inr bs'"
    by (cases bs) auto
  with Cons rd_wr [of f b "concat bs' @ rest"] show ?case by simp
qed

text \<open>Two written messages with the same bytes are the same message.\<close>

lemma written_inj:
  assumes "sound f" and "sound g" and "wr f = Inr b" and "wr g = Inr b"
  shows "f = g"
  using rd_wr [OF assms(1,3), of "[]"] rd_wr [OF assms(2,4), of "[]"] by simp

end

interpretation wire: framed_transport "encode_frame pc" "read_control_frame pc" "frame_reads_back pc"
  for pc
  by unfold_locales (rule read_control_frame_one)

section \<open>Streaming\<close>

text \<open>
  What the loop returns is determined by the buffer alone: the frames of the accumulator
  come first.
\<close>

definition prepend_frames :: "Frame list \<Rightarrow> (CodecError + Frame list) \<times> bytes \<Rightarrow> (CodecError + Frame list) \<times> bytes" where
  "prepend_frames fs r =
     (case r of (Inl e, s) \<Rightarrow> (Inl e, s) | (Inr gs, s) \<Rightarrow> (Inr (fs @ gs), s))"

lemma prepend_frames_simps [simp]:
  "prepend_frames fs (Inl e, s) = (Inl e, s)"
  "prepend_frames fs (Inr gs, s) = (Inr (fs @ gs), s)"
  "prepend_frames [] r = r"
  "prepend_frames fs (prepend_frames gs r) = prepend_frames (fs @ gs) r"
  by (auto simp: prepend_frames_def split: prod.splits sum.splits)

lemma decode_loop_acc: "decode_loop pc fs s = prepend_frames fs (decode_loop pc [] s)"
proof (induction s arbitrary: fs rule: measure_induct_rule [where f = length])
  case (less s)
  let ?len = "unat (get_u32 (take 4 s))"
  show ?case
  proof (cases "4 \<le> length s \<and> ?len \<le> MAX_FRAME_SIZE \<and> ?len \<noteq> 0 \<and> 4 + ?len \<le> length s")
    case False
    then show ?thesis by (auto simp: decode_loop.simps [of pc _ s] not_le)
  next
    case True
    then show ?thesis
    proof (cases "decode_frame_payload pc (take ?len (drop 4 s))")
      case (Inl e)
      with True show ?thesis by (simp add: decode_loop.simps [of pc _ s])
    next
      case (Inr f)
      have step: "decode_loop pc gs s = decode_loop pc (gs @ [f]) (drop (4 + ?len) s)" for gs
        using True Inr by (subst decode_loop.simps) simp
      have rest: "decode_loop pc gs (drop (4 + ?len) s) =
          prepend_frames gs (decode_loop pc [] (drop (4 + ?len) s))" for gs
        by (rule less.IH) (use True in auto)
      show ?thesis
        unfolding step [of fs] step [of "[]"] rest [of "fs @ [f]"] rest [of "[] @ [f]"]
        by simp
    qed
  qed
qed

lemma decode_loop_written:
  assumes "\<And>f. f \<in> set fs \<Longrightarrow> frame_reads_back pc f" and "map (encode_frame pc) fs = map Inr bs"
  shows "decode_loop pc gs (concat bs @ rest) = decode_loop pc (gs @ fs) rest"
  using assms
proof (induction fs arbitrary: bs gs)
  case Nil
  then show ?case by simp
next
  case (Cons f fs)
  then obtain b bs' where bs: "bs = b # bs'" "encode_frame pc f = Inr b"
      "map (encode_frame pc) fs = map Inr bs'"
    by (cases bs) auto
  with Cons decode_loop_one [of pc f b gs "concat bs' @ rest"] show ?case by simp
qed

text \<open>A buffer that ends inside a frame: the loop stops and keeps it.\<close>

lemma decode_loop_partial:
  assumes "encode_frame pc g = Inr c" and "n < length c"
  shows "decode_loop pc fs (take n c) = (Inr fs, take n c)"
proof -
  from assms(1) obtain p where c: "c = put_u32 (word_of_nat (length p)) @ p"
    and len: "length p \<le> MAX_FRAME_SIZE" "unat (word_of_nat (length p) :: u32) = length p"
    by (auto simp: encode_frame_Inr max_frame_size_u32)
  show ?thesis
  proof (cases "n < 4")
    case True
    then show ?thesis by (subst decode_loop.simps) (simp add: c)
  next
    case False
    then have hd4: "take 4 (take n c) = put_u32 (word_of_nat (length p))"
      by (simp add: c min_def)
    from False assms(2) c len have "p \<noteq> []" by auto
    with False assms(2) len show ?thesis
      unfolding decode_loop.simps [of pc fs "take n c"] hd4
      by (simp add: c)
  qed
qed

text \<open>A buffer holding whole encoded frames and the beginning of another decodes to exactly
  those frames, in order, and keeps the incomplete tail for the next read.\<close>

lemma decode_frames_encoded:
  assumes "\<forall>f \<in> set fs. frame_reads_back pc f" and "map (encode_frame pc) fs = map Inr bs"
    and "encode_frame pc g = Inr c" and "n < length c"
  shows "decode_frames pc (concat bs @ take n c) = (Inr fs, take n c)"
  using decode_loop_written [of fs pc bs "[]" "take n c"] decode_loop_partial [OF assms(3,4)] assms(1,2)
  by (simp add: decode_frames_def)

lemma decode_loop_more:
  assumes "decode_loop pc fs a = (Inr gs, r)"
  shows "decode_loop pc fs (a @ b) = decode_loop pc gs (r @ b)"
  using assms
proof (induction a arbitrary: fs rule: measure_induct_rule [where f = length])
  case (less a)
  let ?len = "unat (get_u32 (take 4 a))"
  show ?case
  proof (cases "4 \<le> length a \<and> 4 + ?len \<le> length a")
    case False
    with less.prems have "gs = fs" "r = a"
      by (auto simp: decode_loop.simps [of pc fs a] split: if_splits)
    then show ?thesis by simp
  next
    case True
    with less.prems obtain f where ok: "?len \<le> MAX_FRAME_SIZE" "?len \<noteq> 0"
        "decode_frame_payload pc (take ?len (drop 4 a)) = Inr f"
        "decode_loop pc (fs @ [f]) (drop (4 + ?len) a) = (Inr gs, r)"
      by (auto simp: decode_loop.simps [of pc fs a] split: if_splits sum.splits)
    have "decode_loop pc fs (a @ b) = decode_loop pc (fs @ [f]) (drop (4 + ?len) a @ b)"
      using True ok(1-3) by (subst decode_loop.simps) simp
    also have "\<dots> = decode_loop pc gs (r @ b)"
      by (rule less.IH [OF _ ok(4)]) (use True in auto)
    finally show ?thesis .
  qed
qed

text \<open>C20: however the network splits the bytes, feeding the decoder two chunks gives the frames
  of the first and then the frames of what was kept followed by the second: the same as
  decoding everything at once.\<close>

theorem decode_frames_chunks:
  assumes "decode_frames pc a = (Inr fs, kept)"
  shows "decode_frames pc (a @ b) = prepend_frames fs (decode_frames pc (kept @ b))"
  using decode_loop_more [of pc "[]" a fs kept b] decode_loop_acc [of pc fs "kept @ b"] assms
  by (simp add: decode_frames_def)

lemma read_control_frame_Inr:
  assumes "read_control_frame pc s = (Inr f, r)"
  shows "decode_loop pc fs s = decode_loop pc (fs @ [f]) r"
proof -
  let ?len = "unat (get_u32 (take 4 s))"
  have "4 \<le> length s" "?len \<noteq> 0" "?len \<le> MAX_FRAME_SIZE" "?len \<le> length s - 4"
    and "decode_frame_payload pc (take ?len (drop 4 s)) = Inr f" "drop ?len (drop 4 s) = r"
    using assms
    by (auto simp: read_control_frame_def read_exact_def Let_def map_error_Inr_iff
        split: if_splits prod.splits sum.splits)
  then show ?thesis
    by (subst decode_loop.simps) (simp add: not_less le_diff_conv2 add.commute [of 4])
qed

text \<open>the stream reader and the buffer decoder agree: what the reader takes off the front of
  the bytes is the first frame the decoder finds in them.\<close>

theorem read_control_frame_agrees:
  assumes "read_control_frame pc s = (Inr f, r)"
  shows "decode_frames pc s = prepend_frames [f] (decode_frames pc r)"
  using read_control_frame_Inr [OF assms, of "[]"] decode_loop_acc [of pc "[f]" r]
  by (simp add: decode_frames_def)

text \<open>An encoded frame is its payload behind a 4-byte big-endian length that announces it
  exactly, and never longer than the decoder's limit.\<close>

lemma encode_frame_bounds:
  assumes "encode_frame pc f = Inr b"
  shows "length b \<le> 4 + 1048576 \<and> length b = 4 + unat (get_u32 b) \<and>
    to_allocvec pc f = Inr (drop 4 b)"
  using assms by (auto simp: encode_frame_Inr max_frame_size_u32 MAX_FRAME_SIZE_def)

text \<open>C19: a control stream carries any sequence of messages: reading as many frames as were
  written gives the written frames in order and leaves the rest of the stream untouched.\<close>

theorem control_stream_roundtrip:
  assumes "\<And>f. f \<in> set fs \<Longrightarrow> frame_reads_back pc f" and "map (encode_frame pc) fs = map Inr bs"
  shows "read_messages (read_control_frame pc) (length fs) (concat bs @ rest) = (Inr fs, rest)"
  using assms by (rule wire.read_written)

section \<open>Witnesses\<close>

text \<open>
  A serializer to evaluate statements with: it knows a list of values and encodes each as
  its position, in unary.
\<close>

fun position_of :: "'a \<Rightarrow> 'a list \<Rightarrow> nat option" where
  "position_of x [] = None"
| "position_of x (y # ys) = (if x = y then Some 0 else map_option Suc (position_of x ys))"

definition listed :: "'a list \<Rightarrow> 'a serializer" where
  "listed xs = \<lparr>
     to_allocvec = (\<lambda>x. case position_of x xs of None \<Rightarrow> Inl ''unsupported'' | Some i \<Rightarrow> Inr (replicate (Suc i) 1)),
     from_bytes = (\<lambda>b. if b = [] \<or> length b > length xs then Inl ''unsupported'' else Inr (xs ! (length b - 1))) \<rparr>"

lemma position_of_nth: "position_of x xs = Some i \<Longrightarrow> i < length xs \<and> xs ! i = x"
  by (induction xs arbitrary: i) (auto split: if_splits)

lemma listed_reads_back [simp]: "reads_back (listed xs) x"
  by (auto simp: reads_back_def listed_def split: option.splits dest!: position_of_nth)

lemma listed_nonempty [simp]: "to_allocvec (listed xs) x \<noteq> Inr []"
  by (simp add: listed_def split: option.splits)

definition two_frames :: "Frame serializer" where
  "two_frames = listed [AuthRejected, Goodbye]"

lemma two_frames_reads_back: "frame_reads_back two_frames f"
  by (simp add: frame_reads_back_def two_frames_def)

lemma two_frames_encode:
  "encode_frame two_frames AuthRejected = Inr [0, 0, 0, 1, 1]"
  "encode_frame two_frames Goodbye = Inr [0, 0, 0, 2, 1, 1]"
  by (simp_all add: encode_frame_def two_frames_def listed_def MAX_FRAME_SIZE_def put_u32_def)

lemma two_frames_partial:
  "decode_frames two_frames [0, 0, 0, 1, 1, 0, 0] = (Inr [AuthRejected], [0, 0])"
  by (simp add: decode_frames_def decode_loop.simps two_frames_def listed_def decode_frame_payload_def
      MAX_FRAME_SIZE_def)

lemma two_frames_read:
  "read_control_frame two_frames [0, 0, 0, 1, 1, 0, 0] = (Inr AuthRejected, [0, 0])"
  by (simp add: read_control_frame_def read_exact_def two_frames_def listed_def decode_frame_payload_def
      MAX_FRAME_SIZE_def)

theorem decode_frames_chunks_witness:
  "decode_frames two_frames ([0, 0, 0, 1, 1, 0, 0] @ [0, 2, 1, 1]) =
     prepend_frames [AuthRejected] (decode_frames two_frames ([0, 0] @ [0, 2, 1, 1]))"
  by (rule decode_frames_chunks [OF two_frames_partial])

theorem read_control_frame_agrees_witness:
  "decode_frames two_frames [0, 0, 0, 1, 1, 0, 0] = prepend_frames [AuthRejected] (decode_frames two_frames [0, 0])"
  by (rule read_control_frame_agrees [OF two_frames_read])

theorem control_stream_roundtrip_witness:
  "read_messages (read_control_frame two_frames) 2 [0, 0, 0, 1, 1, 0, 0, 0, 2, 1, 1, 7] =
     (Inr [AuthRejected, Goodbye], [7])"
  using control_stream_roundtrip [of "[AuthRejected, Goodbye]" two_frames
      "[[0, 0, 0, 1, 1], [0, 0, 0, 2, 1, 1]]" "[7]"]
  by (simp add: two_frames_reads_back two_frames_encode numeral_2_eq_2)

end
