(* ===== verification/Tokens.thy ===== *)
theory Tokens
  imports Codec
begin

text \<open>
  Long-lived tokens: generation and hashing from \<open>crates/libongrok/src/lib.rs\<close> and the
  token state of \<open>crates/ongrok-relay-server/src/state.rs\<close>. The random bytes and the
  BLAKE3 hash are parameters.
\<close>

section \<open>Generation\<close>

definition HEX :: string where
  "HEX = ''0123456789abcdef''"

fun hex_encode :: "bytes \<Rightarrow> string" where
  "hex_encode [] = []"
| "hex_encode (b # bs) = HEX ! unat (drop_bit 4 b) # HEX ! unat (b AND 15) # hex_encode bs"

definition hash_token :: "(bytes \<Rightarrow> bytes) \<Rightarrow> string \<Rightarrow> bytes" where
  "hash_token blake3 token = blake3 (string_bytes token)"

definition token_prefix :: "TokenKind \<Rightarrow> string" where
  "token_prefix kind = (case kind of Admin \<Rightarrow> ''admin'' | User \<Rightarrow> ''user'')"

text \<open>\<open>raw\<close>: the 32 bytes the random number generator fills in.\<close>

definition generate_token :: "(bytes \<Rightarrow> bytes) \<Rightarrow> bytes \<Rightarrow> TokenKind \<Rightarrow> string \<times> bytes" where
  "generate_token blake3 raw kind =
     (let token = ''ongrok_'' @ token_prefix kind @ ''_'' @ hex_encode raw
      in (token, hash_token blake3 token))"

section \<open>Token state\<close>

record TokenState =
  ts_admin_hash :: "bytes option"
  ts_user_hash :: "bytes option"

definition token_authenticate :: "TokenState \<Rightarrow> bytes \<Rightarrow> TokenKind option" where
  "token_authenticate ts token_hash =
     (if ts_admin_hash ts = Some token_hash then Some Admin
      else if ts_user_hash ts = Some token_hash then Some User
      else None)"

definition token_set :: "TokenState \<Rightarrow> TokenKind \<Rightarrow> bytes option \<Rightarrow> TokenState" where
  "token_set ts kind token_hash =
     (case kind of
        Admin \<Rightarrow> ts\<lparr>ts_admin_hash := token_hash\<rparr>
      | User \<Rightarrow> ts\<lparr>ts_user_hash := token_hash\<rparr>)"

section \<open>Tokens are hexadecimal and injective\<close>

lemma nibble_bounds: "unat (drop_bit 4 (b :: byte)) < 16" "unat (b AND 15) < 16"
proof -
  have "unat (drop_bit 4 b) = unat b div 16"
    unfolding unat_drop_bit_eq by (simp add: drop_bit_eq_div)
  then show "unat (drop_bit 4 b) < 16"
    using unsigned_less [of b, where ?'a = nat] by simp
  have "b AND 15 \<le> 15" by (rule word_and_le1)
  then show "unat (b AND 15) < 16"
    by (simp add: word_le_nat_alt)
qed

lemma nibbles_determine:
  assumes "drop_bit 4 (a :: byte) = drop_bit 4 b" and "a AND 15 = b AND 15"
  shows "a = b"
proof (rule bit_word_eqI)
  fix n
  assume n: "n < LENGTH(8)"
  have low: "bit (a AND 15) n = bit (b AND 15) n" using assms(2) by simp
  have high: "bit (drop_bit 4 a) (n - 4) = bit (drop_bit 4 b) (n - 4)" using assms(1) by simp
  have "n < 4 \<or> 4 \<le> n" by linarith
  moreover have "(15 :: byte) = mask 4" by (simp add: mask_eq_exp_minus_1)
  ultimately show "bit a n = bit b n"
    using low high n unfolding \<open>15 = mask 4\<close> by (auto simp: bit_and_iff bit_mask_iff bit_drop_bit_eq)
qed

lemma HEX_inj: "i < 16 \<Longrightarrow> j < 16 \<Longrightarrow> HEX ! i = HEX ! j \<longleftrightarrow> i = j"
  by (rule nth_eq_iff_index_eq) (simp_all add: HEX_def)

lemma HEX_nibbles:
  "HEX ! unat (drop_bit 4 (a :: byte)) = HEX ! unat (drop_bit 4 (b :: byte)) \<longleftrightarrow> drop_bit 4 a = drop_bit 4 b"
  "HEX ! unat (a AND 15 :: byte) = HEX ! unat (b AND 15) \<longleftrightarrow> a AND 15 = b AND 15"
  by (simp_all only: HEX_inj [OF nibble_bounds(1) nibble_bounds(1)]
      HEX_inj [OF nibble_bounds(2) nibble_bounds(2)] word_unat_eq_iff [symmetric])

lemma HEX_nibble_mem:
  "HEX ! unat (drop_bit 4 (b :: byte)) \<in> set HEX" "HEX ! unat (b AND 15 :: byte) \<in> set HEX"
  using nibble_bounds [of b] by (auto intro!: nth_mem simp: HEX_def simp del: list.set)

lemma length_hex_encode [simp]: "length (hex_encode bs) = 2 * length bs"
  by (induction bs) auto

lemma hex_encode_inj: "hex_encode as = hex_encode bs \<longleftrightarrow> as = bs"
proof (induction "as" arbitrary: bs)
  case Nil
  then show ?case by (cases bs) auto
next
  case (Cons a "as")
  show ?case
  proof (cases bs)
    case Nil
    then show ?thesis by simp
  next
    case (Cons b bs')
    with Cons.IH show ?thesis
      by (auto simp only: hex_encode.simps list.inject HEX_nibbles intro: nibbles_determine)
  qed
qed

lemma hex_encode_chars: "c \<in> set (hex_encode bs) \<Longrightarrow> c \<in> set HEX"
proof (induction bs)
  case Nil
  then show ?case by simp
next
  case (Cons b bs)
  then show ?case using HEX_nibble_mem [of b] by (auto simp only: hex_encode.simps list.set insert_iff)
qed

text \<open>A generated token is the kind's prefix and 64 lower-case hexadecimal digits; its hash is
  the stored one; and two tokens are equal only for the same kind and the same random bytes.\<close>

lemma generate_token_spec:
  assumes "length raw = 32"
  shows "strip_prefix (fst (generate_token blake3 raw k)) (''ongrok_'' @ token_prefix k @ ''_'') =
      Some (hex_encode raw) \<and>
    length (hex_encode raw) = 64 \<and> set (hex_encode raw) \<subseteq> set ''0123456789abcdef'' \<and>
    snd (generate_token blake3 raw k) = hash_token blake3 (fst (generate_token blake3 raw k)) \<and>
    (fst (generate_token blake3 raw k) = fst (generate_token blake3' raw' k')) = (k = k' \<and> raw = raw')"
proof -
  have "(fst (generate_token blake3 raw k) = fst (generate_token blake3' raw' k')) = (k = k' \<and> raw = raw')"
    by (cases k; cases k') (simp_all add: generate_token_def token_prefix_def hex_encode_inj Let_def)
  moreover have "set (hex_encode raw) \<subseteq> set ''0123456789abcdef''"
    using hex_encode_chars unfolding HEX_def by blast
  moreover have "strip_prefix (fst (generate_token blake3 raw k)) (''ongrok_'' @ token_prefix k @ ''_'') =
      Some (hex_encode raw)"
    by (simp add: generate_token_def strip_prefix_Some_iff Let_def)
  ultimately show ?thesis
    using assms by (simp add: generate_token_def Let_def)
qed

section \<open>Rotation and revocation of one token\<close>

lemma token_set_authenticate:
  "token_authenticate (token_set ts k slot) g = Some k \<longleftrightarrow>
     slot = Some g \<and> \<not> (k = User \<and> ts_admin_hash ts = Some g)"
  by (cases k) (auto simp: token_authenticate_def token_set_def)

text \<open>After a token of one kind is replaced, exactly the new hash authenticates as that kind
  (the admin token first), nothing does after a revocation, and the other kind's token still
  authenticates as before unless it is the replaced one.\<close>

lemma token_set_spec:
  assumes "k' \<noteq> k"
  shows "(token_authenticate (token_set ts k slot) g = Some k) =
      (slot = Some g \<and> \<not> (k = User \<and> ts_admin_hash ts = Some g)) \<and>
    token_authenticate (token_set ts k None) g \<noteq> Some k \<and>
    (slot = Some g \<or> token_authenticate ts g \<noteq> Some k' \<or>
      token_authenticate (token_set ts k slot) g = Some k')"
  using assms
  by (cases k; cases k') (auto simp: token_authenticate_def token_set_def split: if_splits)

end
