(* ===== verification/Store.thy ===== *)
theory Store
  imports Tokens "HOL-Library.Multiset"
begin

text \<open>
  The durable repository, \<open>crates/ongrok-relay-server/src/store.rs\<close>: five redb tables of
  encoded records. redb is a library, so what it does is the documented behaviour of
  an ordered table with atomic write transactions: a transaction that does not commit
  leaves the tables as they were. Whether and where a transaction fails is an input.
\<close>

section \<open>What the code calls\<close>

text \<open>
  The pure functions of other crates: UUID formatting and parsing, BLAKE3, and postcard at
  each stored type and at \<open>Frame\<close>.
\<close>

record Externals =
  x_uuid_string :: "uuid \<Rightarrow> string"
  x_parse_uuid :: "string \<Rightarrow> uuid option"
  x_blake3 :: "bytes \<Rightarrow> bytes"
  x_frame :: "Frame serializer"
  x_service :: "ServiceDefinition serializer"
  x_node :: "NodeRecord serializer"
  x_metric :: "NodeMetric serializer"
  x_event :: "ControlEvent serializer"
  x_tokens :: "TokenState serializer"

definition id_string :: "Externals \<Rightarrow> 'a uuid_id \<Rightarrow> string" where
  "id_string X i = x_uuid_string X (id_uuid i)"

type_synonym Table = "(string, bytes) btree"
type_synonym Database = "string \<Rightarrow> Table option"

text \<open>
  Where a transaction fails: beginning it, opening the table, the first access (insert,
  get, remove, starting the iteration of a load), reading the n-th item, iterating and
  removing expired rows, committing.
\<close>

datatype db_fault = AtBegin | AtOpen | AtAccess | AtItem nat | AtIterate | AtPrune | AtCommit

datatype open_fault = CannotCreate | CannotBegin | CannotOpenTable nat | CannotCommit

section \<open>Transactions\<close>

definition SERVICES_TABLE :: string where "SERVICES_TABLE = ''services''"
definition NODES_TABLE :: string where "NODES_TABLE = ''nodes''"
definition METRICS_TABLE :: string where "METRICS_TABLE = ''metrics''"
definition TOKENS_TABLE :: string where "TOKENS_TABLE = ''tokens''"
definition EVENTS_TABLE :: string where "EVENTS_TABLE = ''events''"
definition TOKEN_STATE_KEY :: string where "TOKEN_STATE_KEY = ''state''"

definition METRIC_RETENTION_MS :: int where
  "METRIC_RETENTION_MS = 3 * 24 * 60 * 60 * 1000"

lemmas table_defs = SERVICES_TABLE_def NODES_TABLE_def METRICS_TABLE_def TOKENS_TABLE_def EVENTS_TABLE_def

definition table_names :: "string list" where
  "table_names = [SERVICES_TABLE, NODES_TABLE, METRICS_TABLE, TOKENS_TABLE, EVENTS_TABLE]"

text \<open>A write transaction creates a table it opens, a read transaction fails without it.\<close>

definition table_for_write :: "Database \<Rightarrow> string \<Rightarrow> Table" where
  "table_for_write d name = (case d name of None \<Rightarrow> [] | Some t \<Rightarrow> t)"

text \<open>The contexts are those of beginning, opening, accessing and committing, in this order.\<close>

definition write_txn ::
  "db_fault option \<Rightarrow> string \<times> string \<times> string \<times> string \<Rightarrow> string \<Rightarrow> (Table \<Rightarrow> Table) \<Rightarrow> Database \<Rightarrow>
     (string + unit) \<times> Database" where
  "write_txn fault ctx name f d =
     (case ctx of (m_begin, m_open, m_access, m_commit) \<Rightarrow>
       (case fault of
          Some AtBegin \<Rightarrow> (Inl m_begin, d)
        | Some AtOpen \<Rightarrow> (Inl m_open, d)
        | Some AtAccess \<Rightarrow> (Inl m_access, d)
        | Some AtCommit \<Rightarrow> (Inl m_commit, d)
        | _ \<Rightarrow> (Inr (), d(name \<mapsto> f (table_for_write d name)))))"

definition read_table ::
  "db_fault option \<Rightarrow> string \<times> string \<times> string \<Rightarrow> string \<Rightarrow> Database \<Rightarrow> string + Table" where
  "read_table fault ctx name d =
     (case ctx of (m_begin, m_open, m_access) \<Rightarrow>
       (if fault = Some AtBegin then Inl m_begin
        else if fault = Some AtOpen then Inl m_open
        else case d name of
          None \<Rightarrow> Inl m_open
        | Some t \<Rightarrow> if fault = Some AtAccess then Inl m_access else Inr t))"

text \<open>The position of the item that cannot be read, if any.\<close>

definition bad_item :: "db_fault option \<Rightarrow> nat option" where
  "bad_item fault = (case fault of Some (AtItem n) \<Rightarrow> Some n | _ \<Rightarrow> None)"

fun read_items :: "(string \<Rightarrow> bool) \<Rightarrow> (bytes \<Rightarrow> string + 'a) \<Rightarrow> string \<Rightarrow> nat option \<Rightarrow> Table \<Rightarrow> string + 'a list" where
  "read_items wanted dec m_item bad [] = Inr []"
| "read_items wanted dec m_item bad ((k, v) # t) =
     (if bad = Some 0 then Inl m_item
      else if wanted k then
        result_bind (dec v) (\<lambda>a. result_bind (read_items wanted dec m_item (map_option (\<lambda>n. n - 1) bad) t)
          (\<lambda>as. Inr (a # as)))
      else read_items wanted dec m_item (map_option (\<lambda>n. n - 1) bad) t)"

definition encode_with :: "'a serializer \<Rightarrow> string \<Rightarrow> 'a \<Rightarrow> string + bytes" where
  "encode_with ser ctx a = map_error (\<lambda>_. ctx) (to_allocvec ser a)"

definition decode_with :: "'a serializer \<Rightarrow> string \<Rightarrow> bytes \<Rightarrow> string + 'a" where
  "decode_with ser ctx b = map_error (\<lambda>_. ctx) (from_bytes ser b)"

section \<open>Operations\<close>

definition store_open :: "string \<Rightarrow> open_fault option \<Rightarrow> Database \<Rightarrow> string + Database" where
  "store_open path fault d =
     (case fault of
        Some CannotCreate \<Rightarrow> Inl (''failed to open database '' @ path)
      | Some CannotBegin \<Rightarrow> Inl ''failed to begin database transaction''
      | Some (CannotOpenTable n) \<Rightarrow> Inl (''failed to open '' @ table_names ! (n mod 5) @ '' table'')
      | Some CannotCommit \<Rightarrow> Inl ''failed to initialize database''
      | None \<Rightarrow> Inr (\<lambda>name. if name \<in> set table_names then Some (table_for_write d name) else d name))"

definition put_tokens :: "Externals \<Rightarrow> db_fault option \<Rightarrow> TokenState \<Rightarrow> Database \<Rightarrow> (string + unit) \<times> Database" where
  "put_tokens X fault tokens d =
     (case encode_with (x_tokens X) ''failed to encode token state'' tokens of
        Inl e \<Rightarrow> (Inl e, d)
      | Inr encoded \<Rightarrow>
          write_txn fault
            (''failed to begin token write transaction'', ''failed to open token table'',
             ''failed to persist token state'', ''failed to commit token state'')
            TOKENS_TABLE (bt_insert TOKEN_STATE_KEY encoded) d)"

definition load_or_initialize_tokens ::
  "Externals \<Rightarrow> db_fault option \<Rightarrow> db_fault option \<Rightarrow> bytes \<Rightarrow> bytes \<Rightarrow> Database \<Rightarrow>
     (string + TokenState) \<times> Database" where
  "load_or_initialize_tokens X read_fault write_fault initial_admin_hash initial_user_hash d =
     (case read_table read_fault
         (''failed to begin token read transaction'', ''failed to open token table'', ''failed to read token state'')
         TOKENS_TABLE d of
        Inl e \<Rightarrow> (Inl e, d)
      | Inr table \<Rightarrow>
          (case bt_get table TOKEN_STATE_KEY of
             Some v \<Rightarrow> (decode_with (x_tokens X) ''failed to decode token state'' v, d)
           | None \<Rightarrow>
               let tokens = \<lparr>ts_admin_hash = Some initial_admin_hash, ts_user_hash = Some initial_user_hash\<rparr> in
               (case put_tokens X write_fault tokens d of
                  (Inl e, d) \<Rightarrow> (Inl e, d)
                | (Inr _, d) \<Rightarrow> (Inr tokens, d))))"

definition load_services :: "Externals \<Rightarrow> db_fault option \<Rightarrow> Database \<Rightarrow> string + (ServiceId, ServiceDefinition) btree" where
  "load_services X fault d =
     result_bind
       (read_table fault (''failed to begin database read'', ''failed to open services table'',
          ''failed to iterate services'') SERVICES_TABLE d)
       (\<lambda>table. result_bind
         (read_items (\<lambda>_. True) (decode_with (x_service X) ''failed to decode service record'')
            ''failed to read service record'' (bad_item fault) table)
         (\<lambda>items. Inr (bt_from_list (map (\<lambda>s. (sd_service_id s, s)) items))))"

definition put_service :: "Externals \<Rightarrow> db_fault option \<Rightarrow> ServiceDefinition \<Rightarrow> Database \<Rightarrow> (string + unit) \<times> Database" where
  "put_service X fault service d =
     (case encode_with (x_service X) ''failed to encode service record'' service of
        Inl e \<Rightarrow> (Inl e, d)
      | Inr encoded \<Rightarrow>
          write_txn fault
            (''failed to begin database write'', ''failed to open services table'',
             ''failed to persist service'', ''failed to commit service'')
            SERVICES_TABLE (bt_insert (id_string X (sd_service_id service)) encoded) d)"

definition delete_service :: "Externals \<Rightarrow> db_fault option \<Rightarrow> ServiceId \<Rightarrow> Database \<Rightarrow> (string + unit) \<times> Database" where
  "delete_service X fault service_id d =
     write_txn fault
       (''failed to begin database write'', ''failed to open services table'',
        ''failed to remove service'', ''failed to commit service removal'')
       SERVICES_TABLE (bt_remove (id_string X service_id)) d"

definition load_nodes :: "Externals \<Rightarrow> db_fault option \<Rightarrow> Database \<Rightarrow> string + (NodeId, NodeRecord) btree" where
  "load_nodes X fault d =
     result_bind
       (read_table fault (''failed to begin database read'', ''failed to open nodes table'',
          ''failed to iterate nodes'') NODES_TABLE d)
       (\<lambda>table. result_bind
         (read_items (\<lambda>_. True) (decode_with (x_node X) ''failed to decode node record'')
            ''failed to read node record'' (bad_item fault) table)
         (\<lambda>items. Inr (bt_from_list (map (\<lambda>n. (nr_node_id n, n)) items))))"

definition put_node :: "Externals \<Rightarrow> db_fault option \<Rightarrow> NodeRecord \<Rightarrow> Database \<Rightarrow> (string + unit) \<times> Database" where
  "put_node X fault node d =
     (case encode_with (x_node X) ''failed to encode node record'' node of
        Inl e \<Rightarrow> (Inl e, d)
      | Inr encoded \<Rightarrow>
          write_txn fault
            (''failed to begin database write'', ''failed to open nodes table'',
             ''failed to persist node'', ''failed to commit node'')
            NODES_TABLE (bt_insert (id_string X (nr_node_id node)) encoded) d)"

definition metric_key :: "Externals \<Rightarrow> NodeMetric \<Rightarrow> string" where
  "metric_key X metric =
     id_string X (me_node_id metric) @ '':'' @ format_i64_020 (me_recorded_at metric) @ '':'' @
     format_u64_020 (unat (hs_sequence (me_snapshot metric)))"

text \<open>
  A row is expired when it decodes and is older than the cutoff; rows that do not decode,
  and an item that cannot be read, are passed over.
\<close>

definition metric_expired :: "Externals \<Rightarrow> int \<Rightarrow> bytes \<Rightarrow> bool" where
  "metric_expired X cutoff v =
     (case from_bytes (x_metric X) v of Inl _ \<Rightarrow> False | Inr stored \<Rightarrow> me_recorded_at stored < cutoff)"

fun expired_keys :: "Externals \<Rightarrow> int \<Rightarrow> nat option \<Rightarrow> Table \<Rightarrow> string list" where
  "expired_keys X cutoff bad [] = []"
| "expired_keys X cutoff bad ((k, v) # t) =
     (if bad \<noteq> Some 0 \<and> metric_expired X cutoff v then [k] else []) @
     expired_keys X cutoff (case bad of Some (Suc n) \<Rightarrow> Some n | _ \<Rightarrow> None) t"

definition metric_cutoff :: "NodeMetric \<Rightarrow> int" where
  "metric_cutoff metric = saturating_sub_i64 (me_recorded_at metric) METRIC_RETENTION_MS"

definition put_metric :: "Externals \<Rightarrow> db_fault option \<Rightarrow> NodeMetric \<Rightarrow> Database \<Rightarrow> (string + unit) \<times> Database" where
  "put_metric X fault metric d =
     (case encode_with (x_metric X) ''failed to encode node metric'' metric of
        Inl e \<Rightarrow> (Inl e, d)
      | Inr encoded \<Rightarrow>
          let table = bt_insert (metric_key X metric) encoded (table_for_write d METRICS_TABLE);
              expired = expired_keys X (metric_cutoff metric) (bad_item fault) table
          in if fault = Some AtIterate then (Inl ''failed to iterate metrics for retention'', d)
             else if fault = Some AtPrune \<and> expired \<noteq> [] then (Inl ''failed to prune expired node metric'', d)
             else write_txn fault
               (''failed to begin database write'', ''failed to open metrics table'',
                ''failed to persist node metric'', ''failed to commit node metric'')
               METRICS_TABLE (\<lambda>_. fold bt_remove expired table) d)"

definition metrics_for_node :: "Externals \<Rightarrow> db_fault option \<Rightarrow> NodeId \<Rightarrow> Database \<Rightarrow> string + NodeMetric list" where
  "metrics_for_node X fault node_id d =
     result_bind
       (read_table fault (''failed to begin database read'', ''failed to open metrics table'',
          ''failed to iterate metrics'') METRICS_TABLE d)
       (\<lambda>table. read_items (\<lambda>key. starts_with key (id_string X node_id @ '':''))
          (decode_with (x_metric X) ''failed to decode node metric'')
          ''failed to read metric record'' (bad_item fault) table)"

definition event_key :: "Externals \<Rightarrow> ControlEvent \<Rightarrow> string" where
  "event_key X event =
     format_i64_020 (max (ev_occurred_at event) 0) @ '':'' @ id_string X (ev_event_id event)"

definition put_event :: "Externals \<Rightarrow> db_fault option \<Rightarrow> ControlEvent \<Rightarrow> Database \<Rightarrow> (string + unit) \<times> Database" where
  "put_event X fault event d =
     (case encode_with (x_event X) ''failed to encode control event'' event of
        Inl e \<Rightarrow> (Inl e, d)
      | Inr encoded \<Rightarrow>
          write_txn fault
            (''failed to begin event write transaction'', ''failed to open events table'',
             ''failed to persist control event'', ''failed to commit control event'')
            EVENTS_TABLE (bt_insert (event_key X event) encoded) d)"

text \<open>\<open>sort_by_key\<close> is stable, and so is \<^const>\<open>sort_key\<close>.\<close>

definition recent_events :: "Externals \<Rightarrow> db_fault option \<Rightarrow> nat \<Rightarrow> Database \<Rightarrow> string + ControlEvent list" where
  "recent_events X fault limit d =
     result_bind
       (read_table fault (''failed to begin event read transaction'', ''failed to open events table'',
          ''failed to iterate control events'') EVENTS_TABLE d)
       (\<lambda>table. result_bind
         (read_items (\<lambda>_. True) (decode_with (x_event X) ''failed to decode control event'')
            ''failed to read control event'' (bad_item fault) table)
         (\<lambda>events. Inr (take limit (sort_key (\<lambda>event. - ev_occurred_at event) events))))"

section \<open>Transactions are atomic\<close>

lemma write_txn_cases:
  "write_txn fault ctx name f d = (Inr (), d(name \<mapsto> f (table_for_write d name))) \<or>
   (\<exists>e. write_txn fault ctx name f d = (Inl e, d))"
  by (auto simp: write_txn_def split: prod.splits option.splits db_fault.splits)

lemma write_txn_None [simp]:
  "write_txn None ctx name f d = (Inr (), d(name \<mapsto> f (table_for_write d name)))"
  by (simp add: write_txn_def split: prod.splits)

lemma table_for_write_Some [simp]: "d name = Some t \<Longrightarrow> table_for_write d name = t"
  by (simp add: table_for_write_def)

lemma encode_with_Inr_iff: "encode_with ser ctx a = Inr p \<longleftrightarrow> to_allocvec ser a = Inr p"
  by (simp add: encode_with_def map_error_Inr_iff)

lemma decode_with_Inr_iff: "decode_with ser ctx b = Inr a \<longleftrightarrow> from_bytes ser b = Inr a"
  by (simp add: decode_with_def map_error_Inr_iff)

definition atomic_outcome :: "string \<Rightarrow> Database \<Rightarrow> (string + unit) \<times> Database \<Rightarrow> bool" where
  "atomic_outcome name d r =
     (case r of (Inl _, d') \<Rightarrow> d' = d | (Inr _, d') \<Rightarrow> (\<exists>t. d' = d(name \<mapsto> t)))"

lemma write_txn_atomic: "atomic_outcome name d (write_txn fault ctx name f d)"
  using write_txn_cases [of fault ctx name f d] by (auto simp: atomic_outcome_def)

lemma atomic_outcome_error: "atomic_outcome name d (Inl e, d)"
  by (simp add: atomic_outcome_def)

lemma store_atomic:
  "atomic_outcome SERVICES_TABLE d (put_service X fault s d)"
  "atomic_outcome SERVICES_TABLE d (delete_service X fault i d)"
  "atomic_outcome NODES_TABLE d (put_node X fault n d)"
  "atomic_outcome METRICS_TABLE d (put_metric X fault m d)"
  "atomic_outcome TOKENS_TABLE d (put_tokens X fault ts d)"
  "atomic_outcome EVENTS_TABLE d (put_event X fault ev d)"
  by (simp_all add: put_service_def delete_service_def put_node_def put_metric_def put_tokens_def
      put_event_def Let_def write_txn_atomic atomic_outcome_error split: sum.split)

lemma atomic_other: "atomic_outcome name d r \<Longrightarrow> n \<noteq> name \<Longrightarrow> snd r n = d n"
  by (auto simp: atomic_outcome_def split: prod.splits sum.splits)

text \<open>every write of the repository is all or nothing: an error leaves the database as it
  was, success rewrites the one table the operation is about.\<close>

theorem store_writes_atomic:
  "atomic_outcome SERVICES_TABLE d (put_service X fault s d) \<and>
   atomic_outcome SERVICES_TABLE d (delete_service X fault i d) \<and>
   atomic_outcome NODES_TABLE d (put_node X fault n d) \<and>
   atomic_outcome METRICS_TABLE d (put_metric X fault m d) \<and>
   atomic_outcome TOKENS_TABLE d (put_tokens X fault ts d) \<and>
   atomic_outcome EVENTS_TABLE d (put_event X fault ev d)"
  by (simp add: store_atomic)

section \<open>Record tables mirror the in-memory maps\<close>

text \<open>
  A table of records mirrors a map when it holds exactly the encodings of the map's records,
  each under the string form of its id.
\<close>

definition table_mirrors ::
  "('i::linorder \<Rightarrow> string) \<Rightarrow> 'r serializer \<Rightarrow> ('r \<Rightarrow> 'i) \<Rightarrow> Table \<Rightarrow> ('i, 'r) btree \<Rightarrow> bool" where
  "table_mirrors key ser rid t m \<longleftrightarrow>
     bt_wf t \<and> bt_wf m \<and>
     (\<forall>i r. bt_get m i = Some r \<longrightarrow> rid r = i \<and> is_ok (to_allocvec ser r) \<and> reads_back ser r) \<and>
     (\<forall>i. bt_get t (key i) = map_option (\<lambda>r. projr (to_allocvec ser r)) (bt_get m i)) \<and>
     (\<forall>k. bt_get t k \<noteq> None \<longrightarrow> k \<in> range key)"

lemma map_of_consistent:
  assumes "\<And>i r. (i, r) \<in> set l \<Longrightarrow> f i = Some r" and "\<And>i r. f i = Some r \<Longrightarrow> (i, r) \<in> set l"
  shows "map_of l i = f i"
proof (cases "f i")
  case None
  with assms(1) have "i \<notin> fst ` set l" by force
  with None show ?thesis by (simp add: map_of_eq_None_iff)
next
  case (Some r)
  then have "i \<in> fst ` set l" using assms(2) by force
  then obtain r' where "map_of l i = Some r'" by (metis map_of_eq_None_iff not_None_eq)
  with assms(1) Some show ?thesis by (metis map_of_SomeD)
qed

lemma read_items_all:
  assumes "\<And>k v. (k, v) \<in> set t \<Longrightarrow> wanted k \<Longrightarrow> dec v = Inr (g v)"
  shows "read_items wanted dec msg None t = Inr (map (\<lambda>p. g (snd p)) (filter (\<lambda>p. wanted (fst p)) t))"
  using assms
proof (induction t)
  case Nil
  then show ?case by simp
next
  case (Cons p t)
  obtain k v where p: "p = (k, v)" by (cases p)
  have "read_items wanted dec msg None t = Inr (map (\<lambda>p. g (snd p)) (filter (\<lambda>p. wanted (fst p)) t))"
    by (rule Cons.IH) (use Cons.prems in auto)
  moreover have "dec v = Inr (g v)" if "wanted k"
    using Cons.prems [of k v] that p by simp
  ultimately show ?case by (simp add: p)
qed

lemma load_mirrored:
  assumes "table_mirrors key ser rid t m"
  obtains rs where "read_items (\<lambda>_. True) (decode_with ser ctx) msg None t = Inr rs"
    and "bt_from_list (map (\<lambda>r. (rid r, r)) rs) = m"
proof -
  note mir = assms [unfolded table_mirrors_def]
  have row: "\<exists>i r. k = key i \<and> bt_get m i = Some r \<and> to_allocvec ser r = Inr v \<and> from_bytes ser v = Inr r \<and> rid r = i"
    if kv: "(k, v) \<in> set t" for k v
  proof -
    from kv mir have get: "bt_get t k = Some v" by (simp add: bt_get_mem)
    with mir obtain i where i: "k = key i" by fastforce
    with get mir obtain r where r: "bt_get m i = Some r" "v = projr (to_allocvec ser r)" by fastforce
    with mir have "is_ok (to_allocvec ser r)" "reads_back ser r" "rid r = i" by auto
    with i r show ?thesis by (cases "to_allocvec ser r") (auto simp: reads_back_def)
  qed
  define rs where "rs = map (\<lambda>p. projr (from_bytes ser (snd p))) t"
  have "read_items (\<lambda>_. True) (decode_with ser ctx) msg None t =
      Inr (map (\<lambda>p. projr (from_bytes ser (snd p))) (filter (\<lambda>p. True) t))"
    by (rule read_items_all) (use row in \<open>fastforce simp: decode_with_Inr_iff\<close>)
  then have read: "read_items (\<lambda>_. True) (decode_with ser ctx) msg None t = Inr rs"
    by (simp add: rs_def)
  have "map_of (rev (map (\<lambda>r. (rid r, r)) rs)) i = bt_get m i" for i
  proof (rule map_of_consistent)
    show "bt_get m j = Some r" if "(j, r) \<in> set (rev (map (\<lambda>r. (rid r, r)) rs))" for j r
      using that row by (fastforce simp: rs_def)
    show "(j, r) \<in> set (rev (map (\<lambda>r. (rid r, r)) rs))" if "bt_get m j = Some r" for j r
    proof -
      from that mir have r: "is_ok (to_allocvec ser r)" "reads_back ser r" "rid r = j" by auto
      with that mir obtain v where "bt_get t (key j) = Some v" "to_allocvec ser r = Inr v" "from_bytes ser v = Inr r"
        by (cases "to_allocvec ser r") (auto simp: reads_back_def)
      moreover have "(key j, v) \<in> set t"
        using \<open>bt_get t (key j) = Some v\<close> unfolding bt_get_def by (rule map_of_SomeD)
      moreover have "projr (from_bytes ser v) = r"
        using \<open>from_bytes ser v = Inr r\<close> by simp
      ultimately show ?thesis using r(3) by (force simp: rs_def)
    qed
  qed
  then have "bt_from_list (map (\<lambda>r. (rid r, r)) rs) = m"
    using mir by (intro bt_ext) (auto simp: bt_get_from_list)
  with read show thesis by (rule that)
qed

lemma mirror_insert:
  assumes "inj key" and "table_mirrors key ser rid t m" and "to_allocvec ser r = Inr p" and "reads_back ser r"
  shows "table_mirrors key ser rid (bt_insert (key (rid r)) p t) (bt_insert (rid r) r m)"
  using assms(2-4)
    bt_mirror.mirror_ins [OF assms(1), of t "\<lambda>r. projr (to_allocvec ser r)" m "rid r" r]
  unfolding table_mirrors_def by auto

lemma mirror_remove:
  assumes "inj key" and "table_mirrors key ser rid t m"
  shows "table_mirrors key ser rid (bt_remove (key i) t) (bt_remove i m)"
  using assms(2) bt_mirror.mirror_del [OF assms(1), of t "\<lambda>r. projr (to_allocvec ser r)" m i]
  unfolding table_mirrors_def by auto

text \<open>The two record tables of the repository.\<close>

definition services_durable :: "Externals \<Rightarrow> Database \<Rightarrow> (ServiceId, ServiceDefinition) btree \<Rightarrow> bool" where
  "services_durable X d m \<longleftrightarrow>
     (\<exists>t. d SERVICES_TABLE = Some t \<and> table_mirrors (id_string X) (x_service X) sd_service_id t m)"

definition nodes_durable :: "Externals \<Rightarrow> Database \<Rightarrow> (NodeId, NodeRecord) btree \<Rightarrow> bool" where
  "nodes_durable X d m \<longleftrightarrow>
     (\<exists>t. d NODES_TABLE = Some t \<and> table_mirrors (id_string X) (x_node X) nr_node_id t m)"

lemma inj_id_string: "inj (x_uuid_string X) \<Longrightarrow> inj (id_string X)"
  unfolding id_string_def by (rule injI) (metis injD uuid_id.expand)

lemma services_durable_load: "services_durable X d m \<Longrightarrow> load_services X None d = Inr m"
  by (auto simp: services_durable_def load_services_def read_table_def bad_item_def
      elim!: load_mirrored [of _ _ _ _ _ "''failed to decode service record''" "''failed to read service record''"])

lemma nodes_durable_load: "nodes_durable X d m \<Longrightarrow> load_nodes X None d = Inr m"
  by (auto simp: nodes_durable_def load_nodes_def read_table_def bad_item_def
      elim!: load_mirrored [of _ _ _ _ _ "''failed to decode node record''" "''failed to read node record''"])

lemma put_service_durable:
  assumes "inj (x_uuid_string X)" and "services_durable X d m"
    and "to_allocvec (x_service X) s = Inr p" and "reads_back (x_service X) s"
  obtains d' where "put_service X None s d = (Inr (), d')"
    and "services_durable X d' (bt_insert (sd_service_id s) s m)"
    and "\<And>n. n \<noteq> SERVICES_TABLE \<Longrightarrow> d' n = d n"
proof -
  from assms(2) obtain t where t: "d SERVICES_TABLE = Some t"
      "table_mirrors (id_string X) (x_service X) sd_service_id t m"
    by (auto simp: services_durable_def)
  let ?d = "d(SERVICES_TABLE \<mapsto> bt_insert (id_string X (sd_service_id s)) p t)"
  have "put_service X None s d = (Inr (), ?d)"
    using t(1) assms(3) by (simp add: put_service_def encode_with_def)
  moreover have "services_durable X ?d (bt_insert (sd_service_id s) s m)"
    using mirror_insert [OF inj_id_string [OF assms(1)] t(2) assms(3,4)]
    by (simp add: services_durable_def)
  ultimately show thesis by (rule that) simp
qed

lemma delete_service_durable:
  assumes "inj (x_uuid_string X)" and "services_durable X d m"
  obtains d' where "delete_service X None i d = (Inr (), d')"
    and "services_durable X d' (bt_remove i m)"
    and "\<And>n. n \<noteq> SERVICES_TABLE \<Longrightarrow> d' n = d n"
proof -
  from assms(2) obtain t where t: "d SERVICES_TABLE = Some t"
      "table_mirrors (id_string X) (x_service X) sd_service_id t m"
    by (auto simp: services_durable_def)
  have "services_durable X (d(SERVICES_TABLE \<mapsto> bt_remove (id_string X i) t)) (bt_remove i m)"
    using mirror_remove [OF inj_id_string [OF assms(1)] t(2)] by (simp add: services_durable_def)
  then show thesis
    using that t(1) by (simp add: delete_service_def)
qed

lemma put_node_durable:
  assumes "inj (x_uuid_string X)" and "nodes_durable X d m"
    and "to_allocvec (x_node X) n = Inr p" and "reads_back (x_node X) n"
  obtains d' where "put_node X None n d = (Inr (), d')"
    and "nodes_durable X d' (bt_insert (nr_node_id n) n m)"
    and "\<And>k. k \<noteq> NODES_TABLE \<Longrightarrow> d' k = d k"
proof -
  from assms(2) obtain t where t: "d NODES_TABLE = Some t"
      "table_mirrors (id_string X) (x_node X) nr_node_id t m"
    by (auto simp: nodes_durable_def)
  let ?d = "d(NODES_TABLE \<mapsto> bt_insert (id_string X (nr_node_id n)) p t)"
  have "put_node X None n d = (Inr (), ?d)"
    using t(1) assms(3) by (simp add: put_node_def encode_with_def)
  moreover have "nodes_durable X ?d (bt_insert (nr_node_id n) n m)"
    using mirror_insert [OF inj_id_string [OF assms(1)] t(2) assms(3,4)]
    by (simp add: nodes_durable_def)
  ultimately show thesis by (rule that) simp
qed

text \<open>the services table recovers the service map: after a successful put the record loads
  back under its id with every other service unchanged, and after a delete it is gone.\<close>

theorem services_survive_restart:
  assumes "inj (x_uuid_string X)" and "services_durable X d m"
    and "to_allocvec (x_service X) s = Inr p" and "reads_back (x_service X) s"
  shows "load_services X None d = Inr m \<and>
    load_services X None (snd (put_service X None s d)) = Inr (bt_insert (sd_service_id s) s m) \<and>
    load_services X None (snd (delete_service X None i d)) = Inr (bt_remove i m)"
proof -
  obtain d1 where "put_service X None s d = (Inr (), d1)"
      "services_durable X d1 (bt_insert (sd_service_id s) s m)"
    using put_service_durable [OF assms] by blast
  moreover obtain d2 where "delete_service X None i d = (Inr (), d2)" "services_durable X d2 (bt_remove i m)"
    using delete_service_durable [OF assms(1,2)] by blast
  ultimately show ?thesis
    using services_durable_load assms(2) by simp
qed

section \<open>Metric retention\<close>

lemma bt_get_fold_remove: "bt_get (fold bt_remove ks t) k = (if k \<in> set ks then None else bt_get t k)"
  by (induction ks arbitrary: t) auto

lemma bt_wf_fold_remove [wf_intros]: "bt_wf t \<Longrightarrow> bt_wf (fold bt_remove ks t)"
  by (induction ks arbitrary: t) auto

lemma set_expired_keys: "set (expired_keys X cutoff None t) = {k. \<exists>v. (k, v) \<in> set t \<and> metric_expired X cutoff v}"
  by (induction t) auto

lemma metric_cutoff_le: "i64_min \<le> me_recorded_at m \<Longrightarrow> metric_cutoff m \<le> me_recorded_at m"
  by (simp add: metric_cutoff_def saturating_sub_i64_def METRIC_RETENTION_MS_def)

lemma put_metric_table:
  assumes "to_allocvec (x_metric X) me = Inr p" and "from_bytes (x_metric X) p = Inr me"
    and "bt_wf (table_for_write d METRICS_TABLE)" and "i64_min \<le> me_recorded_at me"
  shows "bt_get (table_for_write (snd (put_metric X None me d)) METRICS_TABLE) k =
    (if k = metric_key X me then Some p
     else case bt_get (table_for_write d METRICS_TABLE) k of
       None \<Rightarrow> None
     | Some v \<Rightarrow> if metric_expired X (metric_cutoff me) v then None else Some v)"
proof -
  let ?t = "bt_insert (metric_key X me) p (table_for_write d METRICS_TABLE)"
  have fresh: "\<not> metric_expired X (metric_cutoff me) p"
    using assms(2) metric_cutoff_le [OF assms(4)] by (simp add: metric_expired_def)
  have "k \<in> set (expired_keys X (metric_cutoff me) None ?t) \<longleftrightarrow>
      (\<exists>v. bt_get ?t k = Some v \<and> metric_expired X (metric_cutoff me) v)"
    using assms(3) by (simp add: set_expired_keys bt_get_mem [symmetric])
  with fresh show ?thesis
    using assms(1)
    by (auto simp: put_metric_def encode_with_def Let_def bad_item_def table_for_write_def
        bt_get_fold_remove split: option.splits)
qed

text \<open>C30: storing a metric keeps it, drops exactly the readable rows more than three days older
  than it (of every node), and touches nothing else.\<close>

theorem metric_retention:
  assumes "to_allocvec (x_metric X) me = Inr p" and "from_bytes (x_metric X) p = Inr me"
    and "bt_wf (table_for_write d METRICS_TABLE)"
    and "i64_min + 259200000 \<le> me_recorded_at me" and "me_recorded_at me \<le> i64_max"
  shows "fst (put_metric X None me d) = Inr () \<and>
    bt_get (table_for_write (snd (put_metric X None me d)) METRICS_TABLE) (metric_key X me) = Some p \<and>
    (\<forall>k v. k \<noteq> metric_key X me \<longrightarrow>
       (bt_get (table_for_write (snd (put_metric X None me d)) METRICS_TABLE) k = Some v \<longleftrightarrow>
        bt_get (table_for_write d METRICS_TABLE) k = Some v \<and>
        (\<forall>old. from_bytes (x_metric X) v = Inr old \<longrightarrow>
           me_recorded_at me - 3 * 24 * 3600 * 1000 \<le> me_recorded_at old)))"
proof -
  have cutoff: "metric_cutoff me = me_recorded_at me - 3 * 24 * 3600 * 1000"
    using assms(4,5) by (simp add: metric_cutoff_def saturating_sub_i64_def METRIC_RETENTION_MS_def)
  have "i64_min \<le> me_recorded_at me" using assms(4) by simp
  note table = put_metric_table [OF assms(1-3) this]
  have "fst (put_metric X None me d) = Inr ()"
    using assms(1) by (simp add: put_metric_def encode_with_def Let_def)
  then show ?thesis
    unfolding table cutoff [symmetric]
    by (auto simp: metric_expired_def split: option.splits sum.splits)
qed

section \<open>Recent events\<close>

text \<open>the events endpoint's query returns the newest events first, at most the limit of
  them, and no event it leaves out is newer than one it returns.\<close>

theorem recent_events_newest:
  assumes "d EVENTS_TABLE = Some t"
    and "read_items (\<lambda>_. True) (decode_with (x_event X) ''failed to decode control event'')
      ''failed to read control event'' None t = Inr stored"
  shows "\<exists>events left_out. recent_events X None limit d = Inr events \<and>
    mset events + mset left_out = mset stored \<and> length events = min limit (length stored) \<and>
    sorted_wrt (\<lambda>a b. ev_occurred_at b \<le> ev_occurred_at a) events \<and>
    (\<forall>a \<in> set events. \<forall>b \<in> set left_out. ev_occurred_at b \<le> ev_occurred_at a)"
proof -
  let ?sorted = "sort_key (\<lambda>event. - ev_occurred_at event) stored"
  have "recent_events X None limit d = Inr (take limit ?sorted)"
    using assms by (simp add: recent_events_def read_table_def bad_item_def)
  moreover have "mset (take limit ?sorted) + mset (drop limit ?sorted) = mset stored"
    by (metis append_take_drop_id mset_append mset_sort)
  moreover have "sorted_wrt (\<lambda>a b. ev_occurred_at b \<le> ev_occurred_at a) (take limit ?sorted @ drop limit ?sorted)"
    using sorted_sort_key [of "\<lambda>event. - ev_occurred_at event" stored]
    by (simp add: sorted_wrt_map)
  ultimately show ?thesis
    unfolding sorted_wrt_append
    by (intro exI [of _ "take limit ?sorted"] exI [of _ "drop limit ?sorted"]) (auto simp: min_def)
qed

section \<open>Witnesses\<close>

definition unary_uuid :: "uuid \<Rightarrow> string" where
  "unary_uuid u = replicate (unat u) (CHR ''0'')"

lemma inj_unary_uuid [simp]: "inj unary_uuid"
  by (rule injI) (metis length_replicate unary_uuid_def word_unat_eq_iff)

definition sample_node :: NodeId where "sample_node = UuidId 1"

definition sample_service :: ServiceDefinition where
  "sample_service = \<lparr>sd_service_id = UuidId 2, sd_service_name = ''ssh'', sd_node_id = sample_node,
     sd_protocol = Tcp, sd_local_address = ''127.0.0.1:22'', sd_public_host = Some ''relay'',
     sd_public_port = Some 20000, sd_metadata = []\<rparr>"

definition sample_snapshot :: HeartbeatSnapshot where
  "sample_snapshot = \<lparr>hs_sequence = 1, hs_sent_at = 0, hs_cpu_percent = None, hs_memory_percent = None,
     hs_load_average = None, hs_network_rx_bytes = None, hs_network_tx_bytes = None\<rparr>"

definition sample_metric :: "int \<Rightarrow> NodeMetric" where
  "sample_metric t = \<lparr>me_node_id = sample_node, me_recorded_at = t, me_rtt_ms = None, me_snapshot = sample_snapshot\<rparr>"

definition sample_event :: "uuid \<Rightarrow> int \<Rightarrow> ControlEvent" where
  "sample_event u t = \<lparr>ev_event_id = UuidId u, ev_occurred_at = t, ev_kind = NodeOnline,
     ev_node_id = Some sample_node, ev_service_id = None, ev_token_kind = None\<rparr>"

definition sample_tokens :: TokenState where
  "sample_tokens = \<lparr>ts_admin_hash = Some [1], ts_user_hash = Some [2]\<rparr>"

definition sample_externals :: Externals where
  "sample_externals = \<lparr>x_uuid_string = unary_uuid, x_parse_uuid = (\<lambda>s. Some (word_of_nat (length s))),
     x_blake3 = id, x_frame = listed [], x_service = listed [sample_service], x_node = listed [],
     x_metric = listed [sample_metric 300000000, sample_metric 0],
     x_event = listed [sample_event 1 10, sample_event 2 30, sample_event 3 20],
     x_tokens = listed [sample_tokens]\<rparr>"

definition empty_database :: Database where
  "empty_database = (\<lambda>name. if name \<in> set table_names then Some [] else None)"

lemma empty_database_durable: "services_durable X empty_database []"
  by (simp add: services_durable_def empty_database_def table_names_def table_mirrors_def table_defs)

theorem services_survive_restart_witness:
  "load_services sample_externals None (snd (put_service sample_externals None sample_service empty_database)) =
     Inr [(sd_service_id sample_service, sample_service)]"
  using services_survive_restart [of sample_externals empty_database "[]" sample_service "[1]"]
  by (simp add: sample_externals_def empty_database_durable) (simp add: listed_def)

theorem metric_retention_witness:
  "bt_get (table_for_write (snd (put_metric sample_externals None (sample_metric 300000000)
     (empty_database(METRICS_TABLE \<mapsto> [(''old'', [1, 1])])))) METRICS_TABLE) ''old'' = None"
proof -
  let ?X = sample_externals and ?me = "sample_metric 300000000"
  let ?d = "empty_database(METRICS_TABLE \<mapsto> [(''old'', [1, 1])])"
  have codec: "to_allocvec (x_metric ?X) ?me = Inr [1]" "from_bytes (x_metric ?X) [1] = Inr ?me"
      "from_bytes (x_metric ?X) [1, 1] = Inr (sample_metric 0)"
    by (simp_all add: sample_externals_def listed_def sample_metric_def)
  have key: "''old'' \<noteq> metric_key ?X ?me"
    by (simp add: metric_key_def id_string_def sample_externals_def sample_metric_def sample_node_def
        unary_uuid_def)
  have "fst (put_metric ?X None ?me ?d) = Inr () \<and>
    bt_get (table_for_write (snd (put_metric ?X None ?me ?d)) METRICS_TABLE) (metric_key ?X ?me) = Some [1] \<and>
    (\<forall>k v. k \<noteq> metric_key ?X ?me \<longrightarrow>
       (bt_get (table_for_write (snd (put_metric ?X None ?me ?d)) METRICS_TABLE) k = Some v \<longleftrightarrow>
        bt_get (table_for_write ?d METRICS_TABLE) k = Some v \<and>
        (\<forall>old. from_bytes (x_metric ?X) v = Inr old \<longrightarrow>
           me_recorded_at ?me - 3 * 24 * 3600 * 1000 \<le> me_recorded_at old)))"
    by (rule metric_retention [OF codec(1,2)])
       (simp_all add: table_for_write_def bt_wf_def sample_metric_def i64_min_def i64_max_def)
  then show ?thesis
    using key codec(3)
    by (cases "bt_get (table_for_write (snd (put_metric ?X None ?me ?d)) METRICS_TABLE) ''old''")
       (auto simp: bt_get_def sample_metric_def)
qed

theorem recent_events_newest_witness:
  "\<exists>events left_out. recent_events sample_externals None 2
      (empty_database(EVENTS_TABLE \<mapsto> [(''a'', [1]), (''b'', [1, 1]), (''c'', [1, 1, 1])])) = Inr events \<and>
    length events = 2 \<and> mset events + mset left_out = {#sample_event 1 10, sample_event 2 30, sample_event 3 20#}"
  using recent_events_newest [of "empty_database(EVENTS_TABLE \<mapsto> [(''a'', [1]), (''b'', [1, 1]), (''c'', [1, 1, 1])])"
      "[(''a'', [1]), (''b'', [1, 1]), (''c'', [1, 1, 1])]" sample_externals
      "[sample_event 1 10, sample_event 2 30, sample_event 3 20]" 2]
  by (auto simp: sample_externals_def listed_def decode_with_def)

end
