(* ===== verification/State.thy ===== *)
theory State
  imports Store
begin

text \<open>
  The server's shared state, \<open>crates/ongrok-relay-server/src/state.rs\<close>, and the TCP port
  leases and ingress listeners of \<open>relay.rs\<close>. Each mutex-protected map is a field of one
  record; an operation takes the state and returns it updated. What an operation does to the
  outside (closing a connection, starting or aborting a listener task) is appended to
  \<open>st_effects\<close>.
\<close>

section \<open>Sessions, listener tasks, effects\<close>

text \<open>A handle of a client connection: \<open>quinn::Connection\<close> or \<open>YamuxSession\<close>.\<close>

datatype ClientSession = QuicConnection nat | YamuxConnection nat

record ActiveSession =
  as_id :: TunnelId
  as_token_kind :: TokenKind
  as_connection :: ClientSession

text \<open>
  A \<open>JoinHandle\<close> of \<open>tcp_ingress_tasks\<close>: the task's accept loop owns the listener bound to
  \<open>it_port\<close> and forwards to \<open>it_service\<close>.
\<close>

record IngressTask =
  it_service :: ServiceId
  it_port :: u16

datatype Effect =
    CloseConnection ClientSession
  | SpawnIngress IngressTask
  | AbortIngress IngressTask

record AppState =
  st_tokens :: TokenState
  st_tokens_poisoned :: bool
  st_services :: "(ServiceId, ServiceDefinition) btree"
  st_nodes :: "(NodeId, NodeRecord) btree"
  st_sessions :: "(NodeId, ActiveSession) btree"
  st_tcp_ingress_tasks :: "(ServiceId, IngressTask) btree"
  st_public_host :: string
  st_http_domain :: "string option"
  st_tcp_port_start :: u16
  st_tcp_port_end :: u16
  st_store :: Database
  st_effects :: "Effect list"

definition emit :: "Effect list \<Rightarrow> AppState \<Rightarrow> AppState" where
  "emit fx st = st\<lparr>st_effects := st_effects st @ fx\<rparr>"

section \<open>The environment of one call\<close>

text \<open>
  What one call of a handler gets from outside: clock readings, fresh UUIDs, where each of its
  database calls fails if it does, whether the operating system lets it bind a port. The
  numbers count the calls of one kind inside the handler.
\<close>

datatype DbCall =
    CallPutTokens
  | CallPutService
  | CallDeleteService
  | CallPutNode nat
  | CallPutMetric
  | CallPutEvent nat
  | CallRecentEvents
  | CallMetricsForNode

record Env =
  e_clock :: "nat \<Rightarrow> nat option"
  e_event_clock :: "nat \<Rightarrow> nat option"
  e_event_id :: "nat \<Rightarrow> uuid"
  e_fresh_id :: uuid
  e_db :: "DbCall \<Rightarrow> db_fault option"
  e_bind :: "u16 \<Rightarrow> bool"

section \<open>Session ownership and node identity\<close>

definition close_session :: "ClientSession \<Rightarrow> Effect" where
  "close_session c = CloseConnection c"

definition activate_session ::
  "NodeId \<Rightarrow> TunnelId \<Rightarrow> TokenKind \<Rightarrow> ClientSession \<Rightarrow> AppState \<Rightarrow> AppState" where
  "activate_session node_id session_id token_kind connection st =
     (let replaced = bt_get (st_sessions st) node_id;
          st = st\<lparr>st_sessions := bt_insert node_id
            \<lparr>as_id = session_id, as_token_kind = token_kind, as_connection = connection\<rparr> (st_sessions st)\<rparr>
      in case replaced of
           None \<Rightarrow> st
         | Some previous \<Rightarrow> emit [close_session (as_connection previous)] st)"

definition validate_node_identity :: "NodeId \<Rightarrow> bytes \<Rightarrow> AppState \<Rightarrow> string + unit" where
  "validate_node_identity node_id public_key st =
     (case bt_get (st_nodes st) node_id of
        None \<Rightarrow> Inr ()
      | Some existing \<Rightarrow>
          (case nr_public_key existing of
             None \<Rightarrow> Inr ()
           | Some existing_key \<Rightarrow>
               if existing_key \<noteq> public_key then Inl ''node public key does not match persisted identity''
               else Inr ()))"

section \<open>Authentication\<close>

text \<open>\<open>read().ok()?\<close>: a poisoned lock authenticates nobody.\<close>

definition authenticate_token :: "Externals \<Rightarrow> string \<Rightarrow> AppState \<Rightarrow> TokenKind option" where
  "authenticate_token X token st =
     (if st_tokens_poisoned st then None
      else token_authenticate (st_tokens st) (hash_token (x_blake3 X) token))"

text \<open>The \<open>Authorization\<close> header as a string, \<open>None\<close> when absent or not visible ASCII.\<close>

definition authenticate :: "Externals \<Rightarrow> string option \<Rightarrow> AppState \<Rightarrow> TokenKind option" where
  "authenticate X header st =
     (case header of
        None \<Rightarrow> None
      | Some raw \<Rightarrow>
          (case strip_prefix raw ''Bearer '' of
             None \<Rightarrow> None
           | Some token \<Rightarrow> authenticate_token X token st))"

section \<open>Port leases and listeners\<close>

definition port_range :: "u16 \<Rightarrow> u16 \<Rightarrow> u16 list" where
  "port_range lo hi = map word_of_nat [unat lo..<Suc (unat hi)]"

definition leases_port :: "u16 \<Rightarrow> ServiceDefinition \<Rightarrow> bool" where
  "leases_port port service \<longleftrightarrow> sd_protocol service = Tcp \<and> sd_public_port service = Some port"

definition first_available_tcp_port :: "(ServiceId, ServiceDefinition) btree \<Rightarrow> AppState \<Rightarrow> u16 option" where
  "first_available_tcp_port services st =
     find (\<lambda>port. \<not> list_ex (leases_port port) (bt_values services))
       (port_range (st_tcp_port_start st) (st_tcp_port_end st))"

definition ingress_address :: "u16 \<Rightarrow> string" where
  "ingress_address port = ''0.0.0.0:'' @ dec_string (unat port)"

definition ensure_tcp_ingress :: "Env \<Rightarrow> ServiceDefinition \<Rightarrow> AppState \<Rightarrow> (string + unit) \<times> AppState" where
  "ensure_tcp_ingress E service st =
     (case sd_public_port service of
        None \<Rightarrow> (Inl ''TCP service has no assigned public port'', st)
      | Some port \<Rightarrow>
          if bt_contains_key (st_tcp_ingress_tasks st) (sd_service_id service) then (Inr (), st)
          else if \<not> e_bind E port then (Inl (''failed to bind TCP ingress at '' @ ingress_address port), st)
          else
            let task = \<lparr>it_service = sd_service_id service, it_port = port\<rparr>;
                previous = bt_get (st_tcp_ingress_tasks st) (sd_service_id service);
                st = emit [SpawnIngress task]
                  (st\<lparr>st_tcp_ingress_tasks := bt_insert (sd_service_id service) task (st_tcp_ingress_tasks st)\<rparr>)
            in (Inr (), case previous of None \<Rightarrow> st | Some p \<Rightarrow> emit [AbortIngress p] st))"

section \<open>Lemmas\<close>

lemma emit_simps [simp]:
  "st_tokens (emit fx st) = st_tokens st"
  "st_tokens_poisoned (emit fx st) = st_tokens_poisoned st"
  "st_services (emit fx st) = st_services st"
  "st_nodes (emit fx st) = st_nodes st"
  "st_sessions (emit fx st) = st_sessions st"
  "st_tcp_ingress_tasks (emit fx st) = st_tcp_ingress_tasks st"
  "st_public_host (emit fx st) = st_public_host st"
  "st_http_domain (emit fx st) = st_http_domain st"
  "st_tcp_port_start (emit fx st) = st_tcp_port_start st"
  "st_tcp_port_end (emit fx st) = st_tcp_port_end st"
  "st_store (emit fx st) = st_store st"
  "st_effects (emit fx st) = st_effects st @ fx"
  by (simp_all add: emit_def)

lemma activate_session_simps [simp]:
  "st_tokens (activate_session n i k c st) = st_tokens st"
  "st_tokens_poisoned (activate_session n i k c st) = st_tokens_poisoned st"
  "st_services (activate_session n i k c st) = st_services st"
  "st_nodes (activate_session n i k c st) = st_nodes st"
  "st_sessions (activate_session n i k c st) =
     bt_insert n \<lparr>as_id = i, as_token_kind = k, as_connection = c\<rparr> (st_sessions st)"
  "st_tcp_ingress_tasks (activate_session n i k c st) = st_tcp_ingress_tasks st"
  "st_public_host (activate_session n i k c st) = st_public_host st"
  "st_http_domain (activate_session n i k c st) = st_http_domain st"
  "st_tcp_port_start (activate_session n i k c st) = st_tcp_port_start st"
  "st_tcp_port_end (activate_session n i k c st) = st_tcp_port_end st"
  "st_store (activate_session n i k c st) = st_store st"
  by (simp_all add: activate_session_def Let_def split: option.split)

lemma ensure_tcp_ingress_frame [simp]:
  "st_tokens (snd (ensure_tcp_ingress E s st)) = st_tokens st"
  "st_tokens_poisoned (snd (ensure_tcp_ingress E s st)) = st_tokens_poisoned st"
  "st_services (snd (ensure_tcp_ingress E s st)) = st_services st"
  "st_nodes (snd (ensure_tcp_ingress E s st)) = st_nodes st"
  "st_sessions (snd (ensure_tcp_ingress E s st)) = st_sessions st"
  "st_public_host (snd (ensure_tcp_ingress E s st)) = st_public_host st"
  "st_http_domain (snd (ensure_tcp_ingress E s st)) = st_http_domain st"
  "st_tcp_port_start (snd (ensure_tcp_ingress E s st)) = st_tcp_port_start st"
  "st_tcp_port_end (snd (ensure_tcp_ingress E s st)) = st_tcp_port_end st"
  "st_store (snd (ensure_tcp_ingress E s st)) = st_store st"
  by (simp_all add: ensure_tcp_ingress_def Let_def split: option.split)

lemma ensure_tcp_ingress_tasks:
  "bt_get (st_tcp_ingress_tasks (snd (ensure_tcp_ingress E s st))) i =
     (if i = sd_service_id s \<and> bt_get (st_tcp_ingress_tasks st) i = None \<and> is_ok (fst (ensure_tcp_ingress E s st))
      then Some \<lparr>it_service = i, it_port = the (sd_public_port s)\<rparr>
      else bt_get (st_tcp_ingress_tasks st) i)"
  by (auto simp: ensure_tcp_ingress_def Let_def bt_contains_key_def split: option.splits)

lemma ensure_tcp_ingress_wf [wf_intros]:
  "bt_wf (st_tcp_ingress_tasks st) \<Longrightarrow> bt_wf (st_tcp_ingress_tasks (snd (ensure_tcp_ingress E s st)))"
  by (simp add: ensure_tcp_ingress_def Let_def split: option.split)

lemma set_port_range: "p \<in> set (port_range lo hi) \<longleftrightarrow> lo \<le> p \<and> p \<le> hi"
proof
  assume "p \<in> set (port_range lo hi)"
  then obtain n where "unat lo \<le> n" "n \<le> unat hi" "p = word_of_nat n"
    by (auto simp: port_range_def)
  moreover from this have "n < 2 ^ 16"
    using unsigned_less [of hi, where ?'a = nat] by simp
  ultimately show "lo \<le> p \<and> p \<le> hi"
    by (simp add: word_le_nat_alt unat_of_nat)
next
  assume "lo \<le> p \<and> p \<le> hi"
  then have "unat lo \<le> unat p" "unat p \<le> unat hi" by (simp_all add: word_le_nat_alt)
  then show "p \<in> set (port_range lo hi)"
    unfolding port_range_def set_map by (intro image_eqI [of _ _ "unat p"]) auto
qed

lemma sorted_port_range: "sorted_wrt (<) (port_range lo hi)"
proof -
  have "word_of_nat i < (word_of_nat j :: u16)" if "i < j" "j \<le> unat hi" for i j
    using that unsigned_less [of hi, where ?'a = nat] by (simp add: word_less_nat_alt unat_of_nat)
  then show ?thesis
    unfolding port_range_def sorted_wrt_map
    by (intro sorted_wrt_mono_rel [OF _ sorted_wrt_upt]) (auto simp del: upt_Suc)
qed

lemma find_sorted_least:
  assumes "sorted_wrt (<) (xs :: 'a::linorder list)" and "find P xs = Some x"
  shows "P x \<and> x \<in> set xs \<and> (\<forall>y \<in> set xs. P y \<longrightarrow> x \<le> y)"
  using assms by (induction xs) (auto split: if_splits dest: less_imp_le)

lemma first_available_tcp_port_None:
  "first_available_tcp_port services st = None \<longleftrightarrow>
     (\<forall>p. st_tcp_port_start st \<le> p \<and> p \<le> st_tcp_port_end st \<longrightarrow> list_ex (leases_port p) (bt_values services))"
  by (auto simp: first_available_tcp_port_def find_None_iff set_port_range)

lemma first_available_tcp_port_Some:
  assumes "first_available_tcp_port services st = Some p"
  shows "st_tcp_port_start st \<le> p \<and> p \<le> st_tcp_port_end st \<and> \<not> list_ex (leases_port p) (bt_values services)"
  using find_sorted_least [OF sorted_port_range assms [unfolded first_available_tcp_port_def]]
  by (auto simp: set_port_range)

text \<open>automatic port assignment returns the lowest port of the configured range no TCP
  service leases, and fails only when every port of the range is leased.\<close>

theorem first_available_tcp_port_least:
  "(first_available_tcp_port services st = Some p) =
     (st_tcp_port_start st \<le> p \<and> p \<le> st_tcp_port_end st \<and> \<not> list_ex (leases_port p) (bt_values services) \<and>
      \<not> (\<exists>q. st_tcp_port_start st \<le> q \<and> q < p \<and> \<not> list_ex (leases_port q) (bt_values services)))"
  (is "?lhs = ?rhs")
proof
  assume ?lhs
  from find_sorted_least [OF sorted_port_range this [unfolded first_available_tcp_port_def]]
  show ?rhs by (auto simp: set_port_range)
next
  assume rhs: ?rhs
  then have "first_available_tcp_port services st \<noteq> None"
    unfolding first_available_tcp_port_None by blast
  then obtain q where q: "first_available_tcp_port services st = Some q" by blast
  from find_sorted_least [OF sorted_port_range q [unfolded first_available_tcp_port_def]] rhs
  have "q = p" by (metis antisym_conv1 first_available_tcp_port_Some not_le q set_port_range)
  with q show ?lhs by simp
qed

text \<open>A node id whose key is on record can be registered only with that key; ids that are new
  or were stored before keys existed accept any key.\<close>

lemma validate_node_identity_spec:
  "(validate_node_identity n key st = Inr ()) =
     (\<not> (\<exists>r k. bt_get (st_nodes st) n = Some r \<and> nr_public_key r = Some k \<and> k \<noteq> key))"
  by (auto simp: validate_node_identity_def split: option.splits)

end
