(* ===== verification/Registry.thy ===== *)
theory Registry
  imports State
begin

text \<open>
  The control-plane operations of \<open>crates/ongrok-relay-server/src/server.rs\<close> that the
  transports and the API share: event recording, service registration and removal,
  heartbeats, token replacement. Errors are the messages the code's \<open>anyhow\<close> errors print.
\<close>

section \<open>Events\<close>

text \<open>\<open>k\<close>: this is the k-th event of the handler call. A failed write is only logged.\<close>

definition record_event ::
  "Externals \<Rightarrow> Env \<Rightarrow> nat \<Rightarrow> EventKind \<Rightarrow> NodeId option \<Rightarrow> ServiceId option \<Rightarrow> TokenKind option \<Rightarrow>
     AppState \<Rightarrow> AppState" where
  "record_event X E k kind node_id service_id token_kind st =
     (let event = \<lparr>ev_event_id = UuidId (e_event_id E k),
            ev_occurred_at = now_unix_ms (e_event_clock E k), ev_kind = kind,
            ev_node_id = node_id, ev_service_id = service_id, ev_token_kind = token_kind\<rparr>
      in st\<lparr>st_store := snd (put_event X (e_db E (CallPutEvent k)) event (st_store st))\<rparr>)"

section \<open>Service registration\<close>

text \<open>
  The part of \<open>register_service\<close> under the services lock: validation, the name check, the
  reuse of an earlier registration, the port or host assignment.
\<close>

definition adopt_previous :: "ServiceDefinition option \<Rightarrow> ServiceDefinition \<Rightarrow> ServiceDefinition" where
  "adopt_previous previous service =
     (case previous of
        None \<Rightarrow> service
      | Some p \<Rightarrow>
          let service = service\<lparr>sd_service_id := sd_service_id p\<rparr> in
          if sd_protocol p = Tcp \<and> sd_protocol service = Tcp
          then service\<lparr>sd_public_port := sd_public_port p\<rparr> else service)"

definition assign_tcp :: "AppState \<Rightarrow> ServiceDefinition \<Rightarrow> string + ServiceDefinition" where
  "assign_tcp st service =
     result_bind
       (case sd_public_port service of
          Some port \<Rightarrow> Inr port
        | None \<Rightarrow> ok_or ''no TCP relay ports are available'' (first_available_tcp_port (st_services st) st))
       (\<lambda>port.
         if port < st_tcp_port_start st \<or> port > st_tcp_port_end st
         then Inl (''TCP port '' @ dec_string (unat port) @ '' is outside the configured relay range'')
         else if list_ex (\<lambda>existing. sd_service_id existing \<noteq> sd_service_id service \<and>
                sd_protocol existing = Tcp \<and> sd_public_port existing = Some port) (bt_values (st_services st))
         then Inl (''TCP port '' @ dec_string (unat port) @ '' is already leased'')
         else Inr (service\<lparr>sd_public_port := Some port, sd_public_host := Some (st_public_host st)\<rparr>))"

definition assign_http :: "AppState \<Rightarrow> ServiceDefinition \<Rightarrow> string + ServiceDefinition" where
  "assign_http st service =
     (case st_http_domain st of
        None \<Rightarrow> Inl ''HTTP/HTTPS ingress is not configured on this relay''
      | Some domain \<Rightarrow>
          Inr (service\<lparr>sd_public_host := Some (sd_service_name service @ ''.'' @ domain),
                      sd_public_port := None\<rparr>))"

definition register_plan :: "AppState \<Rightarrow> ServiceDefinition \<Rightarrow> NodeId \<Rightarrow> string + ServiceDefinition" where
  "register_plan st service node_id =
     result_bind (map_error validation_message (validate_service_name (sd_service_name service))) (\<lambda>_.
     result_bind (map_error validation_message (metadata_validate (sd_metadata service))) (\<lambda>_.
       if list_ex (\<lambda>existing. sd_service_name existing = sd_service_name service \<and>
            sd_node_id existing \<noteq> node_id) (bt_values (st_services st))
       then Inl ''service name is already in use''
       else
         let previous = find (\<lambda>existing. sd_node_id existing = node_id \<and>
               sd_service_name existing = sd_service_name service) (bt_values (st_services st));
             service = adopt_previous previous service
         in case sd_protocol service of
              Tcp \<Rightarrow> assign_tcp st service
            | Http \<Rightarrow> assign_http st service
            | Https \<Rightarrow> assign_http st service))"

text \<open>
  The whole operation: the planned service goes into the map, the lock is released, the record
  is stored, a TCP service gets its listener. Only a listener failure is rolled back.
\<close>

definition register_service ::
  "Externals \<Rightarrow> Env \<Rightarrow> ServiceDefinition \<Rightarrow> NodeId \<Rightarrow> AppState \<Rightarrow> (string + ServiceDefinition) \<times> AppState" where
  "register_service X E service node_id st =
     (case register_plan st service node_id of
        Inl e \<Rightarrow> (Inl e, st)
      | Inr service \<Rightarrow>
          let service_id = sd_service_id service;
              st = st\<lparr>st_services := bt_insert service_id service (st_services st)\<rparr>
          in case put_service X (e_db E CallPutService) service (st_store st) of
               (Inl e, d) \<Rightarrow> (Inl e, st\<lparr>st_store := d\<rparr>)
             | (Inr _, d) \<Rightarrow>
                 (case (if sd_protocol service = Tcp then ensure_tcp_ingress E service (st\<lparr>st_store := d\<rparr>)
                        else (Inr (), st\<lparr>st_store := d\<rparr>)) of
                    (Inl _, st) \<Rightarrow>
                      (let st = st\<lparr>st_services := bt_remove service_id (st_services st)\<rparr> in
                       case delete_service X (e_db E CallDeleteService) service_id (st_store st) of
                         (Inl e, d) \<Rightarrow> (Inl e, st\<lparr>st_store := d\<rparr>)
                       | (Inr _, d) \<Rightarrow> (Inl ''failed to activate TCP relay port'', st\<lparr>st_store := d\<rparr>))
                  | (Inr _, st) \<Rightarrow>
                      (Inr service,
                       record_event X E 0 ServiceRegistered (Some node_id) (Some service_id) None st)))"

text \<open>Removal by the owning node; anyone else's request is ignored.\<close>

definition unregister_service ::
  "Externals \<Rightarrow> Env \<Rightarrow> ServiceId \<Rightarrow> NodeId \<Rightarrow> AppState \<Rightarrow> (string + unit) \<times> AppState" where
  "unregister_service X E service_id node_id st =
     (case bt_get (st_services st) service_id of
        None \<Rightarrow> (Inr (), st)
      | Some service \<Rightarrow>
          if sd_node_id service \<noteq> node_id then (Inr (), st)
          else
            let st = st\<lparr>st_services := bt_remove service_id (st_services st)\<rparr> in
            case delete_service X (e_db E CallDeleteService) service_id (st_store st) of
              (Inl e, d) \<Rightarrow> (Inl e, st\<lparr>st_store := d\<rparr>)
            | (Inr _, d) \<Rightarrow>
                let st = record_event X E 0 ServiceDeleted (Some node_id) (Some service_id) None
                           (st\<lparr>st_store := d\<rparr>)
                in case bt_get (st_tcp_ingress_tasks st) service_id of
                     None \<Rightarrow> (Inr (), st)
                   | Some task \<Rightarrow>
                       (Inr (), emit [AbortIngress task]
                          (st\<lparr>st_tcp_ingress_tasks := bt_remove service_id (st_tcp_ingress_tasks st)\<rparr>)))"

section \<open>Heartbeats\<close>

definition heartbeat_rtt :: "int \<Rightarrow> HeartbeatSnapshot \<Rightarrow> u32" where
  "heartbeat_rtt recorded_at snapshot =
     as_u32 (clamp_i64 0 3600000 (saturating_sub_i64 recorded_at (hs_sent_at snapshot)))"

definition record_heartbeat ::
  "Externals \<Rightarrow> Env \<Rightarrow> NodeId \<Rightarrow> HeartbeatSnapshot \<Rightarrow> AppState \<Rightarrow> (string + unit) \<times> AppState" where
  "record_heartbeat X E node_id snapshot st =
     (let recorded_at = now_unix_ms (e_clock E 0);
          rtt_ms = heartbeat_rtt recorded_at snapshot
      in case bt_get (st_nodes st) node_id of
           None \<Rightarrow> (Inr (), st)
         | Some node \<Rightarrow>
             let node = node\<lparr>nr_status := NodeIsOnline, nr_last_heartbeat_at := Some recorded_at,
                   nr_rtt_ms := Some rtt_ms\<rparr>;
                 st = st\<lparr>st_nodes := bt_insert node_id node (st_nodes st)\<rparr>
             in case put_node X (e_db E (CallPutNode 0)) node (st_store st) of
                  (Inl e, d) \<Rightarrow> (Inl e, st\<lparr>st_store := d\<rparr>)
                | (Inr _, d) \<Rightarrow>
                    (case put_metric X (e_db E CallPutMetric)
                        \<lparr>me_node_id = node_id, me_recorded_at = recorded_at, me_rtt_ms = Some rtt_ms,
                         me_snapshot = snapshot\<rparr> d of
                       (r, d) \<Rightarrow> (r, st\<lparr>st_store := d\<rparr>)))"

section \<open>Token replacement\<close>

definition set_offline :: "NodeRecord \<Rightarrow> NodeRecord" where
  "set_offline node = node\<lparr>nr_status := NodeIsOffline\<rparr>"

text \<open>The sessions of one token kind, in node order.\<close>

definition sessions_of_kind :: "TokenKind \<Rightarrow> AppState \<Rightarrow> (NodeId \<times> ActiveSession) list" where
  "sessions_of_kind kind st = filter (\<lambda>p. as_token_kind (snd p) = kind) (st_sessions st)"

definition mark_nodes_offline :: "NodeId list \<Rightarrow> (NodeId, NodeRecord) btree \<Rightarrow> (NodeId, NodeRecord) btree" where
  "mark_nodes_offline node_ids nodes = fold (\<lambda>n. bt_adjust n set_offline) node_ids nodes"

fun persist_offline :: "Externals \<Rightarrow> Env \<Rightarrow> nat \<Rightarrow> NodeRecord list \<Rightarrow> AppState \<Rightarrow> (string + unit) \<times> AppState" where
  "persist_offline X E k [] st = (Inr (), st)"
| "persist_offline X E k (node # offline) st =
     (case put_node X (e_db E (CallPutNode k)) node (st_store st) of
        (Inl e, d) \<Rightarrow> (Inl e, st\<lparr>st_store := d\<rparr>)
      | (Inr _, d) \<Rightarrow>
          persist_offline X E (Suc k) offline
            (record_event X E k NodeOffline (Some (nr_node_id node)) None None (st\<lparr>st_store := d\<rparr>)))"

definition replace_token ::
  "Externals \<Rightarrow> Env \<Rightarrow> TokenKind \<Rightarrow> bytes option \<Rightarrow> AppState \<Rightarrow> (string + unit) \<times> AppState" where
  "replace_token X E kind hash st =
     (if st_tokens_poisoned st then (Inl ''token state lock is poisoned'', st)
      else
        let updated = token_set (st_tokens st) kind hash in
        case put_tokens X (e_db E CallPutTokens) updated (st_store st) of
          (Inl e, d) \<Rightarrow> (Inl e, st\<lparr>st_store := d\<rparr>)
        | (Inr _, d) \<Rightarrow>
            let st = st\<lparr>st_tokens := updated, st_store := d\<rparr>;
                disconnected = sessions_of_kind kind st;
                node_ids = map fst disconnected;
                st = st\<lparr>st_sessions := fold bt_remove node_ids (st_sessions st)\<rparr>;
                st = emit (map (\<lambda>p. close_session (as_connection (snd p))) disconnected) st;
                st = st\<lparr>st_nodes := mark_nodes_offline node_ids (st_nodes st)\<rparr>;
                offline = List.map_filter (bt_get (st_nodes st)) node_ids
            in persist_offline X E 1 offline st)"

section \<open>What the operations leave alone\<close>

lemma record_event_simps [simp]:
  "st_tokens (record_event X E k ek n s t st) = st_tokens st"
  "st_tokens_poisoned (record_event X E k ek n s t st) = st_tokens_poisoned st"
  "st_services (record_event X E k ek n s t st) = st_services st"
  "st_nodes (record_event X E k ek n s t st) = st_nodes st"
  "st_sessions (record_event X E k ek n s t st) = st_sessions st"
  "st_tcp_ingress_tasks (record_event X E k ek n s t st) = st_tcp_ingress_tasks st"
  "st_public_host (record_event X E k ek n s t st) = st_public_host st"
  "st_http_domain (record_event X E k ek n s t st) = st_http_domain st"
  "st_tcp_port_start (record_event X E k ek n s t st) = st_tcp_port_start st"
  "st_tcp_port_end (record_event X E k ek n s t st) = st_tcp_port_end st"
  "st_effects (record_event X E k ek n s t st) = st_effects st"
  by (simp_all add: record_event_def Let_def)

lemma record_event_tables [simp]:
  "n \<noteq> EVENTS_TABLE \<Longrightarrow> st_store (record_event X E k ek nd s t st) n = st_store st n"
  unfolding record_event_def Let_def by (simp add: atomic_other [OF store_atomic(6)])

lemma persist_offline_frame [simp]:
  "st_tokens (snd (persist_offline X E k ns st)) = st_tokens st"
  "st_tokens_poisoned (snd (persist_offline X E k ns st)) = st_tokens_poisoned st"
  "st_services (snd (persist_offline X E k ns st)) = st_services st"
  "st_nodes (snd (persist_offline X E k ns st)) = st_nodes st"
  "st_sessions (snd (persist_offline X E k ns st)) = st_sessions st"
  "st_tcp_ingress_tasks (snd (persist_offline X E k ns st)) = st_tcp_ingress_tasks st"
  "st_public_host (snd (persist_offline X E k ns st)) = st_public_host st"
  "st_http_domain (snd (persist_offline X E k ns st)) = st_http_domain st"
  "st_tcp_port_start (snd (persist_offline X E k ns st)) = st_tcp_port_start st"
  "st_tcp_port_end (snd (persist_offline X E k ns st)) = st_tcp_port_end st"
  "st_effects (snd (persist_offline X E k ns st)) = st_effects st"
  by (induction ns arbitrary: k st) (simp_all split: prod.split sum.split)

end
