(* ===== verification/Registry_Inv.thy ===== *)
theory Registry_Inv
  imports Registry
begin

text \<open>
  The service directory's invariant and what registration guarantees: unique names, exclusive
  port leases, the shape of public endpoints, ownership, and agreement of the directory
  with its durable copy.
\<close>

section \<open>The directory invariant\<close>

text \<open>
  Every service is stored under its own id, a name is used once in the whole directory, a TCP
  service has a port, and no two TCP services share one.
\<close>

definition directory_ok :: "(ServiceId, ServiceDefinition) btree \<Rightarrow> bool" where
  "directory_ok m \<longleftrightarrow>
     bt_wf m \<and>
     (\<forall>i s. bt_get m i = Some s \<longrightarrow> sd_service_id s = i) \<and>
     (\<forall>i j s t. bt_get m i = Some s \<longrightarrow> bt_get m j = Some t \<longrightarrow>
        sd_service_name s = sd_service_name t \<longrightarrow> i = j) \<and>
     (\<forall>i s. bt_get m i = Some s \<longrightarrow> sd_protocol s = Tcp \<longrightarrow> sd_public_port s \<noteq> None) \<and>
     (\<forall>i j s t p. bt_get m i = Some s \<longrightarrow> bt_get m j = Some t \<longrightarrow>
        leases_port p s \<longrightarrow> leases_port p t \<longrightarrow> i = j)"

text \<open>The endpoint a service gets from the configuration it was registered under.\<close>

definition endpoint_ok :: "AppState \<Rightarrow> ServiceDefinition \<Rightarrow> bool" where
  "endpoint_ok st s \<longleftrightarrow>
     (case sd_protocol s of
        Tcp \<Rightarrow> sd_public_host s = Some (st_public_host st) \<and>
          (\<exists>p. sd_public_port s = Some p \<and> st_tcp_port_start st \<le> p \<and> p \<le> st_tcp_port_end st)
      | _ \<Rightarrow> sd_public_port s = None \<and>
          (\<exists>domain. st_http_domain st = Some domain \<and>
             sd_public_host s = Some (sd_service_name s @ ''.'' @ domain)))"

definition maps_ok :: "AppState \<Rightarrow> bool" where
  "maps_ok st \<longleftrightarrow>
     bt_wf (st_nodes st) \<and> bt_wf (st_sessions st) \<and> bt_wf (st_tcp_ingress_tasks st) \<and>
     (\<forall>i n. bt_get (st_nodes st) i = Some n \<longrightarrow> nr_node_id n = i)"

definition registry_inv :: "AppState \<Rightarrow> bool" where
  "registry_inv st \<longleftrightarrow> directory_ok (st_services st) \<and> maps_ok st"

lemma directory_okD:
  assumes "directory_ok m"
  shows "bt_wf m"
    and "bt_get m i = Some s \<Longrightarrow> sd_service_id s = i"
    and "bt_get m i = Some s \<Longrightarrow> bt_get m j = Some t \<Longrightarrow> sd_service_name s = sd_service_name t \<Longrightarrow> i = j"
    and "bt_get m i = Some s \<Longrightarrow> sd_protocol s = Tcp \<Longrightarrow> sd_public_port s \<noteq> None"
    and "bt_get m i = Some s \<Longrightarrow> bt_get m j = Some t \<Longrightarrow> leases_port p s \<Longrightarrow> leases_port p t \<Longrightarrow> i = j"
  using assms unfolding directory_ok_def by blast+

lemma directory_ok_Nil [simp]: "directory_ok []"
  by (simp add: directory_ok_def)

lemma directory_okI:
  assumes "bt_wf m"
    and "\<And>i s. bt_get m i = Some s \<Longrightarrow> sd_service_id s = i"
    and "\<And>i j s t. bt_get m i = Some s \<Longrightarrow> bt_get m j = Some t \<Longrightarrow> sd_service_name s = sd_service_name t \<Longrightarrow> i = j"
    and "\<And>i s. bt_get m i = Some s \<Longrightarrow> sd_protocol s = Tcp \<Longrightarrow> sd_public_port s \<noteq> None"
    and "\<And>i j s t p. bt_get m i = Some s \<Longrightarrow> bt_get m j = Some t \<Longrightarrow> leases_port p s \<Longrightarrow> leases_port p t \<Longrightarrow> i = j"
  shows "directory_ok m"
  unfolding directory_ok_def using assms by (intro conjI allI impI)

lemma directory_ok_submap:
  assumes "directory_ok m" and "bt_wf m'" and "\<And>i s. bt_get m' i = Some s \<Longrightarrow> bt_get m i = Some s"
  shows "directory_ok m'"
proof (rule directory_okI)
  note sub = assms(3) and ok = directory_okD [OF assms(1)]
  show "sd_service_id s = i" if "bt_get m' i = Some s" for i s
    using sub [OF that] by (rule ok(2))
  show "i = j" if "bt_get m' i = Some s" "bt_get m' j = Some t" "sd_service_name s = sd_service_name t" for i j s t
    using sub [OF that(1)] sub [OF that(2)] that(3) by (rule ok(3))
  show "sd_public_port s \<noteq> None" if "bt_get m' i = Some s" "sd_protocol s = Tcp" for i s
    using sub [OF that(1)] that(2) by (rule ok(4))
  show "i = j" if "bt_get m' i = Some s" "bt_get m' j = Some t" "leases_port p s" "leases_port p t" for i j s t p
    using sub [OF that(1)] sub [OF that(2)] that(3,4) by (rule ok(5))
qed (rule assms(2))

lemma directory_ok_remove: "directory_ok m \<Longrightarrow> directory_ok (bt_remove i m)"
  by (rule directory_ok_submap) (auto simp: directory_okD(1) split: if_splits)

text \<open>What an inserted service must satisfy.\<close>

lemma directory_ok_insert:
  assumes ok: "directory_ok m"
    and name: "\<And>j t. bt_get m j = Some t \<Longrightarrow> sd_service_name t = sd_service_name s \<Longrightarrow> j = sd_service_id s"
    and port: "sd_protocol s = Tcp \<Longrightarrow> sd_public_port s \<noteq> None"
    and lease: "\<And>j t p. bt_get m j = Some t \<Longrightarrow> leases_port p s \<Longrightarrow> leases_port p t \<Longrightarrow> j = sd_service_id s"
  shows "directory_ok (bt_insert (sd_service_id s) s m)"
proof (rule directory_okI)
  let ?m = "bt_insert (sd_service_id s) s m"
  have entry: "(i = sd_service_id s \<and> r = s) \<or> bt_get m i = Some r" if "bt_get ?m i = Some r" for i r
    using that by (auto split: if_splits)
  show "bt_wf ?m" using directory_okD(1) [OF ok] by simp
  show "sd_service_id r = i" if "bt_get ?m i = Some r" for i r
    using entry [OF that] directory_okD(2) [OF ok] by blast
  show "i = j" if "bt_get ?m i = Some r" "bt_get ?m j = Some t" "sd_service_name r = sd_service_name t" for i j r t
    using entry [OF that(1)] entry [OF that(2)] that(3) name directory_okD(3) [OF ok] by metis
  show "sd_public_port r \<noteq> None" if "bt_get ?m i = Some r" "sd_protocol r = Tcp" for i r
    using entry [OF that(1)] that(2) port directory_okD(4) [OF ok] by metis
  show "i = j" if "bt_get ?m i = Some r" "bt_get ?m j = Some t" "leases_port p r" "leases_port p t" for i j r t p
    using entry [OF that(1)] entry [OF that(2)] that(3,4) lease directory_okD(5) [OF ok] by metis
qed

section \<open>The plan of a registration\<close>

lemma adopt_previous_simps [simp]:
  "sd_service_name (adopt_previous prev s) = sd_service_name s"
  "sd_node_id (adopt_previous prev s) = sd_node_id s"
  "sd_protocol (adopt_previous prev s) = sd_protocol s"
  "sd_local_address (adopt_previous prev s) = sd_local_address s"
  "sd_metadata (adopt_previous prev s) = sd_metadata s"
  "sd_service_id (adopt_previous prev s) = (case prev of None \<Rightarrow> sd_service_id s | Some p \<Rightarrow> sd_service_id p)"
  by (simp_all add: adopt_previous_def Let_def split: option.split)

lemma assign_tcp_Inr:
  assumes "assign_tcp st s = Inr r"
  obtains p where "r = s\<lparr>sd_public_port := Some p, sd_public_host := Some (st_public_host st)\<rparr>"
    and "st_tcp_port_start st \<le> p" and "p \<le> st_tcp_port_end st"
    and "\<And>e. e \<in> set (bt_values (st_services st)) \<Longrightarrow> leases_port p e \<Longrightarrow> sd_service_id e = sd_service_id s"
    and "sd_public_port s \<noteq> None \<Longrightarrow> sd_public_port s = Some p"
  using assms
  by (auto simp: assign_tcp_def result_bind_Inr_iff list_ex_iff leases_port_def not_less
      split: if_splits option.splits)

lemma assign_http_Inr:
  "assign_http st s = Inr r \<longleftrightarrow>
     (\<exists>domain. st_http_domain st = Some domain \<and>
        r = s\<lparr>sd_public_host := Some (sd_service_name s @ ''.'' @ domain), sd_public_port := None\<rparr>)"
  by (auto simp: assign_http_def split: option.splits)

definition previous_registration :: "AppState \<Rightarrow> ServiceDefinition \<Rightarrow> NodeId \<Rightarrow> ServiceDefinition option" where
  "previous_registration st service node_id =
     find (\<lambda>existing. sd_node_id existing = node_id \<and> sd_service_name existing = sd_service_name service)
       (bt_values (st_services st))"

lemma register_plan_Inr:
  assumes "register_plan st service node_id = Inr s"
  obtains "validate_service_name (sd_service_name service) = Inr ()"
    and "metadata_validate (sd_metadata service) = Inr ()"
    and "\<And>e. e \<in> set (bt_values (st_services st)) \<Longrightarrow> sd_service_name e = sd_service_name service \<Longrightarrow> sd_node_id e = node_id"
    and "(if sd_protocol service = Tcp
      then assign_tcp st (adopt_previous (previous_registration st service node_id) service)
      else assign_http st (adopt_previous (previous_registration st service node_id) service)) = Inr s"
  using assms
  by (auto simp: register_plan_def result_bind_Inr_iff map_error_Inr_iff list_ex_iff Let_def
      previous_registration_def split: if_splits Protocol.splits)

lemma register_plan_kept:
  assumes "register_plan st service node_id = Inr s"
  shows "sd_service_name s = sd_service_name service" "sd_node_id s = sd_node_id service"
    "sd_protocol s = sd_protocol service" "sd_local_address s = sd_local_address service"
    "sd_metadata s = sd_metadata service"
    "sd_service_id s = (case previous_registration st service node_id of
       None \<Rightarrow> sd_service_id service | Some p \<Rightarrow> sd_service_id p)"
  using assms
  by (auto elim!: register_plan_Inr assign_tcp_Inr simp: assign_http_Inr split: if_splits)

lemma register_plan_endpoint:
  assumes "register_plan st service node_id = Inr s"
  shows "endpoint_ok st s"
  using assms
proof (rule register_plan_Inr)
  let ?s = "adopt_previous (previous_registration st service node_id) service"
  assume eq: "(if sd_protocol service = Tcp then assign_tcp st ?s else assign_http st ?s) = Inr s"
  show ?thesis
  proof (cases "sd_protocol service")
    case Tcp
    with eq obtain p where "s = ?s\<lparr>sd_public_port := Some p, sd_public_host := Some (st_public_host st)\<rparr>"
        "st_tcp_port_start st \<le> p" "p \<le> st_tcp_port_end st"
      by (auto elim: assign_tcp_Inr)
    with Tcp show ?thesis by (simp add: endpoint_ok_def)
  qed (use eq in \<open>auto simp: assign_http_Inr endpoint_ok_def\<close>)
qed

lemma previous_registration_Some:
  "previous_registration st service node_id = Some p \<Longrightarrow>
     p \<in> set (bt_values (st_services st)) \<and> sd_node_id p = node_id \<and> sd_service_name p = sd_service_name service"
  by (auto simp: previous_registration_def find_Some_iff in_set_conv_nth)

lemma previous_registration_None:
  "previous_registration st service node_id = None \<longleftrightarrow>
     (\<forall>e \<in> set (bt_values (st_services st)). sd_service_name e = sd_service_name service \<longrightarrow> sd_node_id e \<noteq> node_id)"
  by (auto simp: previous_registration_def find_None_iff)

lemma register_plan_name:
  assumes "directory_ok (st_services st)" and "register_plan st service node_id = Inr s"
    and "bt_get (st_services st) j = Some t" and "sd_service_name t = sd_service_name s"
  shows "j = sd_service_id s"
proof -
  have t: "t \<in> set (bt_values (st_services st))"
    using assms(3) by (rule bt_get_in_values)
  have name: "sd_service_name t = sd_service_name service"
    using assms(4) register_plan_kept(1) [OF assms(2)] by simp
  with t have node: "sd_node_id t = node_id"
    using assms(2) by (auto elim: register_plan_Inr)
  with t name obtain p where p: "previous_registration st service node_id = Some p"
    by (metis not_None_eq previous_registration_None)
  from previous_registration_Some [OF this] obtain i where i: "bt_get (st_services st) i = Some p"
      "sd_service_name p = sd_service_name t"
    using directory_okD(1) [OF assms(1)] name by (auto simp: bt_values_iff)
  with assms(1,3) have "i = j" by (metis directory_okD(3))
  moreover have "sd_service_id p = i" using assms(1) i(1) by (metis directory_okD(2))
  ultimately show ?thesis
    using register_plan_kept(6) [OF assms(2)] p by simp
qed

lemma register_plan_lease:
  assumes "directory_ok (st_services st)" and "register_plan st service node_id = Inr s"
    and "bt_get (st_services st) j = Some t" and "leases_port p s" and "leases_port p t"
  shows "j = sd_service_id s"
proof -
  have t: "t \<in> set (bt_values (st_services st))" "sd_service_id t = j"
    using bt_get_in_values [OF assms(3)] directory_okD(2) [OF assms(1,3)] by simp_all
  let ?s = "adopt_previous (previous_registration st service node_id) service"
  have tcp: "sd_protocol service = Tcp" "sd_public_port s = Some p"
    using assms(4) register_plan_kept(3) [OF assms(2)] by (auto simp: leases_port_def)
  with assms(2) have "assign_tcp st ?s = Inr s" by (auto elim: register_plan_Inr)
  then show ?thesis
    by (rule assign_tcp_Inr) (use tcp t assms(5) in auto)
qed

lemma register_plan_directory:
  assumes "directory_ok (st_services st)" and "register_plan st service node_id = Inr s"
  shows "directory_ok (bt_insert (sd_service_id s) s (st_services st))"
proof (rule directory_ok_insert [OF assms(1)])
  show "sd_public_port s \<noteq> None" if "sd_protocol s = Tcp"
    using that register_plan_endpoint [OF assms(2)] by (auto simp: endpoint_ok_def)
qed (use assms register_plan_name register_plan_lease in blast)+

section \<open>Registration keeps the invariant\<close>

text \<open>The four ways a registration ends, with what each leaves in memory.\<close>

lemma register_service_cases:
  obtains (rejected) e where "register_plan st service node_id = Inl e"
      "register_service X E service node_id st = (Inl e, st)"
  | (unstored) s e d where "register_plan st service node_id = Inr s"
      "put_service X (e_db E CallPutService) s (st_store st) = (Inl e, d)"
      "register_service X E service node_id st =
         (Inl e, st\<lparr>st_services := bt_insert (sd_service_id s) s (st_services st), st_store := d\<rparr>)"
  | (unbound) s d e st' where "register_plan st service node_id = Inr s"
      "put_service X (e_db E CallPutService) s (st_store st) = (Inr (), d)" "sd_protocol s = Tcp"
      "ensure_tcp_ingress E s (st\<lparr>st_services := bt_insert (sd_service_id s) s (st_services st), st_store := d\<rparr>) = (Inl e, st')"
      "register_service X E service node_id st =
         (case delete_service X (e_db E CallDeleteService) (sd_service_id s) d of
            (Inl e', d') \<Rightarrow> (Inl e', st'\<lparr>st_services := bt_remove (sd_service_id s) (st_services st'), st_store := d'\<rparr>)
          | (Inr _, d') \<Rightarrow> (Inl ''failed to activate TCP relay port'',
              st'\<lparr>st_services := bt_remove (sd_service_id s) (st_services st'), st_store := d'\<rparr>))"
  | (registered) s d st' where "register_plan st service node_id = Inr s"
      "put_service X (e_db E CallPutService) s (st_store st) = (Inr (), d)"
      "(if sd_protocol s = Tcp
        then ensure_tcp_ingress E s (st\<lparr>st_services := bt_insert (sd_service_id s) s (st_services st), st_store := d\<rparr>)
        else (Inr (), st\<lparr>st_services := bt_insert (sd_service_id s) s (st_services st), st_store := d\<rparr>)) = (Inr (), st')"
      "register_service X E service node_id st =
         (Inr s, record_event X E 0 ServiceRegistered (Some node_id) (Some (sd_service_id s)) None st')"
proof (cases "register_plan st service node_id")
  case (Inl e)
  then show thesis by (intro rejected) (simp_all add: register_service_def)
next
  case (Inr s)
  let ?st = "st\<lparr>st_services := bt_insert (sd_service_id s) s (st_services st)\<rparr>"
  obtain r d where put: "put_service X (e_db E CallPutService) s (st_store st) = (r, d)" by fastforce
  show thesis
  proof (cases r)
    case (Inl e)
    with Inr put show thesis by (intro unstored) (simp_all add: register_service_def Let_def)
  next
    case (Inr u)
    let ?ens = "if sd_protocol s = Tcp then ensure_tcp_ingress E s (?st\<lparr>st_store := d\<rparr>) else (Inr (), ?st\<lparr>st_store := d\<rparr>)"
    obtain q st' where ens: "?ens = (q, st')" by fastforce
    show thesis
    proof (cases q)
      case (Inl e)
      then have tcp: "sd_protocol s = Tcp" using ens by (auto split: if_splits)
      with ens have "st_store st' = d"
        by (metis AppState.select_convs(11) AppState.surjective AppState.update_convs(11) ensure_tcp_ingress_frame(10) snd_conv)
      with \<open>register_plan _ _ _ = Inr s\<close> put ens Inr Inl tcp show thesis
        by (intro unbound) (simp_all add: register_service_def Let_def)
    next
      case (Inr u')
      with \<open>register_plan _ _ _ = Inr s\<close> put ens \<open>r = Inr u\<close> show thesis
        by (intro registered) (simp_all add: register_service_def Let_def)
    qed
  qed
qed

end
