(* ===== verification/Registry_Props.thy ===== *)
theory Registry_Props
  imports Registry_Inv
begin

text \<open>
  What registration, removal, heartbeats and token replacement guarantee, for every outcome
  of their database writes and port bindings.
\<close>

section \<open>Frames\<close>

lemma register_service_frame [simp]:
  "st_tokens (snd (register_service X E s n st)) = st_tokens st"
  "st_tokens_poisoned (snd (register_service X E s n st)) = st_tokens_poisoned st"
  "st_nodes (snd (register_service X E s n st)) = st_nodes st"
  "st_sessions (snd (register_service X E s n st)) = st_sessions st"
  "st_public_host (snd (register_service X E s n st)) = st_public_host st"
  "st_http_domain (snd (register_service X E s n st)) = st_http_domain st"
  "st_tcp_port_start (snd (register_service X E s n st)) = st_tcp_port_start st"
  "st_tcp_port_end (snd (register_service X E s n st)) = st_tcp_port_end st"
  by (simp_all add: register_service_def Let_def case_prod_beta split: sum.split)

lemma unregister_service_frame [simp]:
  "st_tokens (snd (unregister_service X E i n st)) = st_tokens st"
  "st_tokens_poisoned (snd (unregister_service X E i n st)) = st_tokens_poisoned st"
  "st_nodes (snd (unregister_service X E i n st)) = st_nodes st"
  "st_sessions (snd (unregister_service X E i n st)) = st_sessions st"
  "st_public_host (snd (unregister_service X E i n st)) = st_public_host st"
  "st_http_domain (snd (unregister_service X E i n st)) = st_http_domain st"
  "st_tcp_port_start (snd (unregister_service X E i n st)) = st_tcp_port_start st"
  "st_tcp_port_end (snd (unregister_service X E i n st)) = st_tcp_port_end st"
  by (simp_all add: unregister_service_def Let_def case_prod_beta split: sum.split option.split)

lemma record_heartbeat_frame [simp]:
  "st_tokens (snd (record_heartbeat X E n h st)) = st_tokens st"
  "st_tokens_poisoned (snd (record_heartbeat X E n h st)) = st_tokens_poisoned st"
  "st_services (snd (record_heartbeat X E n h st)) = st_services st"
  "st_sessions (snd (record_heartbeat X E n h st)) = st_sessions st"
  "st_tcp_ingress_tasks (snd (record_heartbeat X E n h st)) = st_tcp_ingress_tasks st"
  "st_public_host (snd (record_heartbeat X E n h st)) = st_public_host st"
  "st_http_domain (snd (record_heartbeat X E n h st)) = st_http_domain st"
  "st_tcp_port_start (snd (record_heartbeat X E n h st)) = st_tcp_port_start st"
  "st_tcp_port_end (snd (record_heartbeat X E n h st)) = st_tcp_port_end st"
  by (simp_all add: record_heartbeat_def Let_def case_prod_beta split: sum.split option.split)

lemma replace_token_frame [simp]:
  "st_services (snd (replace_token X E k h st)) = st_services st"
  "st_tokens_poisoned (snd (replace_token X E k h st)) = st_tokens_poisoned st"
  "st_tcp_ingress_tasks (snd (replace_token X E k h st)) = st_tcp_ingress_tasks st"
  "st_public_host (snd (replace_token X E k h st)) = st_public_host st"
  "st_http_domain (snd (replace_token X E k h st)) = st_http_domain st"
  "st_tcp_port_start (snd (replace_token X E k h st)) = st_tcp_port_start st"
  "st_tcp_port_end (snd (replace_token X E k h st)) = st_tcp_port_end st"
  by (simp_all add: replace_token_def Let_def case_prod_beta split: sum.split)

section \<open>Registration\<close>

lemma ensure_tcp_ingress_store_update [simp]:
  "maps_ok (st\<lparr>st_services := m\<rparr>) = maps_ok st"
  "maps_ok (st\<lparr>st_store := d\<rparr>) = maps_ok st"
  "maps_ok (record_event X E k ek n s t st) = maps_ok st"
  by (simp_all add: maps_ok_def)

lemma ensure_tcp_ingress_maps_ok:
  "maps_ok st \<Longrightarrow> maps_ok (snd (ensure_tcp_ingress E s st))"
  by (simp add: maps_ok_def ensure_tcp_ingress_wf)

lemma register_service_inv:
  assumes "registry_inv st"
  shows "registry_inv (snd (register_service X E service n st))"
proof -
  have dir: "directory_ok (st_services st)" and maps: "maps_ok st"
    using assms by (simp_all add: registry_inv_def)
  show ?thesis
  proof (cases rule: register_service_cases [of st service n X E])
    case (rejected e)
    with assms show ?thesis by simp
  next
    case (unstored s e d)
    with dir maps show ?thesis by (simp add: registry_inv_def register_plan_directory)
  next
    case (unbound s d e st')
    let ?st = "st\<lparr>st_services := bt_insert (sd_service_id s) s (st_services st), st_store := d\<rparr>"
    have st': "st' = snd (ensure_tcp_ingress E s ?st)" using unbound(4) by simp
    have "directory_ok (st_services st')" "maps_ok st'"
      unfolding st' using register_plan_directory [OF dir unbound(1)] maps
      by (simp_all add: ensure_tcp_ingress_maps_ok)
    with unbound(5) show ?thesis
      by (simp add: registry_inv_def directory_ok_remove split: sum.split prod.split)
  next
    case (registered s d st')
    let ?st = "st\<lparr>st_services := bt_insert (sd_service_id s) s (st_services st), st_store := d\<rparr>"
    have "st' = (if sd_protocol s = Tcp then snd (ensure_tcp_ingress E s ?st) else ?st)"
      using registered(3) by (auto split: if_splits)
    then have "directory_ok (st_services st')" "maps_ok st'"
      using register_plan_directory [OF dir registered(1)] maps
      by (simp_all add: ensure_tcp_ingress_maps_ok)
    with registered(4) show ?thesis by (simp add: registry_inv_def)
  qed
qed

lemma ensure_tcp_ingress_listening:
  assumes "fst (ensure_tcp_ingress E s st) = Inr ()"
  shows "bt_get (st_tcp_ingress_tasks (snd (ensure_tcp_ingress E s st))) (sd_service_id s) \<noteq> None"
  using assms by (auto simp: ensure_tcp_ingress_tasks)

lemma register_service_Inr:
  assumes "register_service X E service n st = (Inr s, st')"
  obtains "register_plan st service n = Inr s"
    and "st_services st' = bt_insert (sd_service_id s) s (st_services st)"
    and "sd_protocol s = Tcp \<Longrightarrow> bt_get (st_tcp_ingress_tasks st') (sd_service_id s) \<noteq> None"
  using assms
proof (cases rule: register_service_cases [of st service n X E])
  case (registered r d st1)
  let ?st = "st\<lparr>st_services := bt_insert (sd_service_id r) r (st_services st), st_store := d\<rparr>"
  have r: "r = s" "st' = record_event X E 0 ServiceRegistered (Some n) (Some (sd_service_id r)) None st1"
    using registered(4) assms by simp_all
  have "st1 = (if sd_protocol s = Tcp then snd (ensure_tcp_ingress E s ?st) else ?st)"
    using registered(3) r(1) by (auto split: if_splits)
  moreover have "sd_protocol s = Tcp \<Longrightarrow> fst (ensure_tcp_ingress E s ?st) = Inr ()"
    using registered(3) r(1) by (auto split: if_splits)
  ultimately show thesis
    using registered(1) r ensure_tcp_ingress_listening [of E s ?st] by (intro that) simp_all
qed (auto split: prod.splits sum.splits)

text \<open>C10: an accepted registration is in the directory under the id it returns, with the
  requested name, owner and target, an endpoint inside the relay's configuration and a
  name and port no other service has; every other service is as before; a TCP service has a
  listener task.\<close>

theorem register_service_accepted:
  assumes "registry_inv st" and "register_service X E service n st = (Inr s, st')"
  shows "bt_get (st_services st') (sd_service_id s) = Some s \<and>
    sd_service_name s = sd_service_name service \<and> sd_node_id s = sd_node_id service \<and>
    sd_protocol s = sd_protocol service \<and> sd_local_address s = sd_local_address service \<and>
    sd_metadata s = sd_metadata service \<and> endpoint_ok st s \<and>
    (\<forall>j t. j \<noteq> sd_service_id s \<longrightarrow> bt_get (st_services st') j = bt_get (st_services st) j \<and>
       (bt_get (st_services st') j = Some t \<longrightarrow> sd_service_name t \<noteq> sd_service_name s \<and>
          \<not> (\<exists>p. leases_port p s \<and> leases_port p t))) \<and>
    (sd_protocol s = Tcp \<longrightarrow> bt_get (st_tcp_ingress_tasks st') (sd_service_id s) \<noteq> None)"
proof -
  have dir: "directory_ok (st_services st)" using assms(1) by (simp add: registry_inv_def)
  from assms(2) show ?thesis
  proof (rule register_service_Inr)
    assume plan: "register_plan st service n = Inr s"
      and services: "st_services st' = bt_insert (sd_service_id s) s (st_services st)"
      and task: "sd_protocol s = Tcp \<Longrightarrow> bt_get (st_tcp_ingress_tasks st') (sd_service_id s) \<noteq> None"
    have "sd_service_name t \<noteq> sd_service_name s \<and> \<not> (\<exists>p. leases_port p s \<and> leases_port p t)"
      if "j \<noteq> sd_service_id s" "bt_get (st_services st) j = Some t" for j t
      using that register_plan_name [OF dir plan that(2)] register_plan_lease [OF dir plan that(2)] by blast
    then show ?thesis
      using register_plan_kept(1-5) [OF plan] register_plan_endpoint [OF plan] services task by simp
  qed
qed

text \<open>When a request is accepted by the checks under the lock.\<close>

definition tcp_port_grantable :: "AppState \<Rightarrow> ServiceDefinition \<Rightarrow> bool" where
  "tcp_port_grantable st s \<longleftrightarrow>
     (case sd_public_port s of
        None \<Rightarrow> first_available_tcp_port (st_services st) st \<noteq> None
      | Some p \<Rightarrow> st_tcp_port_start st \<le> p \<and> p \<le> st_tcp_port_end st \<and>
          \<not> list_ex (\<lambda>e. sd_service_id e \<noteq> sd_service_id s \<and> leases_port p e) (bt_values (st_services st)))"

lemma assign_tcp_ok: "is_ok (assign_tcp st s) = tcp_port_grantable st s"
proof (cases "sd_public_port s")
  case None
  show ?thesis
  proof (cases "first_available_tcp_port (st_services st) st")
    case (Some p)
    from first_available_tcp_port_Some [OF this] None Some show ?thesis
      by (auto simp: assign_tcp_def tcp_port_grantable_def list_ex_iff leases_port_def)
  qed (use None in \<open>simp add: assign_tcp_def tcp_port_grantable_def\<close>)
next
  case (Some p)
  then show ?thesis
    by (auto simp: assign_tcp_def tcp_port_grantable_def list_ex_iff leases_port_def not_less)
qed

lemma is_ok_unit: "is_ok (r :: 'e + unit) \<longleftrightarrow> r = Inr ()"
  by (cases r) auto

lemma is_ok_bind: "is_ok (result_bind r f) \<longleftrightarrow> (\<exists>a. r = Inr a \<and> is_ok (f a))"
  by (cases r) auto

text \<open>the checks accept a registration exactly when its name and metadata are valid, no
  other node has the name, and the endpoint can be given: a domain is configured, or
  the wanted (or kept) port is in range and not leased, or some port is free.\<close>

theorem register_plan_accepts:
  "is_ok (register_plan st service n) =
     (validate_service_name (sd_service_name service) = Inr () \<and> metadata_validate (sd_metadata service) = Inr () \<and>
      \<not> list_ex (\<lambda>e. sd_service_name e = sd_service_name service \<and> sd_node_id e \<noteq> n) (bt_values (st_services st)) \<and>
      (if sd_protocol service = Tcp
       then tcp_port_grantable st (adopt_previous (previous_registration st service n) service)
       else st_http_domain st \<noteq> None))"
  unfolding register_plan_def is_ok_bind map_error_Inr_iff previous_registration_def [symmetric] Let_def
  by (cases "sd_protocol service")
     (auto simp: assign_tcp_ok assign_http_def split: option.splits)

text \<open>a registration whose listener cannot be bound leaves the service in neither the
  directory nor, when the database works, the services table, and reports the failure.\<close>

theorem register_service_rolled_back:
  assumes "register_plan st service n = Inr s" and "sd_protocol s = Tcp" and "sd_public_port s = Some p"
    and "bt_get (st_tcp_ingress_tasks st) (sd_service_id s) = None" and "\<not> e_bind E p"
    and "inj (x_uuid_string X)" and "services_durable X (st_store st) (st_services st)"
    and "to_allocvec (x_service X) s = Inr bytes" and "reads_back (x_service X) s"
    and "e_db E CallPutService = None" and "e_db E CallDeleteService = None"
  shows "fst (register_service X E service n st) = Inl ''failed to activate TCP relay port'' \<and>
    st_services (snd (register_service X E service n st)) = bt_remove (sd_service_id s) (bt_insert (sd_service_id s) s (st_services st)) \<and>
    load_services X None (st_store (snd (register_service X E service n st))) =
      Inr (st_services (snd (register_service X E service n st))) \<and>
    st_tcp_ingress_tasks (snd (register_service X E service n st)) = st_tcp_ingress_tasks st"
proof -
  let ?m = "bt_insert (sd_service_id s) s (st_services st)"
  obtain d where put: "put_service X None s (st_store st) = (Inr (), d)" "services_durable X d ?m"
    using put_service_durable [OF assms(6-9)] by blast
  obtain d' where del: "delete_service X None (sd_service_id s) d = (Inr (), d')"
      "services_durable X d' (bt_remove (sd_service_id s) ?m)"
    using delete_service_durable [OF assms(6) put(2)] by blast
  have "register_service X E service n st =
      (Inl ''failed to activate TCP relay port'',
       st\<lparr>st_services := bt_remove (sd_service_id s) ?m, st_store := d'\<rparr>)"
    using assms(1-5,10,11) put(1) del(1)
    by (simp add: register_service_def ensure_tcp_ingress_def bt_contains_key_def Let_def)
  then show ?thesis using services_durable_load [OF del(2)] by simp
qed

text \<open>C28: with a working database an accepted registration survives a restart: the services table
  reloads to the directory in memory.\<close>

theorem register_service_durable:
  assumes "inj (x_uuid_string X)" and "services_durable X (st_store st) (st_services st)"
    and "reads_back (x_service X) s"
    and "e_db E CallPutService = None"
    and "register_service X E service n st = (Inr s, st')"
  shows "load_services X None (st_store st') = Inr (st_services st')"
  using assms(5)
proof (cases rule: register_service_cases [of st service n X E])
  case (registered r d st1)
  let ?st = "st\<lparr>st_services := bt_insert (sd_service_id r) r (st_services st), st_store := d\<rparr>"
  have r: "r = s" and st': "st' = record_event X E 0 ServiceRegistered (Some n) (Some (sd_service_id r)) None st1"
    using registered(4) assms(5) by simp_all
  have "st1 = (if sd_protocol r = Tcp then snd (ensure_tcp_ingress E r ?st) else ?st)"
    using registered(3) by (auto split: if_splits)
  then have st1: "st_store st1 = d" "st_services st1 = bt_insert (sd_service_id r) r (st_services st)"
    by simp_all
  obtain p where p: "to_allocvec (x_service X) r = Inr p"
    using registered(2) by (auto simp: put_service_def encode_with_def map_error_Inr_iff split: sum.splits)
  have "reads_back (x_service X) r" using assms(3) r by simp
  from put_service_durable [OF assms(1,2) p this]
  obtain d1 where "put_service X None r (st_store st) = (Inr (), d1)"
    and "services_durable X d1 (bt_insert (sd_service_id r) r (st_services st))" by blast
  then have dur: "services_durable X d (st_services st1)"
    using registered(2) assms(4) st1(2) by simp
  have "st_store st' SERVICES_TABLE = d SERVICES_TABLE"
    unfolding st' by (simp add: st1 table_defs)
  with dur have "services_durable X (st_store st') (st_services st1)"
    by (simp add: services_durable_def)
  then show ?thesis using services_durable_load st' by simp
qed (auto split: prod.splits sum.splits)

section \<open>Removal\<close>

lemma unregister_service_inv:
  "registry_inv st \<Longrightarrow> registry_inv (snd (unregister_service X E i n st))"
  by (auto simp: registry_inv_def maps_ok_def unregister_service_def Let_def case_prod_beta directory_ok_remove
      split: option.split sum.split)

text \<open>a node can only remove its own services: a request for an unknown service or one of
  another node succeeds and changes nothing at all; for its own it removes that service
  and no other.\<close>

theorem unregister_service_own_only:
  "(if \<exists>s. bt_get (st_services st) i = Some s \<and> sd_node_id s = n
    then st_services (snd (unregister_service X E i n st)) = bt_remove i (st_services st)
    else unregister_service X E i n st = (Inr (), st))"
  by (auto simp: unregister_service_def Let_def case_prod_beta split: option.split sum.split)

section \<open>Heartbeats\<close>

lemma record_heartbeat_inv:
  "registry_inv st \<Longrightarrow> registry_inv (snd (record_heartbeat X E n h st))"
  by (auto simp: registry_inv_def maps_ok_def record_heartbeat_def Let_def case_prod_beta
      split: option.split sum.split)

text \<open>the stored round-trip time is the time since the heartbeat was sent, cut to the range
  from zero to one hour; the \<open>as u32\<close> cast never wraps.\<close>

theorem heartbeat_rtt_bounds:
  "unat (heartbeat_rtt now h) = nat (max 0 (min 3600000 (now - hs_sent_at h))) \<and>
   unat (heartbeat_rtt now h) \<le> 3600000"
proof -
  let ?c = "clamp_i64 0 3600000 (saturating_sub_i64 now (hs_sent_at h))"
  have c: "?c = max 0 (min 3600000 (now - hs_sent_at h))"
    by (auto simp: clamp_i64_def saturating_sub_i64_def i64_min_def i64_max_def min_def max_def)
  then have "0 \<le> ?c" "?c \<le> 3600000" by simp_all
  then have "unat (heartbeat_rtt now h) = nat ?c"
    unfolding heartbeat_rtt_def by (intro unat_as_u32) simp_all
  with c show ?thesis by simp
qed

text \<open>A heartbeat from a known node marks it online with its time and round trip, whatever the
  database does, and from an unknown node does nothing.\<close>

lemma record_heartbeat_effect:
  "(if bt_get (st_nodes st) n = None then record_heartbeat X E n h st = (Inr (), st)
    else st_nodes (snd (record_heartbeat X E n h st)) =
      bt_adjust n (\<lambda>node. node\<lparr>nr_status := NodeIsOnline,
          nr_last_heartbeat_at := Some (now_unix_ms (e_clock E 0)),
          nr_rtt_ms := Some (heartbeat_rtt (now_unix_ms (e_clock E 0)) h)\<rparr>) (st_nodes st))"
  by (auto simp: record_heartbeat_def bt_adjust_def Let_def case_prod_beta split: option.split sum.split)

section \<open>Token replacement\<close>

lemma mark_nodes_offline_get:
  "bt_get (mark_nodes_offline ns m) i =
     (if i \<in> set ns then map_option set_offline (bt_get m i) else bt_get m i)"
proof (induction ns arbitrary: m)
  case (Cons n ns)
  have idem: "set_offline (set_offline r) = set_offline r" for r by (simp add: set_offline_def)
  show ?case
    using Cons.IH [of "bt_adjust n set_offline m"]
    by (auto simp: mark_nodes_offline_def idem option.map_comp comp_def)
qed (simp add: mark_nodes_offline_def)

lemma mark_nodes_offline_wf [wf_intros]: "bt_wf m \<Longrightarrow> bt_wf (mark_nodes_offline ns m)"
  by (induction ns arbitrary: m) (simp_all add: mark_nodes_offline_def)

lemma replace_token_cases:
  obtains (failed) e where "replace_token X E k h st = (Inl e, st)"
  | (replaced) d st' where
      "put_tokens X (e_db E CallPutTokens) (token_set (st_tokens st) k h) (st_store st) = (Inr (), d)"
      "st_tokens_poisoned st = False"
      "snd (replace_token X E k h st) = st'"
      "st_tokens st' = token_set (st_tokens st) k h"
      "st_sessions st' = fold bt_remove (map fst (sessions_of_kind k st)) (st_sessions st)"
      "st_nodes st' = mark_nodes_offline (map fst (sessions_of_kind k st)) (st_nodes st)"
      "st_effects st' = st_effects st @ map (\<lambda>p. close_session (as_connection (snd p))) (sessions_of_kind k st)"
proof -
  obtain r d where put: "put_tokens X (e_db E CallPutTokens) (token_set (st_tokens st) k h) (st_store st) = (r, d)"
    by fastforce
  have "atomic_outcome TOKENS_TABLE (st_store st) (r, d)"
    using store_atomic(5) [of "st_store st"] put by metis
  then have unchanged: "d = st_store st" if "r = Inl e" for e
    using that by (simp add: atomic_outcome_def)
  show thesis
  proof (cases "st_tokens_poisoned st")
    case True
    then show thesis by (intro failed) (simp add: replace_token_def)
  next
    case running: False
    show thesis
    proof (cases r)
      case (Inl e)
      with running put unchanged [OF Inl] show thesis
        by (intro failed) (simp add: replace_token_def Let_def)
    next
      case (Inr u)
      with running put show thesis
        by (intro replaced [OF _ _ refl]) (simp_all add: replace_token_def Let_def sessions_of_kind_def)
    qed
  qed
qed

lemma replace_token_inv:
  assumes "registry_inv st"
  shows "registry_inv (snd (replace_token X E k h st))"
proof (cases rule: replace_token_cases [of X E k h st])
  case (replaced d st')
  have frame: "st_services st' = st_services st" "st_tcp_ingress_tasks st' = st_tcp_ingress_tasks st"
    using replaced(3) by auto
  have "nr_node_id r = i" if "bt_get (st_nodes st') i = Some r" for i r
    using that assms unfolding replaced(6) mark_nodes_offline_get
    by (auto simp: registry_inv_def maps_ok_def set_offline_def split: if_splits)
  with assms frame replaced show ?thesis
    by (simp add: registry_inv_def maps_ok_def mark_nodes_offline_wf bt_wf_fold_remove)
qed (use assms in simp)

lemma sessions_of_kind_get:
  assumes "bt_wf (st_sessions st)"
  shows "i \<in> set (map fst (sessions_of_kind k st)) \<longleftrightarrow>
    (\<exists>s. bt_get (st_sessions st) i = Some s \<and> as_token_kind s = k)"
  using assms by (auto simp: sessions_of_kind_def bt_get_mem image_iff)

text \<open>Whom a token authenticates as after the kind \<open>k\<close> has got the hash \<open>h\<close>: the admin's hash comes
  first, so a user token with the admin's hash is an admin token.\<close>

lemma authenticate_token_set:
  assumes "st_tokens st' = token_set (st_tokens st) k h" and "\<not> st_tokens_poisoned st'"
  shows "authenticate_token X token st' =
    (let g = hash_token (x_blake3 X) token;
         admin_hash = (if k = Admin then h else ts_admin_hash (st_tokens st));
         user_hash = (if k = User then h else ts_user_hash (st_tokens st))
     in if admin_hash = Some g then Some Admin else if user_hash = Some g then Some User else None)"
  using assms by (cases k) (simp_all add: authenticate_token_def token_authenticate_def token_set_def Let_def)

text \<open>C11: replacing a token takes effect at once: afterwards a token authenticates as the admin
  exactly if its hash is the admin's, which is the new one if the admin token was replaced, and
  otherwise as a user exactly if its hash is the user's, with none left for a revoked kind; no
  session opened with the kind remains and each of them was told to close, its
  node is offline, and the sessions and nodes of the other kind are as before. The
  alternative is an error that changes nothing.\<close>

theorem replace_token_disconnects:
  assumes "bt_wf (st_sessions st)" and "st' = snd (replace_token X E k h st)"
  shows "st' = st \<and> \<not> is_ok (fst (replace_token X E k h st)) \<or>
    (\<forall>token. authenticate_token X token st' =
       (let g = hash_token (x_blake3 X) token;
            admin_hash = (if k = Admin then h else ts_admin_hash (st_tokens st));
            user_hash = (if k = User then h else ts_user_hash (st_tokens st))
        in if admin_hash = Some g then Some Admin else if user_hash = Some g then Some User else None)) \<and>
    (\<forall>i s. bt_get (st_sessions st') i = Some s \<longleftrightarrow>
       bt_get (st_sessions st) i = Some s \<and> as_token_kind s \<noteq> k) \<and>
    (\<forall>i s. bt_get (st_sessions st) i = Some s \<longrightarrow>
       (if as_token_kind s = k
        then CloseConnection (as_connection s) \<in> set (st_effects st') \<and>
          bt_get (st_nodes st') i = map_option set_offline (bt_get (st_nodes st) i)
        else bt_get (st_nodes st') i = bt_get (st_nodes st) i))"
proof (cases rule: replace_token_cases [of X E k h st])
  case (failed e)
  with assms(2) show ?thesis by simp
next
  case (replaced d st1)
  then have st1: "st1 = st'" using assms(2) by simp
  note member = sessions_of_kind_get [OF assms(1), of _ k]
  have closed: "CloseConnection (as_connection s) \<in> set (st_effects st')"
    if "bt_get (st_sessions st) i = Some s" "as_token_kind s = k" for i s
  proof -
    have "(i, s) \<in> set (sessions_of_kind k st)"
      using that assms(1) by (simp add: sessions_of_kind_def bt_get_mem)
    then show ?thesis using replaced(7) st1 by (force simp: close_session_def)
  qed
  have sessions: "bt_get (st_sessions st') i = Some s \<longleftrightarrow>
      bt_get (st_sessions st) i = Some s \<and> as_token_kind s \<noteq> k" for i s
    using member [of i] replaced(5) st1 by (auto simp: bt_get_fold_remove)
  have nodes: "bt_get (st_nodes st') i = (if as_token_kind s = k
      then map_option set_offline (bt_get (st_nodes st) i) else bt_get (st_nodes st) i)"
    if "bt_get (st_sessions st) i = Some s" for i s
    using that member [of i] replaced(6) st1 by (auto simp: mark_nodes_offline_get)
  have "\<not> st_tokens_poisoned st'" using replaced(2) assms(2) by simp
  moreover have "st_tokens st' = token_set (st_tokens st) k h" using replaced(4) st1 by simp
  ultimately have "authenticate_token X token st' =
     (let g = hash_token (x_blake3 X) token;
          admin_hash = (if k = Admin then h else ts_admin_hash (st_tokens st));
          user_hash = (if k = User then h else ts_user_hash (st_tokens st))
      in if admin_hash = Some g then Some Admin else if user_hash = Some g then Some User else None)" for token
    by (rule authenticate_token_set [rotated])
  with closed sessions nodes show ?thesis by (metis (no_types, lifting))
qed

section \<open>Where registration falls short\<close>

lemma register_service_keeps_task:
  assumes "bt_get (st_tcp_ingress_tasks st) i = Some task"
  shows "bt_get (st_tcp_ingress_tasks (snd (register_service X E service n st))) i = Some task"
  using assms
  by (simp add: register_service_def Let_def case_prod_beta ensure_tcp_ingress_tasks split: sum.split)

lemma register_plan_new_port:
  assumes "register_plan st service n = Inr s" and "sd_protocol service = Tcp" and "sd_public_port service = Some p"
    and "\<And>e. e \<in> set (bt_values (st_services st)) \<Longrightarrow> sd_service_name e = sd_service_name service \<Longrightarrow> sd_protocol e \<noteq> Tcp"
  shows "sd_public_port s = Some p"
  using assms(1)
proof (rule register_plan_Inr)
  let ?s = "adopt_previous (previous_registration st service n) service"
  assume "(if sd_protocol service = Tcp then assign_tcp st ?s else assign_http st ?s) = Inr s"
  then have "assign_tcp st ?s = Inr s" using assms(2) by simp
  moreover have "sd_public_port ?s = Some p"
    using assms(3,4) previous_registration_Some
    by (auto simp: adopt_previous_def Let_def split: option.split)
  ultimately show ?thesis by (auto elim: assign_tcp_Inr)
qed

text \<open>C39: a node whose request carries the id of another node's service under a fresh name is not
  refused: the accepted record takes the id and the other node's service leaves the
  directory.\<close>

theorem register_service_takes_foreign_id:
  assumes "registry_inv st" and "bt_get (st_services st) (sd_service_id service) = Some victim"
    and "sd_node_id victim \<noteq> n" and "sd_node_id service = n"
    and "previous_registration st service n = None"
    and "register_service X E service n st = (Inr s, st')"
  shows "sd_service_id s = sd_service_id victim \<and> sd_node_id s = n \<and>
    bt_get (st_services st') (sd_service_id victim) = Some s \<and>
    victim \<notin> set (bt_values (st_services st'))"
proof -
  have dir: "directory_ok (st_services st)" using assms(1) by (simp add: registry_inv_def)
  have id: "sd_service_id victim = sd_service_id service" using directory_okD(2) [OF dir assms(2)] .
  from assms(6) show ?thesis
  proof (rule register_service_Inr)
    assume plan: "register_plan st service n = Inr s"
      and services: "st_services st' = bt_insert (sd_service_id s) s (st_services st)"
    have s: "sd_service_id s = sd_service_id service" "sd_node_id s = n"
      using register_plan_kept(2,6) [OF plan] assms(4,5) by simp_all
    have no_victim: "bt_get (st_services st') j \<noteq> Some victim" for j
    proof
      assume j: "bt_get (st_services st') j = Some victim"
      have "s \<noteq> victim" using s(2) assms(3) by blast
      with j services have "j \<noteq> sd_service_id s" "bt_get (st_services st) j = Some victim"
        by (auto split: if_splits)
      with directory_okD(2) [OF dir, of j victim] s(1) id show False by simp
    qed
    have "bt_wf (st_services st')"
      unfolding services using directory_okD(1) [OF dir] by simp
    with no_victim have "victim \<notin> set (bt_values (st_services st'))"
      by (simp add: bt_values_iff)
    moreover have "bt_get (st_services st') (sd_service_id victim) = Some s"
      unfolding services id s(1) by simp
    ultimately show ?thesis using s id by (metis (full_types))
  qed
qed

text \<open>a TCP service that is re-registered as HTTP and later as TCP on another port keeps the
  listener task of its first port, while the directory advertises the new one.\<close>

theorem tcp_listener_goes_stale:
  assumes "registry_inv st" and "bt_get (st_tcp_ingress_tasks st) (sd_service_id s1) = Some task"
    and "register_service X E a n st = (Inr s1, st1)" and "sd_protocol s1 = Http"
    and "register_service X E' b n st1 = (Inr s2, st2)" and "sd_protocol s2 = Tcp"
    and "sd_service_name b = sd_service_name a" and "sd_public_port b = Some p"
  shows "bt_get (st_services st2) (sd_service_id s2) = Some s2 \<and> sd_public_port s2 = Some p \<and>
    bt_get (st_tcp_ingress_tasks st2) (sd_service_id s1) = Some task"
proof -
  have "st1 = snd (register_service X E a n st)" "st2 = snd (register_service X E' b n st1)"
    using assms(3,5) by simp_all
  then have tasks: "bt_get (st_tcp_ingress_tasks st2) (sd_service_id s1) = Some task"
    using assms(2) by (simp add: register_service_keeps_task)
  have dir1: "directory_ok (st_services st1)"
    using register_service_inv [OF assms(1), of X E a n] assms(3) by (simp add: registry_inv_def)
  obtain plan1: "register_plan st a n = Inr s1"
    and services1: "st_services st1 = bt_insert (sd_service_id s1) s1 (st_services st)"
    using assms(3) by (rule register_service_Inr)
  obtain plan2: "register_plan st1 b n = Inr s2"
    and services2: "st_services st2 = bt_insert (sd_service_id s2) s2 (st_services st1)"
    using assms(5) by (rule register_service_Inr)
  have s1: "bt_get (st_services st1) (sd_service_id s1) = Some s1" using services1 by simp
  have "sd_protocol e \<noteq> Tcp" if e: "e \<in> set (bt_values (st_services st1))" "sd_service_name e = sd_service_name b" for e
  proof -
    obtain j where j: "bt_get (st_services st1) j = Some e"
      using e(1) directory_okD(1) [OF dir1] by (auto simp: bt_values_iff)
    have "sd_service_name e = sd_service_name s1"
      using e(2) assms(7) register_plan_kept(1) [OF plan1] by simp
    from directory_okD(3) [OF dir1 j s1 this] have "j = sd_service_id s1" .
    with j s1 have "e = s1" by (metis option.inject)
    then show ?thesis using assms(4) by simp
  qed
  then have "sd_public_port s2 = Some p"
    using register_plan_new_port [OF plan2 _ assms(8)] assms(6) register_plan_kept(3) [OF plan2] by simp
  moreover have "bt_get (st_services st2) (sd_service_id s2) = Some s2"
    unfolding services2 by simp
  ultimately show ?thesis using tasks by blast
qed

text \<open>a registration whose record cannot be stored is answered with an error, but the service
  stays in the directory and is served until a restart forgets it.\<close>

theorem register_service_unstored_stays:
  assumes "register_plan st service n = Inr s"
    and "put_service X (e_db E CallPutService) s (st_store st) = (Inl e, d)"
  shows "fst (register_service X E service n st) = Inl e \<and>
    bt_get (st_services (snd (register_service X E service n st))) (sd_service_id s) = Some s \<and>
    st_store (snd (register_service X E service n st)) = st_store st"
proof -
  have "d = st_store st"
    using store_atomic(1) [of "st_store st" X "e_db E CallPutService" s] assms(2)
    by (simp add: atomic_outcome_def)
  with assms show ?thesis by (simp add: register_service_def Let_def)
qed

section \<open>Witnesses\<close>

definition sample_env :: Env where
  "sample_env = \<lparr>e_clock = (\<lambda>_. Some 5), e_event_clock = (\<lambda>_. Some 5), e_event_id = (\<lambda>_. 7), e_fresh_id = 8,
     e_db = (\<lambda>_. None), e_bind = (\<lambda>_. True)\<rparr>"

definition sample_record :: NodeRecord where
  "sample_record = \<lparr>nr_node_id = sample_node, nr_public_key = Some [9],
     nr_metadata = \<lparr>nm_hostname = ''h'', nm_os = ''linux'', nm_arch = ''x86_64'', nm_client_version = ''1'',
       nm_metadata = []\<rparr>,
     nr_public_ip = ''10.0.0.1'', nr_source_port = 4000, nr_transport = Quic, nr_status = NodeIsOnline,
     nr_connected_at = 1, nr_last_heartbeat_at = None, nr_rtt_ms = None\<rparr>"

definition sample_state :: AppState where
  "sample_state = \<lparr>st_tokens = sample_tokens, st_tokens_poisoned = False, st_services = [],
     st_nodes = [(sample_node, sample_record)],
     st_sessions = [(sample_node, \<lparr>as_id = UuidId 3, as_token_kind = User, as_connection = QuicConnection 1\<rparr>)],
     st_tcp_ingress_tasks = [], st_public_host = ''relay'', st_http_domain = Some ''d'',
     st_tcp_port_start = 20000, st_tcp_port_end = 20001, st_store = empty_database, st_effects = []\<rparr>"

definition sample_request :: ServiceDefinition where
  "sample_request = sample_service\<lparr>sd_public_host := None, sd_public_port := None\<rparr>"

lemma sample_state_inv: "registry_inv sample_state"
  by (simp add: registry_inv_def maps_ok_def sample_state_def bt_wf_def bt_get_def sample_record_def)

lemma sample_plan: "register_plan sample_state sample_request sample_node = Inr sample_service"
proof -
  have name: "validate_service_name ''ssh'' = Inr ()" by code_simp
  have ports: "port_range 20000 20001 = [20000, 20001]"
    by (simp add: port_range_def upt_rec)
  show ?thesis
    by (simp add: register_plan_def sample_request_def sample_service_def sample_state_def name ports
      adopt_previous_def assign_tcp_def first_available_tcp_port_def bt_values_def metadata_validate_def)
qed

lemma sample_register:
  "fst (register_service sample_externals sample_env sample_request sample_node sample_state) = Inr sample_service"
proof -
  obtain d where "put_service sample_externals None sample_service empty_database = (Inr (), d)"
    by (simp add: put_service_def encode_with_def sample_externals_def listed_def write_txn_def)
  then show ?thesis
    unfolding register_service_def sample_plan
    by (simp add: sample_env_def Let_def case_prod_beta ensure_tcp_ingress_def sample_state_def
      bt_contains_key_def sample_service_def)
qed

theorem register_service_accepted_witness:
  "\<exists>st'. register_service sample_externals sample_env sample_request sample_node sample_state = (Inr sample_service, st') \<and>
     bt_get (st_services st') (UuidId 2) = Some sample_service \<and>
     bt_get (st_tcp_ingress_tasks st') (UuidId 2) \<noteq> None"
proof -
  let ?r = "register_service sample_externals sample_env sample_request sample_node sample_state"
  have r: "?r = (Inr sample_service, snd ?r)" using sample_register by (metis prod.collapse)
  have "sd_service_id sample_service = UuidId 2" "sd_protocol sample_service = Tcp"
    by (simp_all add: sample_service_def)
  with r register_service_accepted [OF sample_state_inv r] show ?thesis by metis
qed

theorem register_service_durable_witness:
  "load_services sample_externals None
     (st_store (snd (register_service sample_externals sample_env sample_request sample_node sample_state))) =
   Inr (st_services (snd (register_service sample_externals sample_env sample_request sample_node sample_state)))"
proof -
  let ?r = "register_service sample_externals sample_env sample_request sample_node sample_state"
  have r: "?r = (Inr sample_service, snd ?r)" using sample_register by (metis prod.collapse)
  show ?thesis
    by (rule register_service_durable [OF _ _ _ _ r])
       (simp_all add: sample_externals_def sample_state_def sample_env_def empty_database_durable)
qed

theorem register_service_rolled_back_witness:
  "fst (register_service sample_externals (sample_env\<lparr>e_bind := \<lambda>_. False\<rparr>) sample_request sample_node sample_state) =
     Inl ''failed to activate TCP relay port''"
  using register_service_rolled_back [OF sample_plan, of 20000 "sample_env\<lparr>e_bind := \<lambda>_. False\<rparr>"
      sample_externals "[1]"]
  by (simp add: sample_service_def sample_state_def sample_env_def sample_externals_def
      empty_database_durable) (simp add: listed_def)

theorem register_service_unstored_stays_witness:
  "bt_get (st_services (snd (register_service sample_externals (sample_env\<lparr>e_db := \<lambda>_. Some AtCommit\<rparr>)
     sample_request sample_node sample_state))) (UuidId 2) = Some sample_service"
proof -
  let ?E = "sample_env\<lparr>e_db := \<lambda>_. Some AtCommit\<rparr>"
  have "put_service sample_externals (e_db ?E CallPutService) sample_service (st_store sample_state) =
      (Inl ''failed to commit service'', st_store sample_state)"
    by (simp add: put_service_def encode_with_def sample_externals_def listed_def write_txn_def)
  from register_service_unstored_stays [OF sample_plan this] show ?thesis
    by (simp add: sample_service_def)
qed

definition revoking_externals :: Externals where
  "revoking_externals = sample_externals\<lparr>x_tokens := listed [token_set sample_tokens User None],
     x_node := listed [set_offline sample_record]\<rparr>"

theorem replace_token_disconnects_witness:
  "bt_get (st_sessions (snd (replace_token revoking_externals sample_env User None sample_state))) sample_node = None \<and>
   authenticate_token revoking_externals [CHR 0x02] (snd (replace_token revoking_externals sample_env User None sample_state)) = None \<and>
   authenticate_token revoking_externals [CHR 0x01] (snd (replace_token revoking_externals sample_env User None sample_state)) = Some Admin"
proof -
  let ?r = "replace_token revoking_externals sample_env User None sample_state"
  have wf: "bt_wf (st_sessions sample_state)" by (simp add: sample_state_def bt_wf_def)
  have "is_ok (fst ?r)"
    by (simp add: replace_token_def sample_state_def Let_def case_prod_beta put_tokens_def encode_with_def
        revoking_externals_def listed_def write_txn_def sample_env_def sessions_of_kind_def
        mark_nodes_offline_def bt_adjust_def bt_get_def map_filter_simps put_node_def)
  with replace_token_disconnects [OF wf refl, of revoking_externals sample_env User None]
  have sessions: "bt_get (st_sessions (snd ?r)) i = Some s \<longleftrightarrow>
        bt_get (st_sessions sample_state) i = Some s \<and> as_token_kind s \<noteq> User"
      and tokens: "authenticate_token revoking_externals token (snd ?r) =
        (let g = hash_token (x_blake3 revoking_externals) token in
         if ts_admin_hash (st_tokens sample_state) = Some g then Some Admin else None)" for i s token
    by (force simp: Let_def)+
  from sessions have "bt_get (st_sessions (snd ?r)) sample_node \<noteq> Some s" for s
    by (auto simp: sample_state_def bt_get_def)
  moreover have "st_tokens sample_state = sample_tokens" by (simp add: sample_state_def)
  ultimately show ?thesis
    unfolding tokens
    by (auto simp: sample_tokens_def revoking_externals_def sample_externals_def hash_token_def string_bytes_def Let_def)
qed

lemma register_http_sample:
  assumes "st_http_domain st = Some ''d''" and "sd_protocol service = Http" and "sd_service_name service = ''ssh''"
    and "sd_metadata service = []"
    and "\<And>e. e \<in> set (bt_values (st_services st)) \<Longrightarrow> sd_service_name e = ''ssh'' \<Longrightarrow> sd_node_id e = n"
    and "s = (adopt_previous (previous_registration st service n) service)\<lparr>sd_public_host := Some ''ssh.d'', sd_public_port := None\<rparr>"
    and "to_allocvec (x_service X) s = Inr p"
  shows "\<exists>st'. register_service X sample_env service n st = (Inr s, st')"
proof -
  have name: "validate_service_name ''ssh'' = Inr ()" by code_simp
  have "metadata_validate [] = Inr ()" by code_simp
  with name assms(1-6) have plan: "register_plan st service n = Inr s"
    by (auto simp: register_plan_def assign_http_def list_ex_iff previous_registration_def)
  have "sd_protocol s = Http" using assms(2,6) by simp
  moreover obtain d where "put_service X None s (st_store st) = (Inr (), d)"
    using assms(7) by (simp add: put_service_def encode_with_def write_txn_def)
  ultimately show ?thesis
    unfolding register_service_def plan by (simp add: sample_env_def Let_def)
qed

definition victim_service :: ServiceDefinition where
  "victim_service = sample_service\<lparr>sd_node_id := UuidId 9, sd_protocol := Http, sd_service_name := ''web'',
     sd_public_host := Some ''web.d'', sd_public_port := None\<rparr>"

definition http_service :: ServiceDefinition where
  "http_service = sample_service\<lparr>sd_protocol := Http, sd_public_host := Some ''ssh.d'', sd_public_port := None\<rparr>"

definition moved_service :: ServiceDefinition where
  "moved_service = sample_service\<lparr>sd_public_port := Some 20001\<rparr>"

definition three_services :: Externals where
  "three_services = sample_externals\<lparr>x_service := listed [sample_service, http_service, moved_service]\<rparr>"

lemmas service_defs = victim_service_def http_service_def moved_service_def sample_service_def

theorem register_service_takes_foreign_id_witness:
  "\<exists>st'. register_service three_services sample_env http_service sample_node
       (sample_state\<lparr>st_services := [(UuidId 2, victim_service)]\<rparr>) = (Inr http_service, st') \<and>
     bt_get (st_services st') (UuidId 2) = Some http_service \<and> sd_node_id victim_service \<noteq> sample_node"
proof -
  let ?st = "sample_state\<lparr>st_services := [(UuidId 2, victim_service)]\<rparr>"
  have inv: "registry_inv ?st"
    using sample_state_inv
    by (auto simp: registry_inv_def directory_ok_def bt_wf_def bt_get_def service_defs leases_port_def split: if_splits)
  have prev: "previous_registration ?st http_service sample_node = None"
    by (simp add: previous_registration_def bt_values_def service_defs)
  have "\<exists>st'. register_service three_services sample_env http_service sample_node ?st = (Inr http_service, st')"
    by (rule register_http_sample [where p = "[1, 1]"])
      (simp_all add: previous_registration_def adopt_previous_def bt_values_def sample_state_def three_services_def listed_def service_defs)
  then obtain st' where r: "register_service three_services sample_env http_service sample_node ?st = (Inr http_service, st')" ..
  have victim: "sd_node_id victim_service \<noteq> sample_node" "sd_service_id victim_service = UuidId 2"
    by (simp_all add: service_defs sample_node_def)
  have "bt_get (st_services st') (sd_service_id victim_service) = Some http_service"
    using register_service_takes_foreign_id [OF inv _ victim(1) _ prev r]
    by (simp add: bt_get_def service_defs)
  with r victim show ?thesis by auto
qed

lemma register_service_with_task:
  assumes "register_plan st service n = Inr s" and "to_allocvec (x_service X) s = Inr p"
    and "sd_public_port s = Some port" and "bt_get (st_tcp_ingress_tasks st) (sd_service_id s) = Some task"
  shows "\<exists>st'. register_service X sample_env service n st = (Inr s, st')"
proof -
  obtain d where "put_service X None s (st_store st) = (Inr (), d)"
    using assms(2) by (simp add: put_service_def encode_with_def write_txn_def)
  then show ?thesis
    unfolding register_service_def assms(1) using assms(3,4)
    by (simp add: sample_env_def Let_def ensure_tcp_ingress_def bt_contains_key_def)
qed

definition listening_state :: AppState where
  "listening_state = sample_state\<lparr>st_services := [(UuidId 2, sample_service)],
     st_tcp_ingress_tasks := [(UuidId 2, \<lparr>it_service = UuidId 2, it_port = 20000\<rparr>)]\<rparr>"

theorem tcp_listener_goes_stale_witness:
  "\<exists>st1 st2. register_service three_services sample_env http_service sample_node listening_state = (Inr http_service, st1) \<and>
     register_service three_services sample_env moved_service sample_node st1 = (Inr moved_service, st2) \<and>
     sd_public_port moved_service = Some 20001 \<and>
     bt_get (st_tcp_ingress_tasks st2) (UuidId 2) = Some \<lparr>it_service = UuidId 2, it_port = 20000\<rparr>"
proof -
  let ?task = "\<lparr>it_service = UuidId 2, it_port = 20000\<rparr> :: IngressTask"
  have inv: "registry_inv listening_state"
    using sample_state_inv
    by (auto simp: registry_inv_def directory_ok_def maps_ok_def bt_wf_def bt_get_def service_defs
        listening_state_def split: if_splits)
  have task: "bt_get (st_tcp_ingress_tasks listening_state) (UuidId 2) = Some ?task"
    by (simp add: listening_state_def bt_get_def)
  have "\<exists>st'. register_service three_services sample_env http_service sample_node listening_state = (Inr http_service, st')"
    by (rule register_http_sample [where p = "[1, 1]"])
      (simp_all add: previous_registration_def adopt_previous_def bt_values_def sample_state_def
        listening_state_def three_services_def listed_def service_defs)
  then obtain st1 where r1: "register_service three_services sample_env http_service sample_node listening_state = (Inr http_service, st1)" ..
  then have st1: "st1 = snd (register_service three_services sample_env http_service sample_node listening_state)" by simp
  have services: "st_services st1 = [(UuidId 2, http_service)]"
    using r1 by (rule register_service_Inr) (simp add: listening_state_def service_defs)
  have task1: "bt_get (st_tcp_ingress_tasks st1) (UuidId 2) = Some ?task"
    unfolding st1 using task by (rule register_service_keeps_task)
  have name: "validate_service_name ''ssh'' = Inr ()" by code_simp
  have config: "st_tcp_port_start st1 = 20000" "st_tcp_port_end st1 = 20001" "st_public_host st1 = ''relay''"
    unfolding st1 by (simp_all add: listening_state_def sample_state_def)
  have "register_plan st1 moved_service sample_node = Inr moved_service"
    by (simp add: register_plan_def services config name service_defs bt_values_def adopt_previous_def
        assign_tcp_def metadata_validate_def)
  then have "\<exists>st'. register_service three_services sample_env moved_service sample_node st1 = (Inr moved_service, st')"
    by (rule register_service_with_task [where p = "[1, 1, 1]" and port = 20001 and task = ?task])
      (use task1 in \<open>simp_all add: three_services_def listed_def service_defs\<close>)
  then obtain st2 where r2: "register_service three_services sample_env moved_service sample_node st1 = (Inr moved_service, st2)" ..
  have ids: "sd_service_id http_service = UuidId 2" "sd_protocol http_service = Http" "sd_protocol moved_service = Tcp"
      "sd_service_name moved_service = sd_service_name http_service" "sd_public_port moved_service = Some 20001"
    by (simp_all add: service_defs)
  show ?thesis
    using tcp_listener_goes_stale [OF inv _ r1 ids(2) r2 ids(3,4,5), of ?task] r1 r2 ids(1,5) task by auto
qed

end
