(* ===== verification/Control.thy ===== *)
theory Control
  imports Registry_Props
begin

text \<open>
  One client connection of \<open>crates/ongrok-relay-server/src/server.rs\<close>:
  \<open>handle_yamux_session\<close> and \<open>handle_quic_connection\<close>, one step per control frame
  read, and \<open>open_client_stream\<close>. Both handlers await at a read; what they do between two
  reads is one step. The two functions are separate in the code and separate here.
\<close>

section \<open>The connection\<close>

record Peer =
  pe_ip :: string
  pe_port :: u16
  pe_session :: ClientSession

text \<open>What authentication fixes for the connection: token kind, claimed node, session id.\<close>

record Principal =
  pr_kind :: TokenKind
  pr_node :: NodeId
  pr_session :: TunnelId

text \<open>Where the handler is; \<open>Serving\<close> carries \<open>registered_node\<close>, \<open>Ended\<close> the result.\<close>

datatype Phase = AwaitHello | AwaitAuth | Serving Principal bool | Ended "string + unit"

record Connection =
  co_phase :: Phase
  co_sent :: "Frame list"

text \<open>One read: its outcome, whether the transport takes the reply, the handler's environment.\<close>

record ControlInput =
  in_read :: "WireError + Frame"
  in_io :: bool
  in_env :: Env

definition new_connection :: Connection where
  "new_connection = \<lparr>co_phase = AwaitHello, co_sent = []\<rparr>"

definition send_frame :: "Externals \<Rightarrow> bool \<Rightarrow> Frame \<Rightarrow> Frame list \<Rightarrow> (string + unit) \<times> Frame list" where
  "send_frame X io frame sent =
     (case write_control_frame (x_frame X) io frame [] of
        (Inl e, _) \<Rightarrow> (Inl (wire_message e), sent)
      | (Inr _, _) \<Rightarrow> (Inr (), sent @ [frame]))"

section \<open>One frame of the serving loop\<close>

datatype LoopOutcome = NextFrame | LoopBreak | LoopError string

definition reply ::
  "Externals \<Rightarrow> bool \<Rightarrow> Frame \<Rightarrow> bool \<Rightarrow> Frame list \<Rightarrow> AppState \<Rightarrow> LoopOutcome \<times> bool \<times> Frame list \<times> AppState" where
  "reply X io frame registered sent st =
     (case send_frame X io frame sent of
        (Inl e, sent) \<Rightarrow> (LoopError e, registered, sent, st)
      | (Inr _, sent) \<Rightarrow> (NextFrame, registered, sent, st))"

definition register_node ::
  "TransportKind \<Rightarrow> Externals \<Rightarrow> Env \<Rightarrow> Peer \<Rightarrow> Principal \<Rightarrow> NodeMetadata \<Rightarrow> bytes \<Rightarrow> AppState \<Rightarrow>
     (string + unit) \<times> AppState" where
  "register_node transport X E peer pr metadata public_key st =
     (case metadata_validate (nm_metadata metadata) of
        Inl e \<Rightarrow> (Inl (validation_message e), st)
      | Inr _ \<Rightarrow>
     (case validate_node_identity (pr_node pr) public_key st of
        Inl e \<Rightarrow> (Inl e, st)
      | Inr _ \<Rightarrow>
          let st = activate_session (pr_node pr) (pr_session pr) (pr_kind pr) (pe_session peer) st;
              node = \<lparr>nr_node_id = pr_node pr, nr_public_key = Some public_key, nr_metadata = metadata,
                nr_public_ip = pe_ip peer, nr_source_port = pe_port peer, nr_transport = transport,
                nr_status = NodeIsOnline, nr_connected_at = now_unix_ms (e_clock E 0),
                nr_last_heartbeat_at = None, nr_rtt_ms = None\<rparr>;
              st = st\<lparr>st_nodes := bt_insert (pr_node pr) node (st_nodes st)\<rparr>
          in case put_node X (e_db E (CallPutNode 0)) node (st_store st) of
               (Inl e, d) \<Rightarrow> (Inl e, st\<lparr>st_store := d\<rparr>)
             | (Inr _, d) \<Rightarrow>
                 (Inr (), record_event X E 0 NodeOnline (Some (pr_node pr)) None None (st\<lparr>st_store := d\<rparr>))))"

definition yamux_frame ::
  "Externals \<Rightarrow> Env \<Rightarrow> bool \<Rightarrow> Peer \<Rightarrow> Principal \<Rightarrow> Frame \<Rightarrow> bool \<Rightarrow> Frame list \<Rightarrow> AppState \<Rightarrow>
     LoopOutcome \<times> bool \<times> Frame list \<times> AppState" where
  "yamux_frame X E io peer pr frame registered sent st =
     (case frame of
        RegisterNode metadata public_key \<Rightarrow>
          (case register_node TcpTlsYamux X E peer pr metadata public_key st of
             (Inl e, st) \<Rightarrow> (LoopError e, registered, sent, st)
           | (Inr _, st) \<Rightarrow> (NextFrame, True, sent, st))
      | RegisterService service \<Rightarrow>
          (case (if \<not> registered \<or> sd_node_id service \<noteq> pr_node pr
                 then (Inl ''node must be registered before publishing services'', st)
                 else register_service X E service (pr_node pr) st) of
             (Inr service, st) \<Rightarrow> reply X io (RegisterServiceAccepted service) registered sent st
           | (Inl e, st) \<Rightarrow> reply X io (ErrorFrame e) registered sent st)
      | UnregisterService service_id \<Rightarrow>
          (case unregister_service X E service_id (pr_node pr) st of
             (Inl e, st) \<Rightarrow> (LoopError e, registered, sent, st)
           | (Inr _, st) \<Rightarrow> (NextFrame, registered, sent, st))
      | Heartbeat snapshot \<Rightarrow>
          (case record_heartbeat X E (pr_node pr) snapshot st of
             (Inl e, st) \<Rightarrow> (LoopError e, registered, sent, st)
           | (Inr _, st) \<Rightarrow>
               reply X io (HeartbeatAck (hs_sequence snapshot) (now_unix_ms (e_clock E 1))) registered sent st)
      | Goodbye \<Rightarrow> (LoopBreak, registered, sent, st)
      | _ \<Rightarrow> reply X io (ErrorFrame ''unsupported control frame'') registered sent st)"

text \<open>The QUIC loop spells the heartbeat out instead of calling \<open>record_heartbeat\<close>.\<close>

definition quic_frame ::
  "Externals \<Rightarrow> Env \<Rightarrow> bool \<Rightarrow> Peer \<Rightarrow> Principal \<Rightarrow> Frame \<Rightarrow> bool \<Rightarrow> Frame list \<Rightarrow> AppState \<Rightarrow>
     LoopOutcome \<times> bool \<times> Frame list \<times> AppState" where
  "quic_frame X E io peer pr frame registered sent st =
     (case frame of
        RegisterNode metadata public_key \<Rightarrow>
          (case register_node Quic X E peer pr metadata public_key st of
             (Inl e, st) \<Rightarrow> (LoopError e, registered, sent, st)
           | (Inr _, st) \<Rightarrow> (NextFrame, True, sent, st))
      | RegisterService service \<Rightarrow>
          (case (if \<not> registered \<or> sd_node_id service \<noteq> pr_node pr
                 then (Inl ''node must be registered before publishing services'', st)
                 else register_service X E service (pr_node pr) st) of
             (Inr service, st) \<Rightarrow> reply X io (RegisterServiceAccepted service) registered sent st
           | (Inl e, st) \<Rightarrow> reply X io (ErrorFrame e) registered sent st)
      | UnregisterService service_id \<Rightarrow>
          (case unregister_service X E service_id (pr_node pr) st of
             (Inl e, st) \<Rightarrow> (LoopError e, registered, sent, st)
           | (Inr _, st) \<Rightarrow> (NextFrame, registered, sent, st))
      | Heartbeat snapshot \<Rightarrow>
          (let recorded_at = now_unix_ms (e_clock E 0);
               rtt_ms = as_u32 (clamp_i64 0 3600000 (saturating_sub_i64 recorded_at (hs_sent_at snapshot)));
               nodes = bt_adjust (pr_node pr) (\<lambda>node. node\<lparr>nr_status := NodeIsOnline,
                   nr_last_heartbeat_at := Some recorded_at, nr_rtt_ms := Some rtt_ms\<rparr>) (st_nodes st);
               updated_node = bt_get nodes (pr_node pr);
               st = st\<lparr>st_nodes := nodes\<rparr>;
               ack = HeartbeatAck (hs_sequence snapshot) (now_unix_ms (e_clock E 1))
           in case updated_node of
                None \<Rightarrow> reply X io ack registered sent st
              | Some node \<Rightarrow>
                  (case put_node X (e_db E (CallPutNode 0)) node (st_store st) of
                     (Inl e, d) \<Rightarrow> (LoopError e, registered, sent, st\<lparr>st_store := d\<rparr>)
                   | (Inr _, d) \<Rightarrow>
                       (case put_metric X (e_db E CallPutMetric)
                           \<lparr>me_node_id = pr_node pr, me_recorded_at = recorded_at, me_rtt_ms = Some rtt_ms,
                            me_snapshot = snapshot\<rparr> d of
                          (Inl e, d) \<Rightarrow> (LoopError e, registered, sent, st\<lparr>st_store := d\<rparr>)
                        | (Inr _, d) \<Rightarrow> reply X io ack registered sent (st\<lparr>st_store := d\<rparr>))))
      | Goodbye \<Rightarrow> (LoopBreak, registered, sent, st)
      | _ \<Rightarrow> reply X io (ErrorFrame ''unsupported control frame'') registered sent st)"

section \<open>After the loop\<close>

definition session_active :: "Principal \<Rightarrow> AppState \<Rightarrow> bool" where
  "session_active pr st \<longleftrightarrow>
     (case bt_get (st_sessions st) (pr_node pr) of None \<Rightarrow> False | Some current \<Rightarrow> as_id current = pr_session pr)"

definition end_session :: "Externals \<Rightarrow> Env \<Rightarrow> Principal \<Rightarrow> AppState \<Rightarrow> (string + unit) \<times> AppState" where
  "end_session X E pr st =
     (if session_active pr st then
        let st = st\<lparr>st_sessions := bt_remove (pr_node pr) (st_sessions st)\<rparr>;
            st = st\<lparr>st_nodes := bt_adjust (pr_node pr) set_offline (st_nodes st)\<rparr>
        in case bt_get (st_nodes st) (pr_node pr) of
             None \<Rightarrow> (Inr (), st)
           | Some node \<Rightarrow>
               (case put_node X (e_db E (CallPutNode 1)) node (st_store st) of
                  (Inl e, d) \<Rightarrow> (Inl e, st\<lparr>st_store := d\<rparr>)
                | (Inr _, d) \<Rightarrow>
                    (Inr (), record_event X E 1 NodeOffline (Some (pr_node pr)) None None (st\<lparr>st_store := d\<rparr>)))
      else (Inr (), st))"

section \<open>The handshake\<close>

definition yamux_hello :: "Externals \<Rightarrow> ControlInput \<Rightarrow> Frame list \<Rightarrow> Connection" where
  "yamux_hello X i sent =
     (case in_read i of
        Inl e \<Rightarrow> \<lparr>co_phase = Ended (Inl (wire_message e)), co_sent = sent\<rparr>
      | Inr (Hello version) \<Rightarrow>
          if version = PROTOCOL_VERSION then
            (case send_frame X (in_io i) (Hello PROTOCOL_VERSION) sent of
               (Inl e, sent) \<Rightarrow> \<lparr>co_phase = Ended (Inl e), co_sent = sent\<rparr>
             | (Inr _, sent) \<Rightarrow> \<lparr>co_phase = AwaitAuth, co_sent = sent\<rparr>)
          else
            (case send_frame X (in_io i) (ErrorFrame ''unsupported protocol version'') sent of
               (Inl e, sent) \<Rightarrow> \<lparr>co_phase = Ended (Inl e), co_sent = sent\<rparr>
             | (Inr _, sent) \<Rightarrow> \<lparr>co_phase = Ended (Inl ''unsupported protocol version''), co_sent = sent\<rparr>)
      | Inr _ \<Rightarrow> \<lparr>co_phase = Ended (Inl ''expected Hello as first control frame''), co_sent = sent\<rparr>)"

definition yamux_auth :: "Externals \<Rightarrow> ControlInput \<Rightarrow> Frame list \<Rightarrow> AppState \<Rightarrow> Connection" where
  "yamux_auth X i sent st =
     (case in_read i of
        Inl e \<Rightarrow> \<lparr>co_phase = Ended (Inl (wire_message e)), co_sent = sent\<rparr>
      | Inr (Auth token node_id) \<Rightarrow>
          (case authenticate_token X token st of
             None \<Rightarrow>
               (case send_frame X (in_io i) AuthRejected sent of
                  (Inl e, sent) \<Rightarrow> \<lparr>co_phase = Ended (Inl e), co_sent = sent\<rparr>
                | (Inr _, sent) \<Rightarrow> \<lparr>co_phase = Ended (Inl ''client authentication rejected''), co_sent = sent\<rparr>)
           | Some kind \<Rightarrow>
               (case send_frame X (in_io i) (AuthAccepted kind) sent of
                  (Inl e, sent) \<Rightarrow> \<lparr>co_phase = Ended (Inl e), co_sent = sent\<rparr>
                | (Inr _, sent) \<Rightarrow>
                    \<lparr>co_phase = Serving \<lparr>pr_kind = kind, pr_node = node_id,
                       pr_session = UuidId (e_fresh_id (in_env i))\<rparr> False, co_sent = sent\<rparr>))
      | Inr _ \<Rightarrow> \<lparr>co_phase = Ended (Inl ''expected Auth after Hello''), co_sent = sent\<rparr>)"

definition quic_hello :: "Externals \<Rightarrow> ControlInput \<Rightarrow> Frame list \<Rightarrow> Connection" where
  "quic_hello X i sent =
     (case in_read i of
        Inl e \<Rightarrow> \<lparr>co_phase = Ended (Inl (wire_message e)), co_sent = sent\<rparr>
      | Inr (Hello version) \<Rightarrow>
          if version = PROTOCOL_VERSION then
            (case send_frame X (in_io i) (Hello PROTOCOL_VERSION) sent of
               (Inl e, sent) \<Rightarrow> \<lparr>co_phase = Ended (Inl e), co_sent = sent\<rparr>
             | (Inr _, sent) \<Rightarrow> \<lparr>co_phase = AwaitAuth, co_sent = sent\<rparr>)
          else
            (case send_frame X (in_io i) (ErrorFrame ''unsupported protocol version'') sent of
               (Inl e, sent) \<Rightarrow> \<lparr>co_phase = Ended (Inl e), co_sent = sent\<rparr>
             | (Inr _, sent) \<Rightarrow> \<lparr>co_phase = Ended (Inl ''unsupported protocol version''), co_sent = sent\<rparr>)
      | Inr _ \<Rightarrow> \<lparr>co_phase = Ended (Inl ''expected Hello as first control frame''), co_sent = sent\<rparr>)"

definition quic_auth :: "Externals \<Rightarrow> ControlInput \<Rightarrow> Frame list \<Rightarrow> AppState \<Rightarrow> Connection" where
  "quic_auth X i sent st =
     (case in_read i of
        Inl e \<Rightarrow> \<lparr>co_phase = Ended (Inl (wire_message e)), co_sent = sent\<rparr>
      | Inr (Auth token node_id) \<Rightarrow>
          (case authenticate_token X token st of
             None \<Rightarrow>
               (case send_frame X (in_io i) AuthRejected sent of
                  (Inl e, sent) \<Rightarrow> \<lparr>co_phase = Ended (Inl e), co_sent = sent\<rparr>
                | (Inr _, sent) \<Rightarrow> \<lparr>co_phase = Ended (Inl ''client authentication rejected''), co_sent = sent\<rparr>)
           | Some kind \<Rightarrow>
               (case send_frame X (in_io i) (AuthAccepted kind) sent of
                  (Inl e, sent) \<Rightarrow> \<lparr>co_phase = Ended (Inl e), co_sent = sent\<rparr>
                | (Inr _, sent) \<Rightarrow>
                    \<lparr>co_phase = Serving \<lparr>pr_kind = kind, pr_node = node_id,
                       pr_session = UuidId (e_fresh_id (in_env i))\<rparr> False, co_sent = sent\<rparr>))
      | Inr _ \<Rightarrow> \<lparr>co_phase = Ended (Inl ''expected Auth after Hello''), co_sent = sent\<rparr>)"

section \<open>The handlers\<close>

text \<open>Yamux: the loop's result is held back until the session is taken down.\<close>

definition yamux_finish ::
  "Externals \<Rightarrow> Env \<Rightarrow> Principal \<Rightarrow> string + unit \<Rightarrow> Frame list \<Rightarrow> AppState \<Rightarrow> Connection \<times> AppState" where
  "yamux_finish X E pr result sent st =
     (case end_session X E pr st of
        (Inl e, st) \<Rightarrow> (\<lparr>co_phase = Ended (Inl e), co_sent = sent\<rparr>, st)
      | (Inr _, st) \<Rightarrow> (\<lparr>co_phase = Ended result, co_sent = sent\<rparr>, st))"

definition yamux_step ::
  "Externals \<Rightarrow> Peer \<Rightarrow> ControlInput \<Rightarrow> Connection \<Rightarrow> AppState \<Rightarrow> Connection \<times> AppState" where
  "yamux_step X peer i co st =
     (case co_phase co of
        AwaitHello \<Rightarrow> (yamux_hello X i (co_sent co), st)
      | AwaitAuth \<Rightarrow> (yamux_auth X i (co_sent co) st, st)
      | Serving pr registered \<Rightarrow>
          (case in_read i of
             Inl e \<Rightarrow> yamux_finish X (in_env i) pr (Inl (wire_message e)) (co_sent co) st
           | Inr frame \<Rightarrow>
               (case yamux_frame X (in_env i) (in_io i) peer pr frame registered (co_sent co) st of
                  (NextFrame, registered, sent, st) \<Rightarrow> (\<lparr>co_phase = Serving pr registered, co_sent = sent\<rparr>, st)
                | (LoopBreak, _, sent, st) \<Rightarrow> yamux_finish X (in_env i) pr (Inr ()) sent st
                | (LoopError e, _, sent, st) \<Rightarrow> yamux_finish X (in_env i) pr (Inl e) sent st))
      | Ended result \<Rightarrow> (co, st))"

text \<open>QUIC: \<open>?\<close> inside the loop leaves the function, only \<open>break\<close> reaches the end.\<close>

definition quic_finish ::
  "Externals \<Rightarrow> Env \<Rightarrow> Principal \<Rightarrow> Frame list \<Rightarrow> AppState \<Rightarrow> Connection \<times> AppState" where
  "quic_finish X E pr sent st =
     (case end_session X E pr st of
        (r, st) \<Rightarrow> (\<lparr>co_phase = Ended r, co_sent = sent\<rparr>, st))"

definition quic_step ::
  "Externals \<Rightarrow> Peer \<Rightarrow> ControlInput \<Rightarrow> Connection \<Rightarrow> AppState \<Rightarrow> Connection \<times> AppState" where
  "quic_step X peer i co st =
     (case co_phase co of
        AwaitHello \<Rightarrow> (quic_hello X i (co_sent co), st)
      | AwaitAuth \<Rightarrow> (quic_auth X i (co_sent co) st, st)
      | Serving pr registered \<Rightarrow>
          (case in_read i of
             Inl e \<Rightarrow> (\<lparr>co_phase = Ended (Inl (wire_message e)), co_sent = co_sent co\<rparr>, st)
           | Inr frame \<Rightarrow>
               (case quic_frame X (in_env i) (in_io i) peer pr frame registered (co_sent co) st of
                  (NextFrame, registered, sent, st) \<Rightarrow> (\<lparr>co_phase = Serving pr registered, co_sent = sent\<rparr>, st)
                | (LoopBreak, _, sent, st) \<Rightarrow> quic_finish X (in_env i) pr sent st
                | (LoopError e, _, sent, st) \<Rightarrow> (\<lparr>co_phase = Ended (Inl e), co_sent = sent\<rparr>, st)))
      | Ended result \<Rightarrow> (co, st))"

section \<open>Data streams\<close>

text \<open>Outcomes of the calls of \<open>open_client_stream\<close> on the client's connection.\<close>

datatype OpenOutcome = OpenTimedOut | OpenFailed | Opened
datatype AckOutcome = AckTimedOut | AckRead "WireError + Frame"

definition open_client_stream ::
  "Externals \<Rightarrow> ServiceId \<Rightarrow> uuid \<Rightarrow> OpenOutcome \<Rightarrow> bool \<Rightarrow> AckOutcome \<Rightarrow> AppState \<Rightarrow>
     string + (ClientSession \<times> TunnelId)" where
  "open_client_stream X service_id fresh opened io ack st =
     (case bt_get (st_services st) service_id of
        None \<Rightarrow> Inl ''service is no longer registered''
      | Some service \<Rightarrow>
     (case bt_get (st_sessions st) (sd_node_id service) of
        None \<Rightarrow> Inl ''service node is offline''
      | Some session \<Rightarrow>
          let tunnel_id = UuidId fresh;
              name = (case as_connection session of QuicConnection _ \<Rightarrow> ''QUIC'' | YamuxConnection _ \<Rightarrow> ''Yamux'')
          in case opened of
               OpenTimedOut \<Rightarrow> Inl (''timed out while opening '' @ name @ '' client data stream'')
             | OpenFailed \<Rightarrow> Inl (''failed to open '' @ name @ '' client data stream'')
             | Opened \<Rightarrow>
                 (case send_frame X io (OpenStream tunnel_id service_id) [] of
                    (Inl e, _) \<Rightarrow> Inl e
                  | (Inr _, _) \<Rightarrow>
                      (case ack of
                         AckTimedOut \<Rightarrow> Inl ''timed out waiting for local target''
                       | AckRead (Inl e) \<Rightarrow> Inl (wire_message e)
                       | AckRead (Inr (OpenStreamAck a)) \<Rightarrow>
                           if a = tunnel_id then Inr (as_connection session, tunnel_id)
                           else Inl ''client returned an invalid data stream acknowledgement''
                       | AckRead (Inr (ErrorFrame message)) \<Rightarrow> Inl (''client rejected local target: '' @ message)
                       | AckRead (Inr _) \<Rightarrow> Inl ''client returned an invalid data stream acknowledgement''))))"

end
