(* ===== verification/Control_Props.thy ===== *)
theory Control_Props
  imports Control
begin

text \<open>
  Properties of the connection handlers: who gets past the handshake, agreement of the two
  transports, session teardown, the server invariant under every frame, data streams.
\<close>

section \<open>The two loops agree\<close>

lemma quic_heartbeat:
  "quic_frame X E io peer pr (Heartbeat h) registered sent st = yamux_frame X E io peer pr (Heartbeat h) registered sent st"
proof (cases "bt_get (st_nodes st) (pr_node pr)")
  case None
  then show ?thesis
    by (simp add: quic_frame_def yamux_frame_def record_heartbeat_def bt_adjust_def Let_def)
next
  case (Some node)
  obtain r d where p: "put_node X (e_db E (CallPutNode 0)) (node\<lparr>nr_status := NodeIsOnline,
        nr_last_heartbeat_at := Some (now_unix_ms (e_clock E 0)),
        nr_rtt_ms := Some (heartbeat_rtt (now_unix_ms (e_clock E 0)) h)\<rparr>) (st_store st) = (r, d)" by fastforce
  obtain q d' where m: "put_metric X (e_db E CallPutMetric)
      \<lparr>me_node_id = pr_node pr, me_recorded_at = now_unix_ms (e_clock E 0),
       me_rtt_ms = Some (heartbeat_rtt (now_unix_ms (e_clock E 0)) h), me_snapshot = h\<rparr> d = (q, d')" by fastforce
  from Some p m show ?thesis
    by (cases r; cases q)
       (simp_all add: quic_frame_def yamux_frame_def record_heartbeat_def bt_adjust_def Let_def
         heartbeat_rtt_def [symmetric])
qed

lemma quic_frame_yamux:
  assumes "\<And>m k. frame \<noteq> RegisterNode m k"
  shows "quic_frame X E io peer pr frame registered sent st = yamux_frame X E io peer pr frame registered sent st"
proof (cases frame)
  case (Heartbeat h)
  then show ?thesis by (simp add: quic_heartbeat)
qed (use assms in \<open>simp_all add: quic_frame_def yamux_frame_def\<close>)

lemma handshake_agrees: "quic_hello = yamux_hello" "quic_auth = yamux_auth"
  by (intro ext; simp add: quic_hello_def yamux_hello_def quic_auth_def yamux_auth_def)+

text \<open>C21: the two transports speak the same protocol: the handshakes are the same functions, and in the
  loop every frame but a node registration has the same effect on the state, the replies and
  the loop.\<close>

theorem transports_agree:
  "quic_hello X i sent = yamux_hello X i sent \<and> quic_auth X i sent st = yamux_auth X i sent st \<and>
   ((\<exists>m k. frame = RegisterNode m k) \<or>
    quic_frame X E io peer pr frame registered sent st = yamux_frame X E io peer pr frame registered sent st)"
  using quic_frame_yamux handshake_agrees by metis

section \<open>The handshake\<close>

lemma yamux_hello_phase:
  "co_phase (yamux_hello X i sent) = AwaitAuth \<or> (\<exists>r. co_phase (yamux_hello X i sent) = Ended r)"
  by (auto simp: yamux_hello_def split: sum.split Frame.split prod.split)

lemma yamux_auth_Serving:
  "co_phase (yamux_auth X i sent st) = Serving pr registered \<longleftrightarrow>
     (\<exists>token. in_read i = Inr (Auth token (pr_node pr)) \<and> authenticate_token X token st = Some (pr_kind pr) \<and>
        is_ok (fst (send_frame X (in_io i) (AuthAccepted (pr_kind pr)) sent)) \<and>
        pr_session pr = UuidId (e_fresh_id (in_env i)) \<and> \<not> registered)"
  by (cases pr) (auto simp: yamux_auth_def split: sum.splits Frame.splits prod.splits option.splits)

definition handler_step :: "bool \<Rightarrow> Externals \<Rightarrow> Peer \<Rightarrow> ControlInput \<Rightarrow> Connection \<Rightarrow> AppState \<Rightarrow> Connection \<times> AppState" where
  "handler_step quic = (if quic then quic_step else yamux_step)"

lemma handler_step_handshake:
  "co_phase co = AwaitHello \<Longrightarrow> handler_step q X peer i co st = (yamux_hello X i (co_sent co), st)"
  "co_phase co = AwaitAuth \<Longrightarrow> handler_step q X peer i co st = (yamux_auth X i (co_sent co) st, st)"
  "co_phase co = Ended r \<Longrightarrow> handler_step q X peer i co st = (co, st)"
  by (simp_all add: handler_step_def yamux_step_def quic_step_def handshake_agrees)

text \<open>nothing a peer sends before it is authenticated changes the server, on either transport, and a
  connection starts serving only on an Auth frame whose token is the stored one of
  the kind it gets.\<close>

theorem handshake_guards_state:
  assumes "co_phase co = AwaitHello \<or> co_phase co = AwaitAuth"
  shows "snd (handler_step quic X peer i co st) = st \<and>
    (co_phase (fst (handler_step quic X peer i co st)) = Serving pr registered \<longrightarrow>
       co_phase co = AwaitAuth \<and> \<not> registered \<and>
       (\<exists>token. in_read i = Inr (Auth token (pr_node pr)) \<and> authenticate_token X token st = Some (pr_kind pr)))"
  using assms yamux_hello_phase [of X i "co_sent co"]
  by (auto simp: handler_step_handshake yamux_auth_Serving)

section \<open>Every step keeps the server invariant\<close>

lemma register_node_inv:
  assumes "registry_inv st"
  shows "registry_inv (snd (register_node tr X E peer pr m k st))"
  using assms
  by (auto simp: registry_inv_def maps_ok_def register_node_def Let_def case_prod_beta split: sum.split)

lemma end_session_state:
  "st_sessions (snd (end_session X E pr st)) =
     (if session_active pr st then bt_remove (pr_node pr) (st_sessions st) else st_sessions st)"
  "st_nodes (snd (end_session X E pr st)) =
     (if session_active pr st then bt_adjust (pr_node pr) set_offline (st_nodes st) else st_nodes st)"
  "st_services (snd (end_session X E pr st)) = st_services st"
  "st_tcp_ingress_tasks (snd (end_session X E pr st)) = st_tcp_ingress_tasks st"
  by (simp_all add: end_session_def Let_def case_prod_beta split: sum.split option.split)

lemma maps_ok_offline:
  assumes "maps_ok st"
  shows "maps_ok (st\<lparr>st_sessions := bt_remove n (st_sessions st), st_nodes := bt_adjust n set_offline (st_nodes st)\<rparr>)"
  unfolding maps_ok_def
proof (intro conjI allI impI)
  fix i r
  assume "bt_get (st_nodes (st\<lparr>st_sessions := bt_remove n (st_sessions st),
    st_nodes := bt_adjust n set_offline (st_nodes st)\<rparr>)) i = Some r"
  then obtain r0 where "bt_get (st_nodes st) i = Some r0" "nr_node_id r = nr_node_id r0"
    by (auto simp: set_offline_def split: if_splits)
  with assms show "nr_node_id r = i" by (simp add: maps_ok_def)
qed (use assms in \<open>simp_all add: maps_ok_def\<close>)

lemma maps_ok_cong:
  "st_nodes st = st_nodes st' \<Longrightarrow> st_sessions st = st_sessions st' \<Longrightarrow>
     st_tcp_ingress_tasks st = st_tcp_ingress_tasks st' \<Longrightarrow> maps_ok st = maps_ok st'"
  by (simp add: maps_ok_def)

lemma end_session_inv:
  assumes "registry_inv st"
  shows "registry_inv (snd (end_session X E pr st))"
proof (cases "session_active pr st")
  case True
  have "maps_ok (snd (end_session X E pr st)) = maps_ok (st\<lparr>st_sessions := bt_remove (pr_node pr) (st_sessions st),
      st_nodes := bt_adjust (pr_node pr) set_offline (st_nodes st)\<rparr>)"
    using True by (intro maps_ok_cong) (simp_all add: end_session_state)
  with assms maps_ok_offline show ?thesis
    by (simp add: registry_inv_def end_session_state)
qed (use assms in \<open>simp add: end_session_def\<close>)

lemma reply_state [simp]: "snd (snd (snd (reply X io f registered sent st))) = st"
  by (simp add: reply_def case_prod_beta split: sum.split)

lemma frame_inv:
  assumes "registry_inv st"
  shows "registry_inv (snd (snd (snd (yamux_frame X E io peer pr frame registered sent st))))"
    and "registry_inv (snd (snd (snd (quic_frame X E io peer pr frame registered sent st))))"
proof -
  show yamux: "registry_inv (snd (snd (snd (yamux_frame X E io peer pr frame registered sent st))))"
    using register_node_inv [OF assms] register_service_inv [OF assms] unregister_service_inv [OF assms]
      record_heartbeat_inv [OF assms] assms
    by (cases frame) (simp_all add: yamux_frame_def case_prod_beta split: sum.split)
  show "registry_inv (snd (snd (snd (quic_frame X E io peer pr frame registered sent st))))"
  proof (cases "\<exists>m k. frame = RegisterNode m k")
    case True
    then show ?thesis
      using register_node_inv [OF assms] by (auto simp: quic_frame_def case_prod_beta split: sum.split)
  next
    case False
    then show ?thesis using yamux quic_frame_yamux by metis
  qed
qed

lemma handler_step_inv:
  assumes "registry_inv st"
  shows "registry_inv (snd (handler_step quic X peer i co st))"
proof (cases "co_phase co")
  case (Serving pr registered)
  note frame = frame_inv [OF assms, of X "in_env i" "in_io i" peer pr _ registered "co_sent co"]
  note fin = end_session_inv [of _ X "in_env i" pr]
  have "registry_inv (snd (yamux_step X peer i co st))" "registry_inv (snd (quic_step X peer i co st))"
    using Serving frame fin assms
    by (simp_all add: yamux_step_def quic_step_def yamux_finish_def quic_finish_def case_prod_beta
        split: sum.split LoopOutcome.split)
  then show ?thesis by (simp add: handler_step_def)
qed (use assms in \<open>simp_all add: handler_step_handshake\<close>)

section \<open>Teardown\<close>

lemma session_active_iff:
  "session_active pr st \<longleftrightarrow> (\<exists>s. bt_get (st_sessions st) (pr_node pr) = Some s \<and> as_id s = pr_session pr)"
  by (auto simp: session_active_def split: option.splits)

lemma end_session_inactive: "\<not> session_active pr (snd (end_session X E pr st))"
proof (cases "session_active pr st")
  case True
  then show ?thesis by (simp add: session_active_iff end_session_state)
next
  case False
  then show ?thesis by (simp add: end_session_def)
qed

lemma yamux_ends_by_finish:
  assumes "co_phase co = Serving pr registered" and "co_phase (fst (yamux_step X peer i co st)) = Ended r"
  obtains result sent st0 where "yamux_step X peer i co st = yamux_finish X (in_env i) pr result sent st0"
    and "\<And>n. n \<noteq> pr_node pr \<Longrightarrow> bt_get (st_sessions st0) n = bt_get (st_sessions st) n"
proof (cases "in_read i")
  case (Inl e)
  then show thesis using assms(1) by (intro that) (auto simp: yamux_step_def)
next
  case (Inr frame)
  obtain out reg sent st0 where f: "yamux_frame X (in_env i) (in_io i) peer pr frame registered (co_sent co) st = (out, reg, sent, st0)"
    by (metis prod_cases4)
  have st0: "st0 = snd (snd (snd (yamux_frame X (in_env i) (in_io i) peer pr frame registered (co_sent co) st)))"
    using f by simp
  have sess: "bt_get (st_sessions st0) n = bt_get (st_sessions st) n" if "n \<noteq> pr_node pr" for n
    unfolding st0 using that
    by (cases frame) (simp_all add: yamux_frame_def case_prod_beta register_node_def Let_def split: sum.split)
  show thesis
    using assms Inr f sess by (cases out) (auto simp: yamux_step_def intro: that)
qed

text \<open>however a serving Yamux connection ends (goodbye, lost connection, rejected frame, failed
  write or database error), its own session is gone afterwards, and no other node's
  session is touched.\<close>

theorem yamux_always_ends_session:
  assumes "co_phase co = Serving pr registered" and "co_phase (fst (yamux_step X peer i co st)) = Ended r"
  shows "\<not> session_active pr (snd (yamux_step X peer i co st)) \<and>
    (\<forall>n. n \<noteq> pr_node pr \<longrightarrow>
       bt_get (st_sessions (snd (yamux_step X peer i co st))) n = bt_get (st_sessions st) n)"
  using assms
proof (rule yamux_ends_by_finish)
  fix result sent st0
  assume step: "yamux_step X peer i co st = yamux_finish X (in_env i) pr result sent st0"
    and other: "\<And>n. n \<noteq> pr_node pr \<Longrightarrow> bt_get (st_sessions st0) n = bt_get (st_sessions st) n"
  have "snd (yamux_finish X (in_env i) pr result sent st0) = snd (end_session X (in_env i) pr st0)"
    by (simp add: yamux_finish_def case_prod_beta split: sum.split)
  with step other show ?thesis
    by (simp add: end_session_inactive end_session_state)
qed

text \<open>a connection that was replaced does not take down its successor: when another session id
  holds the node, teardown changes nothing.\<close>

theorem end_session_keeps_successor:
  "(if \<exists>s. bt_get (st_sessions st) (pr_node pr) = Some s \<and> as_id s = pr_session pr
    then bt_get (st_sessions (snd (end_session X E pr st))) (pr_node pr) = None \<and>
      bt_get (st_nodes (snd (end_session X E pr st))) (pr_node pr) =
        map_option set_offline (bt_get (st_nodes st) (pr_node pr))
    else end_session X E pr st = (Inr (), st))"
  by (simp add: session_active_iff [symmetric] end_session_state) (simp add: end_session_def)

text \<open>a QUIC connection that is lost without a goodbye ends without teardown: the session stays
  registered and the node stays online.\<close>

theorem quic_lost_connection_leaves_session:
  assumes "co_phase co = Serving pr registered" and "in_read i = Inl e"
  shows "co_phase (fst (quic_step X peer i co st)) = Ended (Inl (wire_message e)) \<and>
    snd (quic_step X peer i co st) = st"
  using assms by (simp add: quic_step_def)

section \<open>What a client may publish and take\<close>

lemma frame_of_step:
  assumes "co_phase co = Serving pr registered" and "in_read i = Inr frame"
    and "\<And>m k. frame \<noteq> RegisterNode m k" and "frame \<noteq> Goodbye"
    and "yamux_frame X (in_env i) (in_io i) peer pr frame registered (co_sent co) st = (NextFrame, reg, sent, st')"
  shows "handler_step quic X peer i co st = (\<lparr>co_phase = Serving pr reg, co_sent = sent\<rparr>, st')"
  using assms quic_frame_yamux [OF assms(3)]
  by (simp add: handler_step_def yamux_step_def quic_step_def)

text \<open>over either transport a client can publish a service only after it registered its node and
  only under that node's id; otherwise the state is untouched and it is told so.\<close>

theorem publishing_needs_registration:
  assumes "co_phase co = Serving pr registered" and "in_read i = Inr (RegisterService service)"
    and "\<not> registered \<or> sd_node_id service \<noteq> pr_node pr"
    and "to_allocvec (x_frame X) (ErrorFrame ''node must be registered before publishing services'') = Inr p"
    and "length p \<le> 1024 * 1024" and "in_io i"
  shows "handler_step quic X peer i co st =
    (co\<lparr>co_sent := co_sent co @ [ErrorFrame ''node must be registered before publishing services'']\<rparr>, st)"
proof -
  have "send_frame X (in_io i) (ErrorFrame ''node must be registered before publishing services'') (co_sent co) =
      (Inr (), co_sent co @ [ErrorFrame ''node must be registered before publishing services''])"
    using assms(4-6) by (simp add: send_frame_def write_control_frame_def encode_frame_def MAX_FRAME_SIZE_def)
  then have "yamux_frame X (in_env i) (in_io i) peer pr (RegisterService service) registered (co_sent co) st =
      (NextFrame, registered, co_sent co @ [ErrorFrame ''node must be registered before publishing services''], st)"
    using assms(3) by (auto simp: yamux_frame_def reply_def)
  from frame_of_step [OF assms(1,2) _ _ this] show ?thesis
    using assms(1) by (cases co) simp
qed

text \<open>removal has no such gate: a client that authenticated with any token and merely claimed a
  node id, without registering and so without showing the node's key, takes that node's
  services out of the directory.\<close>

theorem removal_needs_no_registration:
  assumes "co_phase co = Serving pr False" and "in_read i = Inr (UnregisterService service_id)"
    and "bt_get (st_services st) service_id = Some service" and "sd_node_id service = pr_node pr"
    and "st' = snd (handler_step quic X peer i co st)"
  shows "bt_get (st_services st') service_id = None"
proof -
  let ?u = "unregister_service X (in_env i) service_id (pr_node pr) st"
  have gone: "bt_get (st_services (snd ?u)) service_id = None"
    using assms(3,4) by (simp add: unregister_service_def Let_def case_prod_beta split: option.split sum.split)
  have frame: "yamux_frame X (in_env i) (in_io i) peer pr (UnregisterService service_id) False (co_sent co) st =
      (case ?u of (Inl e, st) \<Rightarrow> (LoopError e, False, co_sent co, st)
       | (Inr _, st) \<Rightarrow> (NextFrame, False, co_sent co, st))"
    by (simp add: yamux_frame_def)
  note same = quic_frame_yamux [of "UnregisterService service_id"]
  show ?thesis
  proof (cases "fst ?u")
    case (Inl e)
    then have "?u = (Inl e, snd ?u)" by (metis prod.collapse)
    then have "yamux_frame X (in_env i) (in_io i) peer pr (UnregisterService service_id) False (co_sent co) st =
        (LoopError e, False, co_sent co, snd ?u)" unfolding frame by (metis (no_types, lifting) case_prod_conv sum.case(1))
    with assms(1,2) same
    have "st_services (snd (handler_step quic X peer i co st)) = st_services (snd ?u)"
      by (simp add: handler_step_def yamux_step_def quic_step_def yamux_finish_def case_prod_beta
          end_session_state split: sum.split)
    with gone assms(5) show ?thesis by simp
  next
    case (Inr u)
    then have "?u = (Inr (), snd ?u)" by (metis prod.collapse old.unit.exhaust)
    then have "yamux_frame X (in_env i) (in_io i) peer pr (UnregisterService service_id) False (co_sent co) st =
        (NextFrame, False, co_sent co, snd ?u)" unfolding frame by (metis (no_types, lifting) case_prod_conv sum.case(2))
    from frame_of_step [OF assms(1,2) _ _ this] gone assms(5) show ?thesis by simp
  qed
qed

text \<open>revocation stops at the session table: a connection that authenticated before its token kind was
  revoked but had not registered yet still gets a live session of the revoked kind.\<close>

theorem revoked_kind_can_still_register:
  assumes "co_phase co = Serving pr registered" and "in_read i = Inr (RegisterNode metadata key)"
    and "metadata_validate (nm_metadata metadata) = Inr ()"
    and "validate_node_identity (pr_node pr) key st = Inr ()"
    and "st_tokens st = token_set tokens (pr_kind pr) None"
  shows "\<exists>s. bt_get (st_sessions (snd (quic_step X peer i co st))) (pr_node pr) = Some s \<and>
    as_token_kind s = pr_kind pr \<and> as_connection s = pe_session peer \<and>
    authenticate_token X token (snd (quic_step X peer i co st)) \<noteq> Some (pr_kind pr)"
proof -
  have "st_sessions (snd (quic_step X peer i co st)) =
      bt_insert (pr_node pr) \<lparr>as_id = pr_session pr, as_token_kind = pr_kind pr, as_connection = pe_session peer\<rparr> (st_sessions st)"
    and "st_tokens (snd (quic_step X peer i co st)) = st_tokens st"
    using assms(1-4)
    by (simp_all add: quic_step_def quic_frame_def register_node_def Let_def case_prod_beta split: sum.split)
  then show ?thesis
    using assms(5)
    by (cases "pr_kind pr") (auto simp: authenticate_token_def token_authenticate_def token_set_def split: option.splits)
qed

text \<open>A second node registration on a connection is told apart from a takeover by nothing: the handler
  closes the connection it is serving.\<close>

lemma second_registration_closes_itself:
  assumes "session_active pr st" and "bt_get (st_sessions st) (pr_node pr) = Some s"
    and "as_connection s = pe_session peer"
    and "metadata_validate (nm_metadata metadata) = Inr ()" and "validate_node_identity (pr_node pr) key st = Inr ()"
  shows "CloseConnection (pe_session peer) \<in> set (st_effects (snd (register_node tr X E peer pr metadata key st))) \<and>
    session_active pr (snd (register_node tr X E peer pr metadata key st))"
proof -
  have "st_sessions (snd (register_node tr X E peer pr metadata key st)) =
      bt_insert (pr_node pr) \<lparr>as_id = pr_session pr, as_token_kind = pr_kind pr, as_connection = pe_session peer\<rparr> (st_sessions st)"
    using assms(4,5) by (simp add: register_node_def Let_def case_prod_beta split: sum.split)
  moreover have "CloseConnection (pe_session peer) \<in> set (st_effects (snd (register_node tr X E peer pr metadata key st)))"
    using assms by (simp add: register_node_def Let_def case_prod_beta activate_session_def close_session_def split: sum.split)
  ultimately show ?thesis by (simp add: session_active_iff)
qed

section \<open>Data streams\<close>

text \<open>a visitor is connected only through the current session of the node that owns the service, and
  only when the client acknowledged this very tunnel.\<close>

theorem open_client_stream_routes:
  "(open_client_stream X service_id fresh opened io ack st = Inr (c, tunnel)) =
     (\<exists>service session.
        bt_get (st_services st) service_id = Some service \<and>
        bt_get (st_sessions st) (sd_node_id service) = Some session \<and> c = as_connection session \<and>
        tunnel = UuidId fresh \<and> opened = Opened \<and> ack = AckRead (Inr (OpenStreamAck tunnel)) \<and>
        is_ok (fst (send_frame X io (OpenStream tunnel service_id) [])))"
  by (auto simp: open_client_stream_def Let_def split: option.splits OpenOutcome.splits AckOutcome.splits
      prod.splits sum.splits Frame.splits if_splits)

section \<open>Witnesses\<close>

definition sample_peer :: Peer where
  "sample_peer = \<lparr>pe_ip = ''10.0.0.1'', pe_port = 4000, pe_session = QuicConnection 1\<rparr>"

definition sample_principal :: Principal where
  "sample_principal = \<lparr>pr_kind = User, pr_node = sample_node, pr_session = UuidId 3\<rparr>"

definition serving :: "bool \<Rightarrow> Connection" where
  "serving registered = \<lparr>co_phase = Serving sample_principal registered, co_sent = []\<rparr>"

definition reading :: "WireError + Frame \<Rightarrow> ControlInput" where
  "reading r = \<lparr>in_read = r, in_io = True, in_env = sample_env\<rparr>"

lemma serving_phase [simp]: "co_phase (serving r) = Serving sample_principal r"
  by (simp add: serving_def)

lemma reading_read [simp]: "in_read (reading r) = r"
  by (simp add: reading_def)

lemma sample_session:
  "bt_get (st_sessions sample_state) sample_node =
     Some \<lparr>as_id = UuidId 3, as_token_kind = User, as_connection = QuicConnection 1\<rparr>"
  by (simp add: sample_state_def bt_get_def)

lemma sample_session_active: "session_active sample_principal sample_state"
  by (simp add: session_active_iff sample_principal_def sample_session)

theorem handshake_guards_state_witness:
  "snd (handler_step True sample_externals sample_peer (reading (Inr (Auth ''t'' sample_node)))
     \<lparr>co_phase = AwaitAuth, co_sent = []\<rparr> sample_state) = sample_state"
  using handshake_guards_state [of "\<lparr>co_phase = AwaitAuth, co_sent = []\<rparr>"] by simp

theorem yamux_always_ends_session_witness:
  "\<not> session_active sample_principal
     (snd (yamux_step sample_externals sample_peer (reading (Inl LengthUnread)) (serving True) sample_state))"
proof -
  have "\<exists>r. co_phase (fst (yamux_step sample_externals sample_peer (reading (Inl LengthUnread)) (serving True) sample_state)) = Ended r"
    by (simp add: yamux_step_def yamux_finish_def case_prod_beta split: sum.split)
  then obtain r where "co_phase (fst (yamux_step sample_externals sample_peer (reading (Inl LengthUnread)) (serving True) sample_state)) = Ended r" ..
  from yamux_always_ends_session [OF serving_phase this] show ?thesis by blast
qed

theorem quic_lost_connection_leaves_session_witness:
  "session_active sample_principal
     (snd (quic_step sample_externals sample_peer (reading (Inl LengthUnread)) (serving True) sample_state))"
  using quic_lost_connection_leaves_session [OF serving_phase reading_read, where X = sample_externals and peer = sample_peer]
    sample_session_active by simp

lemma reading_io [simp]: "in_io (reading r)"
  by (simp add: reading_def)

theorem publishing_needs_registration_witness:
  "\<exists>X. handler_step False X sample_peer (reading (Inr (RegisterService sample_service))) (serving False) sample_state =
     (serving False\<lparr>co_sent := [ErrorFrame ''node must be registered before publishing services'']\<rparr>, sample_state)"
proof -
  define f where "f = ErrorFrame ''node must be registered before publishing services''"
  let ?X = "sample_externals\<lparr>x_frame := listed [f]\<rparr>"
  have p: "to_allocvec (x_frame ?X) f = Inr [1]" by (simp add: listed_def)
  have "handler_step False ?X sample_peer (reading (Inr (RegisterService sample_service))) (serving False) sample_state =
     (serving False\<lparr>co_sent := co_sent (serving False) @ [f]\<rparr>, sample_state)"
    unfolding f_def
    by (rule publishing_needs_registration [OF serving_phase reading_read _ p [unfolded f_def]]) simp_all
  moreover have "co_sent (serving False) = []" by (simp add: serving_def)
  ultimately show ?thesis unfolding f_def by auto
qed

theorem removal_needs_no_registration_witness:
  "bt_get (st_services (snd (handler_step True sample_externals sample_peer
     (reading (Inr (UnregisterService (UuidId 2)))) (serving False) listening_state))) (UuidId 2) = None"
  by (rule removal_needs_no_registration [OF serving_phase reading_read _ _ refl, where service = sample_service])
    (simp_all add: listening_state_def bt_get_def sample_service_def sample_principal_def)

definition revoked_state :: AppState where
  "revoked_state = sample_state\<lparr>st_tokens := token_set sample_tokens User None\<rparr>"

theorem revoked_kind_can_still_register_witness:
  "\<exists>s. bt_get (st_sessions (snd (quic_step sample_externals sample_peer
       (reading (Inr (RegisterNode (nr_metadata sample_record) [9]))) (serving False) revoked_state))) sample_node = Some s \<and>
     as_token_kind s = User"
proof -
  have "metadata_validate [] = Inr ()" by code_simp
  then have valid: "metadata_validate (nm_metadata (nr_metadata sample_record)) = Inr ()"
    by (simp add: sample_record_def)
  have identity: "validate_node_identity (pr_node sample_principal) [9] revoked_state = Inr ()"
    by (simp add: validate_node_identity_def revoked_state_def sample_state_def bt_get_def sample_record_def
        sample_principal_def)
  have pr: "pr_kind sample_principal = User" "pr_node sample_principal = sample_node"
    by (simp_all add: sample_principal_def)
  then have tokens: "st_tokens revoked_state = token_set sample_tokens (pr_kind sample_principal) None"
    by (simp add: revoked_state_def)
  from revoked_kind_can_still_register [OF serving_phase reading_read valid identity tokens,
      where X = sample_externals and peer = sample_peer]
  show ?thesis unfolding pr by blast
qed

end
