(* ===== verification/Api.thy ===== *)
theory Api
  imports Control_Props
begin

text \<open>
  The control API: \<open>api_handler\<close> of \<open>crates/ongrok-relay-server/src/server.rs\<close> with
  the request and response shapes of \<open>api_models.rs\<close>. A response is a status and the value
  that is serialised; the JSON decoders of the request bodies are parameters.
\<close>

section \<open>Requests and responses\<close>

datatype Method = GET | POST | PATCH | DELETE | OtherMethod string

text \<open>
  \<open>rq_authorization\<close>: the first Authorization header when it is visible ASCII.
  \<open>rq_body\<close>: what \<open>collect\<close> gives, an error or the bytes.
\<close>

record Request =
  rq_method :: Method
  rq_path :: string
  rq_authorization :: "string option"
  rq_body :: "string + bytes"

record ServiceCreateRequest =
  cr_service_name :: string
  cr_node_id :: NodeId
  cr_protocol :: Protocol
  cr_local_address :: string
  cr_public_port :: "u16 option"
  cr_metadata :: Metadata

record ServicePatchRequest =
  pa_metadata :: "Metadata option"

record ServiceView =
  sv_service :: ServiceDefinition
  sv_status :: ServiceStatus
  sv_transport :: "TransportKind option"
  sv_last_heartbeat_at :: "int option"
  sv_rtt_ms :: "u32 option"

text \<open>\<open>serde_json::from_slice\<close> at the three request types.\<close>

record Decoders =
  js_token_mutation :: "bytes \<Rightarrow> string + TokenKind"
  js_service_create :: "bytes \<Rightarrow> string + ServiceCreateRequest"
  js_service_patch :: "bytes \<Rightarrow> string + ServicePatchRequest"

datatype ResponseBody =
    ErrorResponse string
  | TokenRotationResponse string string
  | TokenRevocationResponse string bool
  | EventsResponse "ControlEvent list"
  | NodesResponse "NodeRecord list"
  | NodeResponse NodeRecord
  | MetricsResponse "NodeMetric list"
  | ServiceResponse ServiceDefinition
  | ServiceViewResponse ServiceView
  | ServicesResponse "ServiceView list"
  | DeletedResponse bool ServiceId
  | HealthResponse string
  | AuthResponse string "string list" string

record Response =
  rs_status :: nat
  rs_body :: ResponseBody

text \<open>The shapes have string keys and derived serializers, so \<open>serde_json::to_vec\<close> does not fail.\<close>

definition json :: "nat \<Rightarrow> ResponseBody \<Rightarrow> Response" where
  "json status value = \<lparr>rs_status = status, rs_body = value\<rparr>"

definition error_json :: "nat \<Rightarrow> string \<Rightarrow> Response" where
  "error_json status message = json status (ErrorResponse message)"

definition MAX_API_BODY_BYTES :: nat where
  "MAX_API_BODY_BYTES = 16 * 1024"

definition into_definition :: "uuid \<Rightarrow> ServiceCreateRequest \<Rightarrow> ServiceDefinition" where
  "into_definition fresh r =
     \<lparr>sd_service_id = UuidId fresh, sd_service_name = cr_service_name r, sd_node_id = cr_node_id r,
      sd_protocol = cr_protocol r, sd_local_address = cr_local_address r, sd_public_host = None,
      sd_public_port = cr_public_port r, sd_metadata = cr_metadata r\<rparr>"

definition token_kind_name :: "TokenKind \<Rightarrow> string" where
  "token_kind_name kind = (case kind of Admin \<Rightarrow> ''admin'' | User \<Rightarrow> ''user'')"

definition token_mutation_request :: "Decoders \<Rightarrow> string + bytes \<Rightarrow> string + TokenKind" where
  "token_mutation_request J body =
     (case body of
        Inl _ \<Rightarrow> Inl ''failed to read token mutation request''
      | Inr bytes \<Rightarrow>
          if length bytes > MAX_API_BODY_BYTES then Inl ''token mutation request is too large''
          else map_error (\<lambda>_. ''failed to decode token mutation request'') (js_token_mutation J bytes))"

section \<open>Token routes\<close>

text \<open>\<open>raw\<close>: what the random number generator gives \<open>generate_token\<close>.\<close>

definition token_route ::
  "Externals \<Rightarrow> Decoders \<Rightarrow> Env \<Rightarrow> bytes \<Rightarrow> Request \<Rightarrow> AppState \<Rightarrow> Response \<times> AppState" where
  "token_route X J E raw request st =
     (if authenticate X (rq_authorization request) st \<noteq> Some Admin
      then (error_json 401 ''admin bearer token required'', st)
      else case token_mutation_request J (rq_body request) of
        Inl _ \<Rightarrow> (error_json 400 ''invalid token mutation request'', st)
      | Inr kind \<Rightarrow>
          if rq_path request = ''/v1/admin/tokens/rotate'' then
            (case generate_token (x_blake3 X) raw kind of
               (token, hash) \<Rightarrow>
                 (case replace_token X E kind (Some hash) st of
                    (Inl _, st) \<Rightarrow> (error_json 500 ''failed to rotate token'', st)
                  | (Inr _, st) \<Rightarrow>
                      (json 200 (TokenRotationResponse (token_kind_name kind) token),
                       record_event X E 0 TokenRotated None None (Some kind) st)))
          else
            (case replace_token X E kind None st of
               (Inl _, st) \<Rightarrow> (error_json 500 ''failed to revoke token'', st)
             | (Inr _, st) \<Rightarrow>
                 (json 200 (TokenRevocationResponse (token_kind_name kind) True),
                  record_event X E 0 TokenRevoked None None (Some kind) st)))"

section \<open>Reading routes\<close>

definition events_route :: "Externals \<Rightarrow> Env \<Rightarrow> Request \<Rightarrow> AppState \<Rightarrow> Response" where
  "events_route X E request st =
     (case authenticate X (rq_authorization request) st of
        Some _ \<Rightarrow>
          (case recent_events X (e_db E CallRecentEvents) 200 (st_store st) of
             Inr events \<Rightarrow> json 200 (EventsResponse events)
           | Inl _ \<Rightarrow> error_json 500 ''failed to load events'')
      | None \<Rightarrow> error_json 401 ''invalid bearer token'')"

definition nodes_route :: "Externals \<Rightarrow> Request \<Rightarrow> AppState \<Rightarrow> Response" where
  "nodes_route X request st =
     (case authenticate X (rq_authorization request) st of
        Some _ \<Rightarrow> json 200 (NodesResponse (bt_values (st_nodes st)))
      | None \<Rightarrow> error_json 401 ''invalid bearer token'')"

definition node_route :: "Externals \<Rightarrow> Env \<Rightarrow> Request \<Rightarrow> AppState \<Rightarrow> Response" where
  "node_route X E request st =
     (let suffix = drop (length ''/v1/nodes/'') (rq_path request);
          (node_key, metrics) = (case strip_suffix suffix ''/metrics'' of
            None \<Rightarrow> (suffix, False) | Some node_key \<Rightarrow> (node_key, True))
      in case authenticate X (rq_authorization request) st of
           Some _ \<Rightarrow>
             (case find (\<lambda>node. id_string X (nr_node_id node) = node_key) (bt_values (st_nodes st)) of
                Some node \<Rightarrow>
                  if metrics then
                    (case metrics_for_node X (e_db E CallMetricsForNode) (nr_node_id node) (st_store st) of
                       Inr metrics \<Rightarrow> json 200 (MetricsResponse metrics)
                     | Inl _ \<Rightarrow> error_json 500 ''failed to load node metrics'')
                  else json 200 (NodeResponse node)
              | None \<Rightarrow> error_json 404 ''node not found'')
         | None \<Rightarrow> error_json 401 ''invalid bearer token'')"

definition service_view :: "(NodeId, NodeRecord) btree \<Rightarrow> ServiceDefinition \<Rightarrow> ServiceView" where
  "service_view nodes service =
     (let node = bt_get nodes (sd_node_id service) in
      \<lparr>sv_service = service,
       sv_status = (if (case node of None \<Rightarrow> False | Some n \<Rightarrow> nr_status n = NodeIsOnline)
         then ServiceOnline else ServiceOffline),
       sv_transport = map_option nr_transport node,
       sv_last_heartbeat_at = Option.bind node nr_last_heartbeat_at,
       sv_rtt_ms = Option.bind node nr_rtt_ms\<rparr>)"

section \<open>Service routes\<close>

definition service_create_route ::
  "Externals \<Rightarrow> Decoders \<Rightarrow> Env \<Rightarrow> Request \<Rightarrow> AppState \<Rightarrow> Response \<times> AppState" where
  "service_create_route X J E request st =
     (if authenticate X (rq_authorization request) st = None
      then (error_json 401 ''invalid bearer token'', st)
      else case rq_body request of
        Inl _ \<Rightarrow> (error_json 400 ''invalid service request'', st)
      | Inr bytes \<Rightarrow>
          if length bytes > MAX_API_BODY_BYTES then (error_json 413 ''service request is too large'', st)
          else case js_service_create J bytes of
            Inl _ \<Rightarrow> (error_json 400 ''invalid service request'', st)
          | Inr create \<Rightarrow>
              (case map_option nr_status (bt_get (st_nodes st) (cr_node_id create)) of
                 None \<Rightarrow> (error_json 404 ''node not found'', st)
               | Some node_status \<Rightarrow>
                   if node_status \<noteq> NodeIsOnline then (error_json 409 ''node is offline'', st)
                   else
                     (case register_service X E (into_definition (e_fresh_id E) create) (cr_node_id create) st of
                        (Inr service, st) \<Rightarrow> (json 201 (ServiceResponse service), st)
                      | (Inl _, st) \<Rightarrow> (error_json 400 ''service could not be created'', st))))"

definition service_get :: "ServiceId \<Rightarrow> AppState \<Rightarrow> Response" where
  "service_get service_id st =
     (case bt_get (st_services st) service_id of
        Some service \<Rightarrow> json 200 (ServiceViewResponse (service_view (st_nodes st) service))
      | None \<Rightarrow> error_json 404 ''service not found'')"

definition service_delete :: "Externals \<Rightarrow> Env \<Rightarrow> ServiceId \<Rightarrow> AppState \<Rightarrow> Response \<times> AppState" where
  "service_delete X E service_id st =
     (case bt_get (st_services st) service_id of
        None \<Rightarrow> (error_json 404 ''service not found'', st)
      | Some service \<Rightarrow>
          let st = st\<lparr>st_services := bt_remove service_id (st_services st)\<rparr>;
              st = (case bt_get (st_tcp_ingress_tasks st) service_id of
                None \<Rightarrow> st
              | Some task \<Rightarrow> emit [AbortIngress task]
                  (st\<lparr>st_tcp_ingress_tasks := bt_remove service_id (st_tcp_ingress_tasks st)\<rparr>))
          in case delete_service X (e_db E CallDeleteService) service_id (st_store st) of
               (Inr _, d) \<Rightarrow>
                 (json 200 (DeletedResponse True service_id),
                  record_event X E 0 ServiceDeleted (Some (sd_node_id service)) (Some service_id) None
                    (st\<lparr>st_store := d\<rparr>))
             | (Inl _, d) \<Rightarrow> (error_json 500 ''failed to delete service'', st\<lparr>st_store := d\<rparr>))"

definition service_patch ::
  "Externals \<Rightarrow> Decoders \<Rightarrow> Env \<Rightarrow> ServiceId \<Rightarrow> Request \<Rightarrow> AppState \<Rightarrow> Response \<times> AppState" where
  "service_patch X J E service_id request st =
     (case rq_body request of
        Inl _ \<Rightarrow> (error_json 400 ''invalid service patch request'', st)
      | Inr bytes \<Rightarrow>
          if length bytes > MAX_API_BODY_BYTES then (error_json 413 ''service patch request is too large'', st)
          else case js_service_patch J bytes of
            Inl _ \<Rightarrow> (error_json 400 ''invalid service patch request'', st)
          | Inr patch \<Rightarrow>
              (case pa_metadata patch of
                 None \<Rightarrow> (error_json 400 ''metadata is required'', st)
               | Some metadata \<Rightarrow>
                   (case metadata_validate metadata of
                      Inl _ \<Rightarrow> (error_json 400 ''invalid service metadata'', st)
                    | Inr _ \<Rightarrow>
                        (case bt_get (st_services st) service_id of
                           None \<Rightarrow> (error_json 404 ''service not found'', st)
                         | Some service \<Rightarrow>
                             let updated = service\<lparr>sd_metadata := metadata\<rparr>;
                                 st = st\<lparr>st_services := bt_insert service_id updated (st_services st)\<rparr>
                             in case put_service X (e_db E CallPutService) updated (st_store st) of
                                  (Inl _, d) \<Rightarrow> (error_json 500 ''failed to update service'', st\<lparr>st_store := d\<rparr>)
                                | (Inr _, d) \<Rightarrow>
                                    (json 200 (ServiceViewResponse (service_view (st_nodes st) updated)),
                                     st\<lparr>st_store := d\<rparr>)))))"

text \<open>\<open>None\<close>: the method is none of the three and the request falls through to the last table.\<close>

definition service_item_route ::
  "Externals \<Rightarrow> Decoders \<Rightarrow> Env \<Rightarrow> string \<Rightarrow> Request \<Rightarrow> AppState \<Rightarrow> (Response \<times> AppState) option" where
  "service_item_route X J E service_key request st =
     (case x_parse_uuid X service_key of
        None \<Rightarrow> Some (error_json 400 ''invalid service id'', st)
      | Some u \<Rightarrow>
          if authenticate X (rq_authorization request) st = None
          then Some (error_json 401 ''invalid bearer token'', st)
          else case rq_method request of
            GET \<Rightarrow> Some (service_get (UuidId u) st, st)
          | DELETE \<Rightarrow> Some (service_delete X E (UuidId u) st)
          | PATCH \<Rightarrow> Some (service_patch X J E (UuidId u) request st)
          | _ \<Rightarrow> None)"

section \<open>The remaining routes and the handler\<close>

definition services_route :: "Externals \<Rightarrow> Request \<Rightarrow> AppState \<Rightarrow> Response" where
  "services_route X request st =
     (case authenticate X (rq_authorization request) st of
        Some _ \<Rightarrow> json 200 (ServicesResponse (map (service_view (st_nodes st)) (bt_values (st_services st))))
      | None \<Rightarrow> error_json 401 ''invalid bearer token'')"

definition auth_route :: "Externals \<Rightarrow> Request \<Rightarrow> AppState \<Rightarrow> Response" where
  "auth_route X request st =
     (case authenticate X (rq_authorization request) st of
        Some Admin \<Rightarrow> json 200 (AuthResponse ''admin''
          [''services:read'', ''services:write'', ''nodes:read'', ''tokens:write''] ''ongrok'')
      | Some User \<Rightarrow> json 200 (AuthResponse ''user''
          [''services:read'', ''services:write'', ''nodes:read''] ''ongrok'')
      | None \<Rightarrow> error_json 401 ''invalid bearer token'')"

definition other_routes :: "Externals \<Rightarrow> Request \<Rightarrow> AppState \<Rightarrow> Response" where
  "other_routes X request st =
     (if rq_method request = GET \<and> (rq_path request = ''/healthz'' \<or> rq_path request = ''/readyz'')
      then json 200 (HealthResponse ''ok'')
      else if rq_method request = POST \<and> rq_path request = ''/v1/auth/validate'' then auth_route X request st
      else if rq_method request = GET \<and> rq_path request = ''/v1/services'' then services_route X request st
      else error_json 404 ''route not found'')"

definition api_handler ::
  "Externals \<Rightarrow> Decoders \<Rightarrow> Env \<Rightarrow> bytes \<Rightarrow> Request \<Rightarrow> AppState \<Rightarrow> Response \<times> AppState" where
  "api_handler X J E raw request st =
     (if rq_method request = POST \<and>
         (rq_path request = ''/v1/admin/tokens/rotate'' \<or> rq_path request = ''/v1/admin/tokens/revoke'')
      then token_route X J E raw request st
      else if rq_method request = GET \<and> rq_path request = ''/v1/events''
      then (events_route X E request st, st)
      else if rq_method request = GET \<and> rq_path request = ''/v1/nodes''
      then (nodes_route X request st, st)
      else if rq_method request = GET \<and> starts_with (rq_path request) ''/v1/nodes/''
      then (node_route X E request st, st)
      else if rq_method request = POST \<and> rq_path request = ''/v1/services''
      then service_create_route X J E request st
      else case (case strip_prefix (rq_path request) ''/v1/services/'' of
                   None \<Rightarrow> None
                 | Some service_key \<Rightarrow> service_item_route X J E service_key request st) of
             Some response \<Rightarrow> response
           | None \<Rightarrow> (other_routes X request st, st))"

end
