(* ===== verification/Api_Props.thy ===== *)
theory Api_Props
  imports Api
begin

text \<open>
  Properties of the control API: what needs which token, that every request keeps the server
  invariant, and what the token and service routes do.
\<close>

section \<open>Authentication\<close>

definition reveals_nothing :: "Response \<Rightarrow> bool" where
  "reveals_nothing r \<longleftrightarrow> (\<exists>e. rs_body r = ErrorResponse e \<and> rs_status r \<in> {400, 401, 404}) \<or> rs_body r = HealthResponse ''ok''"

lemma reveals_nothing_simps [simp]:
  "reveals_nothing (error_json 400 e)" "reveals_nothing (error_json 401 e)" "reveals_nothing (error_json 404 e)"
  "reveals_nothing (json 200 (HealthResponse ''ok''))"
  by (simp_all add: reveals_nothing_def error_json_def json_def)

text \<open>C12: a request without a valid bearer token changes nothing and learns nothing: the answer is a
  client error or the health check.\<close>

theorem api_needs_token:
  assumes "authenticate X (rq_authorization request) st = None"
  shows "snd (api_handler X J E raw request st) = st \<and> reveals_nothing (fst (api_handler X J E raw request st))"
  using assms
  by (auto simp: api_handler_def token_route_def events_route_def nodes_route_def node_route_def Let_def
      service_create_route_def service_item_route_def other_routes_def auth_route_def services_route_def
      split: option.split prod.split)

section \<open>Frames of the routes\<close>

lemma service_create_route_tokens: "st_tokens (snd (service_create_route X J E request st)) = st_tokens st"
  by (simp add: service_create_route_def case_prod_beta split: sum.split option.split)

lemma service_delete_tokens: "st_tokens (snd (service_delete X E i st)) = st_tokens st"
  by (simp add: service_delete_def Let_def case_prod_beta split: sum.split option.split)

lemma service_patch_tokens: "st_tokens (snd (service_patch X J E i request st)) = st_tokens st"
  by (simp add: service_patch_def Let_def case_prod_beta split: sum.split option.split)

lemma service_item_route_tokens:
  "service_item_route X J E key request st = Some r \<Longrightarrow> st_tokens (snd r) = st_tokens st"
  by (auto simp: service_item_route_def service_delete_tokens service_patch_tokens
      split: option.splits if_splits Method.splits)

lemma api_handler_cases:
  obtains (tokens) "rq_method request = POST"
      "rq_path request = ''/v1/admin/tokens/rotate'' \<or> rq_path request = ''/v1/admin/tokens/revoke''"
      "api_handler X J E raw request st = token_route X J E raw request st"
  | (create) "rq_method request = POST" "rq_path request = ''/v1/services''"
      "api_handler X J E raw request st = service_create_route X J E request st"
  | (item) key r where "rq_path request = ''/v1/services/'' @ key" "service_item_route X J E key request st = Some r"
      "api_handler X J E raw request st = r"
  | (reading) "snd (api_handler X J E raw request st) = st"
proof -
  let ?tokens = "rq_method request = POST \<and>
    (rq_path request = ''/v1/admin/tokens/rotate'' \<or> rq_path request = ''/v1/admin/tokens/revoke'')"
  let ?gets = "rq_method request = GET \<and>
    (rq_path request = ''/v1/events'' \<or> rq_path request = ''/v1/nodes'' \<or> starts_with (rq_path request) ''/v1/nodes/'')"
  let ?create = "rq_method request = POST \<and> rq_path request = ''/v1/services''"
  let ?item = "case strip_prefix (rq_path request) ''/v1/services/'' of
    None \<Rightarrow> None | Some service_key \<Rightarrow> service_item_route X J E service_key request st"
  have late: "api_handler X J E raw request st =
      (case ?item of Some r \<Rightarrow> r | None \<Rightarrow> (other_routes X request st, st))"
    if "\<not> ?tokens" "\<not> ?gets" "\<not> ?create"
  proof -
    have "\<not> (rq_method request = GET \<and> rq_path request = ''/v1/events'')"
        "\<not> (rq_method request = GET \<and> rq_path request = ''/v1/nodes'')"
        "\<not> (rq_method request = GET \<and> starts_with (rq_path request) ''/v1/nodes/'')"
      using that(2) by blast+
    with that(1,3) show ?thesis
      unfolding api_handler_def by (simp only: if_False)
  qed
  show thesis
  proof (cases "?tokens")
    case True
    then show thesis by (intro tokens) (simp_all add: api_handler_def)
  next
    case no_tokens: False
    show thesis
    proof (cases "?gets")
      case True
      then show thesis by (intro reading) (auto simp: api_handler_def)
    next
      case no_gets: False
      show thesis
      proof (cases "?create")
        case True
        then show thesis by (intro create) (simp_all add: api_handler_def)
      next
        case no_create: False
        note late = late [OF no_tokens no_gets no_create]
        show thesis
        proof (cases ?item)
          case None
          with late show thesis by (intro reading) simp
        next
          case (Some r)
          then obtain key where "strip_prefix (rq_path request) ''/v1/services/'' = Some key"
              "service_item_route X J E key request st = Some r"
            by (auto split: option.splits)
          with late Some show thesis
            by (intro item [of key r]) (simp_all add: strip_prefix_Some_iff)
        qed
      qed
    qed
  qed
qed

text \<open>C13: tokens change only in a POST to the rotate or revoke route that carries the current admin
  token.\<close>

theorem tokens_need_admin:
  assumes "st_tokens (snd (api_handler X J E raw request st)) \<noteq> st_tokens st"
  shows "authenticate X (rq_authorization request) st = Some Admin \<and> rq_method request = POST \<and>
    (rq_path request = ''/v1/admin/tokens/rotate'' \<or> rq_path request = ''/v1/admin/tokens/revoke'')"
proof (cases rule: api_handler_cases [of request X J E raw st])
  case tokens
  then show ?thesis using assms by (auto simp: token_route_def split: if_splits)
next
  case create
  then show ?thesis using assms by (simp add: service_create_route_tokens)
next
  case (item key r)
  then show ?thesis using assms service_item_route_tokens by metis
next
  case reading
  then show ?thesis using assms by simp
qed

section \<open>The server invariant\<close>

lemma registry_inv_record_event [simp]:
  "registry_inv (record_event X E k ek n s t st) = registry_inv st"
  by (simp add: registry_inv_def)

lemma token_route_inv:
  assumes "registry_inv st"
  shows "registry_inv (snd (token_route X J E raw request st))"
  using assms replace_token_inv [OF assms]
  by (simp add: token_route_def case_prod_beta generate_token_def Let_def split: sum.split)

lemma service_create_route_inv:
  assumes "registry_inv st"
  shows "registry_inv (snd (service_create_route X J E request st))"
  using assms register_service_inv [OF assms]
  by (simp add: service_create_route_def case_prod_beta split: sum.split option.split)

lemma service_delete_inv:
  assumes "registry_inv st"
  shows "registry_inv (snd (service_delete X E i st))"
  using assms
  by (simp add: service_delete_def registry_inv_def maps_ok_def Let_def case_prod_beta directory_ok_remove
      split: sum.split option.split)

lemma directory_ok_metadata:
  assumes "directory_ok m" and "bt_get m i = Some s"
  shows "directory_ok (bt_insert i (s\<lparr>sd_metadata := md\<rparr>) m)"
proof -
  have id: "sd_service_id s = i" using directory_okD(2) [OF assms] .
  have "directory_ok (bt_insert (sd_service_id (s\<lparr>sd_metadata := md\<rparr>)) (s\<lparr>sd_metadata := md\<rparr>) m)"
  proof (rule directory_ok_insert [OF assms(1)])
    show "j = sd_service_id (s\<lparr>sd_metadata := md\<rparr>)"
      if "bt_get m j = Some t" "sd_service_name t = sd_service_name (s\<lparr>sd_metadata := md\<rparr>)" for j t
      using directory_okD(3) [OF assms(1) that(1) assms(2)] that(2) id by simp
    show "sd_public_port (s\<lparr>sd_metadata := md\<rparr>) \<noteq> None" if "sd_protocol (s\<lparr>sd_metadata := md\<rparr>) = Tcp"
      using directory_okD(4) [OF assms(1,2)] that by simp
    show "j = sd_service_id (s\<lparr>sd_metadata := md\<rparr>)"
      if "bt_get m j = Some t" "leases_port p (s\<lparr>sd_metadata := md\<rparr>)" "leases_port p t" for j t p
      using directory_okD(5) [OF assms(1) that(1) assms(2)] that(2,3) id by (simp add: leases_port_def)
  qed
  with id show ?thesis by simp
qed

lemma service_patch_inv:
  assumes "registry_inv st"
  shows "registry_inv (snd (service_patch X J E i request st))"
  using assms
  by (simp add: service_patch_def registry_inv_def Let_def case_prod_beta directory_ok_metadata
      split: sum.split option.split)

lemma api_handler_inv:
  assumes "registry_inv st"
  shows "registry_inv (snd (api_handler X J E raw request st))"
proof (cases rule: api_handler_cases [of request X J E raw st])
  case (item key r)
  have "registry_inv (snd r)"
    using item(2) assms service_delete_inv [OF assms] service_patch_inv [OF assms]
    by (auto simp: service_item_route_def split: option.splits if_splits Method.splits)
  with item(3) show ?thesis by simp
qed (use assms token_route_inv service_create_route_inv in simp_all)

section \<open>Rotation\<close>

lemma replace_token_Inr:
  assumes "fst (replace_token X E k h st) = Inr ()"
  shows "st_tokens (snd (replace_token X E k h st)) = token_set (st_tokens st) k h \<and> \<not> st_tokens_poisoned st"
  using assms by (cases rule: replace_token_cases [of X E k h st]) auto

lemma token_route_rotated:
  assumes "rs_body (fst (token_route X J E raw request st)) = TokenRotationResponse name token"
  obtains kind where "token_mutation_request J (rq_body request) = Inr kind" and "name = token_kind_name kind"
    and "token = fst (generate_token (x_blake3 X) raw kind)"
    and "st_tokens (snd (token_route X J E raw request st)) =
      token_set (st_tokens st) kind (Some (hash_token (x_blake3 X) token))"
    and "\<not> st_tokens_poisoned (snd (token_route X J E raw request st))"
proof -
  have body: "rs_body (error_json n e) \<noteq> TokenRotationResponse name token" for n e
    by (simp add: error_json_def json_def)
  from assms body obtain kind where req: "token_mutation_request J (rq_body request) = Inr kind"
      "rq_path request = ''/v1/admin/tokens/rotate''" "authenticate X (rq_authorization request) st = Some Admin"
    by (auto simp: token_route_def json_def case_prod_beta split: sum.splits if_splits)
  let ?g = "generate_token (x_blake3 X) raw kind"
  let ?r = "replace_token X E kind (Some (snd ?g)) st"
  have hash: "snd ?g = hash_token (x_blake3 X) (fst ?g)" by (simp add: generate_token_def Let_def)
  have route: "token_route X J E raw request st =
      (case ?r of (Inl _, st) \<Rightarrow> (error_json 500 ''failed to rotate token'', st)
       | (Inr _, st) \<Rightarrow> (json 200 (TokenRotationResponse (token_kind_name kind) (fst ?g)),
           record_event X E 0 TokenRotated None None (Some kind) st))"
    using req by (simp add: token_route_def case_prod_beta)
  show thesis
  proof (cases "fst ?r")
    case (Inl e)
    with assms body route show thesis by (simp add: case_prod_beta)
  next
    case (Inr u)
    with assms route have "name = token_kind_name kind" "token = fst ?g"
      by (simp_all add: case_prod_beta json_def)
    moreover have "st_tokens (snd ?r) = token_set (st_tokens st) kind (Some (snd ?g))" "\<not> st_tokens_poisoned st"
      using replace_token_Inr [of X E kind "Some (snd ?g)" st] Inr by simp_all
    ultimately show thesis
      using req(1) route Inr hash by (intro that) (simp_all add: case_prod_beta)
  qed
qed

text \<open>C31: a rotation that answers with a token made it the only valid token of the kind: it
  authenticates as the kind from then on, and any other token that does has the same hash.\<close>

theorem rotation_takes_effect:
  assumes "rs_body (fst (token_route X J E raw request st)) = TokenRotationResponse name token"
    and "token_authenticate (st_tokens st) (hash_token (x_blake3 X) token) = None"
    and "st' = snd (token_route X J E raw request st)"
  shows "\<exists>kind. name = token_kind_name kind \<and> authenticate X (Some (''Bearer '' @ token)) st' = Some kind \<and>
    (\<forall>other. authenticate_token X other st' = Some kind \<longrightarrow> hash_token (x_blake3 X) other = hash_token (x_blake3 X) token)"
  using assms(1)
proof (rule token_route_rotated)
  fix kind
  assume name: "name = token_kind_name kind"
    and tokens: "st_tokens (snd (token_route X J E raw request st)) =
      token_set (st_tokens st) kind (Some (hash_token (x_blake3 X) token))"
    and ok: "\<not> st_tokens_poisoned (snd (token_route X J E raw request st))"
  have new: "token_authenticate (st_tokens st') h = Some kind \<longleftrightarrow>
      h = hash_token (x_blake3 X) token \<and> \<not> (kind = User \<and> ts_admin_hash (st_tokens st) = Some h)" for h
    unfolding assms(3) tokens token_set_authenticate by auto
  have "ts_admin_hash (st_tokens st) \<noteq> Some (hash_token (x_blake3 X) token)"
    using assms(2) by (auto simp: token_authenticate_def)
  with new have "authenticate_token X token st' = Some kind"
    using ok assms(3) by (simp add: authenticate_token_def)
  moreover have "hash_token (x_blake3 X) other = hash_token (x_blake3 X) token"
    if "authenticate_token X other st' = Some kind" for other
    using that new by (auto simp: authenticate_token_def split: if_splits)
  moreover have "strip_prefix (''Bearer '' @ token) ''Bearer '' = Some token"
    by (simp only: strip_prefix_append)
  then have "authenticate X (Some (''Bearer '' @ token)) st' = authenticate_token X token st'"
    by (simp only: authenticate_def option.case)
  ultimately show ?thesis using name by metis
qed

text \<open>rotation answers 500 without the new token although the new token has already replaced the
  old one, when an offline node cannot be written.\<close>

theorem rotation_can_lose_token:
  assumes "rq_path request = ''/v1/admin/tokens/rotate''"
    and "authenticate X (rq_authorization request) st = Some Admin"
    and "token_mutation_request J (rq_body request) = Inr kind"
    and "put_tokens X (e_db E CallPutTokens) (token_set (st_tokens st) kind (Some (snd (generate_token (x_blake3 X) raw kind)))) (st_store st) = (Inr (), d)"
    and "sessions_of_kind kind st = [(n, session)]" and "bt_get (st_nodes st) n = Some node"
    and "\<not> is_ok (fst (put_node X (e_db E (CallPutNode 1)) (set_offline node) d))"
  shows "fst (token_route X J E raw request st) = error_json 500 ''failed to rotate token'' \<and>
    st_tokens (snd (token_route X J E raw request st)) =
      token_set (st_tokens st) kind (Some (snd (generate_token (x_blake3 X) raw kind)))"
proof -
  let ?g = "generate_token (x_blake3 X) raw kind"
  let ?r = "replace_token X E kind (Some (snd ?g)) st"
  obtain e d' where put: "put_node X (e_db E (CallPutNode 1)) (set_offline node) d = (Inl e, d')"
    using assms(7) by (metis is_ok_simps(2) prod.collapse sum.exhaust_sel)
  have sane: "\<not> st_tokens_poisoned st"
    using assms(2) by (auto simp: authenticate_def authenticate_token_def split: option.splits if_splits)
  have sessions: "sessions_of_kind kind (st\<lparr>st_tokens := ts, st_store := d\<rparr>) = [(n, session)]" for ts
    using assms(5) by (simp add: sessions_of_kind_def)
  have "fst ?r = Inl e"
    using assms(4,6) put sane
    by (simp add: replace_token_def Let_def sessions mark_nodes_offline_def bt_adjust_def map_filter_simps)
  moreover from this have "st_tokens (snd ?r) = token_set (st_tokens st) kind (Some (snd ?g))"
    using assms(4) sane by (simp add: replace_token_def Let_def)
  moreover obtain q st' where "?r = (q, st')" by fastforce
  ultimately show ?thesis
    using assms(1-3) by (simp add: token_route_def case_prod_beta)
qed

section \<open>Services over the API\<close>

text \<open>the API creates a service only for a node that is known and online, and the answer is the
  record the directory now holds.\<close>

theorem api_create_service:
  assumes "registry_inv st" and "rs_status (fst (service_create_route X J E request st)) = 201"
  shows "\<exists>s node. rs_body (fst (service_create_route X J E request st)) = ServiceResponse s \<and>
    bt_get (st_services (snd (service_create_route X J E request st))) (sd_service_id s) = Some s \<and>
    bt_get (st_nodes st) (sd_node_id s) = Some node \<and> nr_status node = NodeIsOnline"
proof -
  from assms(2) obtain b create node where b: "rq_body request = Inr b" "length b \<le> MAX_API_BODY_BYTES"
      "js_service_create J b = Inr create" "bt_get (st_nodes st) (cr_node_id create) = Some node"
      "nr_status node = NodeIsOnline" "authenticate X (rq_authorization request) st \<noteq> None"
    by (auto simp: service_create_route_def error_json_def json_def not_less split: if_splits sum.splits option.splits)
  let ?r = "register_service X E (into_definition (e_fresh_id E) create) (cr_node_id create) st"
  have route: "service_create_route X J E request st =
      (case ?r of (Inr service, st) \<Rightarrow> (json 201 (ServiceResponse service), st)
       | (Inl _, st) \<Rightarrow> (error_json 400 ''service could not be created'', st))"
    using b by (auto simp: service_create_route_def)
  obtain s st' where r: "?r = (Inr s, st')"
    using assms(2) route by (cases ?r) (auto simp: error_json_def json_def split: sum.splits)
  then show ?thesis
  proof (rule register_service_Inr)
    assume plan: "register_plan st (into_definition (e_fresh_id E) create) (cr_node_id create) = Inr s"
      and services: "st_services st' = bt_insert (sd_service_id s) s (st_services st)"
    have "sd_node_id s = cr_node_id create"
      using register_plan_kept(2) [OF plan] by (simp add: into_definition_def)
    with b(4,5) r route services show ?thesis by (simp add: json_def)
  qed
qed

section \<open>Witnesses\<close>

definition admin_request :: "Method \<Rightarrow> string \<Rightarrow> string \<Rightarrow> Request" where
  "admin_request m path token =
     \<lparr>rq_method = m, rq_path = path, rq_authorization = Some (''Bearer '' @ token), rq_body = Inr [1]\<rparr>"

definition sample_decoders :: Decoders where
  "sample_decoders = \<lparr>js_token_mutation = (\<lambda>_. Inr User),
     js_service_create = (\<lambda>_. Inr \<lparr>cr_service_name = ''ssh'', cr_node_id = sample_node, cr_protocol = Tcp,
       cr_local_address = ''127.0.0.1:22'', cr_public_port = None, cr_metadata = []\<rparr>),
     js_service_patch = (\<lambda>_. Inr \<lparr>pa_metadata = None\<rparr>)\<rparr>"

text \<open>With the identity as hash, the admin token of \<open>sample_tokens\<close> is the byte 1, the user's the byte 2.\<close>

lemma sample_authenticate:
  "authenticate sample_externals (Some (''Bearer '' @ [CHR 0x01])) sample_state = Some Admin"
  "authenticate sample_externals (Some (''Bearer '' @ [CHR 0x03])) sample_state = None"
  by (simp_all add: authenticate_def strip_prefix_def starts_with_def authenticate_token_def sample_state_def
      token_authenticate_def hash_token_def sample_externals_def sample_tokens_def string_bytes_def)

theorem api_needs_token_witness:
  "snd (api_handler sample_externals sample_decoders sample_env [] (admin_request DELETE ''/v1/services/0'' [CHR 0x03]) sample_state) =
     sample_state"
proof -
  have "authenticate sample_externals (rq_authorization (admin_request DELETE ''/v1/services/0'' [CHR 0x03])) sample_state = None"
    using sample_authenticate(2) by (simp add: admin_request_def)
  from api_needs_token [OF this] show ?thesis by blast
qed

abbreviation rotate_request :: Request where
  "rotate_request \<equiv> admin_request POST ''/v1/admin/tokens/rotate'' [CHR 0x01]"

definition secret :: bytes where
  "secret = replicate 32 0"

definition rotated_tokens :: TokenState where
  "rotated_tokens = token_set sample_tokens User (Some (snd (generate_token id secret User)))"

text \<open>Externals that can write the rotated tokens and the given node records.\<close>

definition rotating :: "NodeRecord list \<Rightarrow> Externals" where
  "rotating nodes = sample_externals\<lparr>x_tokens := listed [rotated_tokens], x_node := listed nodes\<rparr>"

lemma rotating_simps [simp]: "x_blake3 (rotating nodes) = id" "x_tokens (rotating nodes) = listed [rotated_tokens]"
    "x_node (rotating nodes) = listed nodes"
  by (simp_all add: rotating_def sample_externals_def)

lemma sample_env_db [simp]: "e_db sample_env c = None"
  by (simp add: sample_env_def)

lemma sample_state_parts [simp]:
  "st_store sample_state = empty_database" "st_tokens sample_state = sample_tokens"
  "\<not> st_tokens_poisoned sample_state"
  by (simp_all add: sample_state_def)

lemma authenticate_cong: "x_blake3 X = x_blake3 Y \<Longrightarrow> authenticate X h st = authenticate Y h st"
  by (simp add: authenticate_def authenticate_token_def split: option.split)

lemma rotating_authenticate: "authenticate (rotating nodes) (rq_authorization rotate_request) sample_state = Some Admin"
  using sample_authenticate(1) authenticate_cong [of "rotating nodes" sample_externals]
  by (simp add: admin_request_def sample_externals_def)

lemma rotating_kind: "token_mutation_request sample_decoders (rq_body rotate_request) = Inr User"
  by (simp add: token_mutation_request_def admin_request_def sample_decoders_def MAX_API_BODY_BYTES_def)

lemma rotating_path: "rq_path rotate_request = ''/v1/admin/tokens/rotate''"
  by (simp add: admin_request_def)

lemma rotating_put: "\<exists>d. put_tokens (rotating nodes) None rotated_tokens empty_database = (Inr (), d)"
  by (simp add: put_tokens_def encode_with_def listed_def write_txn_def)

lemma sample_sessions:
  "sessions_of_kind User (sample_state\<lparr>st_tokens := ts, st_store := d\<rparr>) =
     [(sample_node, \<lparr>as_id = UuidId 3, as_token_kind = User, as_connection = QuicConnection 1\<rparr>)]"
  by (simp add: sessions_of_kind_def sample_state_def)

lemma sample_node_known: "bt_get (st_nodes sample_state) sample_node = Some sample_record"
  by (simp add: sample_state_def bt_get_def)

theorem rotation_can_lose_token_witness:
  "fst (token_route (rotating []) sample_decoders sample_env secret rotate_request sample_state) =
     error_json 500 ''failed to rotate token''"
proof -
  obtain d where "put_tokens (rotating []) None rotated_tokens empty_database = (Inr (), d)"
    using rotating_put by blast
  then have put: "put_tokens (rotating []) (e_db sample_env CallPutTokens)
      (token_set (st_tokens sample_state) User (Some (snd (generate_token (x_blake3 (rotating [])) secret User))))
      (st_store sample_state) = (Inr (), d)"
    by (simp add: rotated_tokens_def)
  have session: "sessions_of_kind User sample_state =
      [(sample_node, \<lparr>as_id = UuidId 3, as_token_kind = User, as_connection = QuicConnection 1\<rparr>)]"
    by (simp add: sessions_of_kind_def sample_state_def)
  have "\<not> is_ok (fst (put_node (rotating []) (e_db sample_env (CallPutNode 1)) (set_offline sample_record) d))"
    by (simp add: put_node_def encode_with_def listed_def)
  from rotation_can_lose_token [OF rotating_path rotating_authenticate rotating_kind put session sample_node_known this]
  show ?thesis ..
qed

lemma rotating_replaces:
  "fst (replace_token (rotating [set_offline sample_record]) sample_env User
     (Some (snd (generate_token id secret User))) sample_state) = Inr ()"
proof -
  obtain d where put: "put_tokens (rotating [set_offline sample_record]) None
      (token_set sample_tokens User (Some (snd (generate_token id secret User)))) empty_database = (Inr (), d)"
    using rotating_put unfolding rotated_tokens_def by blast
  obtain d' where "put_node (rotating [set_offline sample_record]) None (set_offline sample_record) d = (Inr (), d')"
    by (simp add: put_node_def encode_with_def listed_def write_txn_def)
  with put sample_node_known show ?thesis
    by (simp add: replace_token_def Let_def sample_sessions mark_nodes_offline_def bt_adjust_def map_filter_simps)
qed

lemma rotating_answers:
  "rs_body (fst (token_route (rotating [set_offline sample_record]) sample_decoders sample_env secret rotate_request sample_state)) =
     TokenRotationResponse ''user'' (fst (generate_token id secret User))"
  using rotating_authenticate rotating_kind rotating_path rotating_replaces
  by (simp add: token_route_def case_prod_beta json_def token_kind_name_def del: split_paired_All)

theorem rotation_takes_effect_witness:
  "authenticate (rotating [set_offline sample_record]) (Some (''Bearer '' @ fst (generate_token id secret User)))
     (snd (token_route (rotating [set_offline sample_record]) sample_decoders sample_env secret rotate_request sample_state)) =
   Some User"
proof -
  have new: "token_authenticate (st_tokens sample_state)
      (hash_token (x_blake3 (rotating [set_offline sample_record])) (fst (generate_token id secret User))) = None"
    by (simp add: token_authenticate_def sample_tokens_def hash_token_def generate_token_def string_bytes_def Let_def)
  from rotation_takes_effect [OF rotating_answers new refl] obtain kind
    where kind: "''user'' = token_kind_name kind"
      and valid: "authenticate (rotating [set_offline sample_record]) (Some (''Bearer '' @ fst (generate_token id secret User)))
       (snd (token_route (rotating [set_offline sample_record]) sample_decoders sample_env secret rotate_request sample_state)) =
         Some kind" by (elim exE conjE)
  have "kind = User" using kind by (cases kind) (simp_all add: token_kind_name_def)
  with valid show ?thesis by (simp only:)
qed

theorem tokens_need_admin_witness:
  "authenticate (rotating [set_offline sample_record]) (rq_authorization rotate_request) sample_state = Some Admin"
proof -
  let ?X = "rotating [set_offline sample_record]"
  have route: "api_handler ?X sample_decoders sample_env secret rotate_request sample_state =
      token_route ?X sample_decoders sample_env secret rotate_request sample_state"
    by (simp add: api_handler_def admin_request_def)
  have "st_tokens (snd (replace_token ?X sample_env User (Some (snd (generate_token id secret User))) sample_state)) =
      rotated_tokens"
    using replace_token_Inr [OF rotating_replaces] by (simp add: rotated_tokens_def)
  then have "st_tokens (snd (token_route ?X sample_decoders sample_env secret rotate_request sample_state)) = rotated_tokens"
    using rotating_authenticate rotating_kind rotating_path rotating_replaces
    by (simp add: token_route_def case_prod_beta)
  moreover have "rotated_tokens \<noteq> sample_tokens"
    by (simp add: rotated_tokens_def sample_tokens_def token_set_def generate_token_def hash_token_def
        string_bytes_def Let_def)
  ultimately have "st_tokens (snd (api_handler ?X sample_decoders sample_env secret rotate_request sample_state)) \<noteq> st_tokens sample_state"
    unfolding route by simp
  from tokens_need_admin [OF this] show ?thesis ..
qed

theorem api_create_service_witness:
  "\<exists>s. rs_body (fst (service_create_route sample_externals sample_decoders (sample_env\<lparr>e_fresh_id := 2\<rparr>)
       (admin_request POST ''/v1/services'' [CHR 0x01]) sample_state)) = ServiceResponse s"
proof -
  let ?E = "sample_env\<lparr>e_fresh_id := 2\<rparr>"
  let ?r = "admin_request POST ''/v1/services'' [CHR 0x01]"
  have request: "into_definition 2 \<lparr>cr_service_name = ''ssh'', cr_node_id = sample_node, cr_protocol = Tcp,
       cr_local_address = ''127.0.0.1:22'', cr_public_port = None, cr_metadata = []\<rparr> = sample_request"
    by (simp add: into_definition_def sample_request_def sample_service_def)
  have "fst (register_service sample_externals ?E sample_request sample_node sample_state) =
      fst (register_service sample_externals sample_env sample_request sample_node sample_state)"
    by (simp add: register_service_def sample_plan Let_def case_prod_beta ensure_tcp_ingress_def sample_env_def
        split: sum.split option.split)
  then have "fst (register_service sample_externals ?E sample_request sample_node sample_state) = Inr sample_service"
    using sample_register by simp
  moreover have "authenticate sample_externals (rq_authorization ?r) sample_state = Some Admin"
    using sample_authenticate(1) by (simp add: admin_request_def)
  moreover have body: "rq_body ?r = Inr [1]" by (simp add: admin_request_def)
  moreover have decoded: "js_service_create sample_decoders b = Inr \<lparr>cr_service_name = ''ssh'', cr_node_id = sample_node, cr_protocol = Tcp,
       cr_local_address = ''127.0.0.1:22'', cr_public_port = None, cr_metadata = []\<rparr>" for b
    by (simp add: sample_decoders_def)
  moreover have online: "nr_status sample_record = NodeIsOnline" "e_fresh_id ?E = 2"
    by (simp_all add: sample_record_def)
  ultimately have "rs_status (fst (service_create_route sample_externals sample_decoders ?E ?r sample_state)) = 201"
    using sample_node_known request body online decoded
    by (simp add: service_create_route_def MAX_API_BODY_BYTES_def case_prod_beta json_def)
  from api_create_service [OF sample_state_inv this] show ?thesis by blast
qed

end
