(* ===== verification/Ingress.thy ===== *)
theory Ingress
  imports Api_Props
begin

text \<open>
  Public HTTP and HTTPS ingress, \<open>crates/ongrok-relay-server/src/ingress.rs\<close>: which requests
  go to the control API, which service a host name selects, what is sent through the
  tunnel and what comes back.
\<close>

section \<open>Headers\<close>

text \<open>
  A \<open>HeaderMap\<close> as its entries, names in the lower case the crate stores them in.
  \<open>insert\<close> replaces every value of a name, \<open>remove\<close> drops them all, \<open>get\<close> gives
  the first. \<open>to_str\<close> accepts visible ASCII, space and tab.
\<close>

type_synonym Headers = "(string \<times> string) list"

definition header_get :: "string \<Rightarrow> Headers \<Rightarrow> string option" where
  "header_get name headers = map_of headers name"

definition header_get_all :: "string \<Rightarrow> Headers \<Rightarrow> string list" where
  "header_get_all name headers = map snd (filter (\<lambda>p. fst p = name) headers)"

definition header_remove :: "string \<Rightarrow> Headers \<Rightarrow> Headers" where
  "header_remove name headers = filter (\<lambda>p. fst p \<noteq> name) headers"

definition header_insert :: "string \<Rightarrow> string \<Rightarrow> Headers \<Rightarrow> Headers" where
  "header_insert name v headers = header_remove name headers @ [(name, v)]"

definition visible_ascii :: "char \<Rightarrow> bool" where
  "visible_ascii c \<longleftrightarrow> 32 \<le> (of_char c :: nat) \<and> (of_char c :: nat) < 127 \<or> (of_char c :: nat) = 9"

definition to_str :: "string \<Rightarrow> string option" where
  "to_str v = (if list_all visible_ascii v then Some v else None)"

definition header_str :: "string \<Rightarrow> Headers \<Rightarrow> string option" where
  "header_str name headers = Option.bind (header_get name headers) to_str"

text \<open>\<open>HeaderValue::from_str\<close>: every byte but the control characters, tab excepted.\<close>

definition header_byte :: "char \<Rightarrow> bool" where
  "header_byte c \<longleftrightarrow> 32 \<le> (of_char c :: nat) \<and> (of_char c :: nat) \<noteq> 127 \<or> (of_char c :: nat) = 9"

definition header_value :: "string \<Rightarrow> string option" where
  "header_value v = (if list_all header_byte v then Some v else None)"

fun split_on :: "char \<Rightarrow> string \<Rightarrow> string list" where
  "split_on c [] = [[]]"
| "split_on c (x # xs) =
     (if x = c then [] # split_on c xs
      else case split_on c xs of [] \<Rightarrow> [[x]] | w # ws \<Rightarrow> (x # w) # ws)"

text \<open>\<open>trim\<close> on what \<open>to_str\<close> lets through: spaces and tabs.\<close>

definition trim :: "string \<Rightarrow> string" where
  "trim s = (let blank = (\<lambda>c. c = CHR '' '' \<or> c = CHR 0x09) in rev (dropWhile blank (rev (dropWhile blank s))))"

section \<open>Requests and responses\<close>

record HttpRequest =
  hr_method :: Method
  hr_authority :: "string option"
  hr_path :: string
  hr_path_and_query :: "string option"
  hr_target :: string
  hr_headers :: Headers
  hr_body :: "string + bytes"

datatype IngressBody = EmptyBody | ApiBody ResponseBody | TextBody string | TunnelBody bytes

record IngressResponse =
  ir_status :: nat
  ir_headers :: Headers
  ir_body :: IngressBody

definition api_request :: "HttpRequest \<Rightarrow> Request" where
  "api_request r =
     \<lparr>rq_method = hr_method r, rq_path = hr_path r,
      rq_authorization = header_str ''authorization'' (hr_headers r), rq_body = hr_body r\<rparr>"

section \<open>Host names\<close>

definition request_host :: "HttpRequest \<Rightarrow> string option" where
  "request_host r =
     (case header_str ''host'' (hr_headers r) of Some host \<Rightarrow> Some host | None \<Rightarrow> hr_authority r)"

definition trim_end_dots :: "string \<Rightarrow> string" where
  "trim_end_dots s = rev (dropWhile (\<lambda>c. c = CHR ''.'') (rev s))"

definition host_name :: "string \<Rightarrow> string" where
  "host_name host = hd (split_on (CHR '':'') (trim_end_dots host))"

definition eq_ignore_ascii_case :: "string \<Rightarrow> string \<Rightarrow> bool" where
  "eq_ignore_ascii_case a b \<longleftrightarrow> map to_ascii_lower a = map to_ascii_lower b"

definition is_api_host :: "HttpRequest \<Rightarrow> AppState \<Rightarrow> bool" where
  "is_api_host r st =
     (case st_http_domain st of
        None \<Rightarrow> False
      | Some domain \<Rightarrow>
          (case request_host r of
             None \<Rightarrow> False
           | Some host \<Rightarrow> eq_ignore_ascii_case (host_name host) (''api.'' @ domain)))"

section \<open>Hop-by-hop headers\<close>

definition hop_by_hop :: "string list" where
  "hop_by_hop = [''connection'', ''keep-alive'', ''proxy-authenticate'', ''proxy-authorization'', ''te'',
     ''trailer'', ''transfer-encoding'', ''upgrade'']"

text \<open>\<open>parse_name\<close>: \<open>str::parse::<HeaderName>\<close>, the name in its stored form.\<close>

definition connection_names :: "(string \<Rightarrow> string option) \<Rightarrow> Headers \<Rightarrow> string list" where
  "connection_names parse_name headers =
     List.map_filter (\<lambda>name. parse_name (trim name))
       (concat (map (split_on (CHR '','')) (List.map_filter to_str (header_get_all ''connection'' headers))))"

definition strip_hop_by_hop_headers :: "(string \<Rightarrow> string option) \<Rightarrow> Headers \<Rightarrow> Headers" where
  "strip_hop_by_hop_headers parse_name headers =
     fold header_remove hop_by_hop (fold header_remove (connection_names parse_name headers) headers)"

section \<open>Forwarding\<close>

text \<open>
  What happens around the code: the data stream's outcomes, whether the request target
  reparses, the HTTP/1 handshake over the tunnel, the local service's response.
\<close>

record Forwarding =
  fw_fresh :: uuid
  fw_opened :: OpenOutcome
  fw_io :: bool
  fw_ack :: AckOutcome
  fw_parse_target :: "string \<Rightarrow> string option"
  fw_handshake :: bool
  fw_response :: "IngressResponse option"

definition find_http_service :: "Protocol \<Rightarrow> string \<Rightarrow> AppState \<Rightarrow> ServiceDefinition option" where
  "find_http_service protocol host st =
     find (\<lambda>service. sd_protocol service = protocol \<and> sd_public_host service = Some host) (bt_values (st_services st))"

text \<open>The request as it goes into the tunnel, and the response that goes back to the visitor.\<close>

definition forward_http_request ::
  "Externals \<Rightarrow> (string \<Rightarrow> string option) \<Rightarrow> Forwarding \<Rightarrow> HttpRequest \<Rightarrow> Protocol \<Rightarrow> AppState \<Rightarrow>
     string + (ClientSession \<times> HttpRequest \<times> IngressResponse)" where
  "forward_http_request X parse_name F r protocol st =
     result_bind (ok_or ''HTTP request is missing a Host header'' (request_host r)) (\<lambda>forwarded_host.
     let host = map to_ascii_lower (host_name forwarded_host) in
     result_bind (ok_or ''no HTTP service is registered for host'' (find_http_service protocol host st)) (\<lambda>service.
     result_bind (open_client_stream X (sd_service_id service) (fw_fresh F) (fw_opened F) (fw_io F) (fw_ack F) st)
       (\<lambda>(tunnel, _).
     result_bind (ok_or ''invalid HTTP host'' (header_value forwarded_host)) (\<lambda>host_value.
     let r = r\<lparr>hr_headers := header_insert ''host'' host_value (hr_headers r)\<rparr> in
     result_bind (ok_or ''invalid HTTP request target''
       (fw_parse_target F (case hr_path_and_query r of None \<Rightarrow> ''/'' | Some pq \<Rightarrow> pq))) (\<lambda>target.
     let r = r\<lparr>hr_target := target, hr_headers := strip_hop_by_hop_headers parse_name (hr_headers r)\<rparr> in
     if \<not> fw_handshake F then Inl ''failed to establish HTTP tunnel connection''
     else result_bind (ok_or ''local HTTP service request failed'' (fw_response F)) (\<lambda>response.
       Inr (tunnel, r, response\<lparr>ir_headers := strip_hop_by_hop_headers parse_name (ir_headers response)\<rparr>)))))))"

definition add_api_cors_headers :: "Headers \<Rightarrow> Headers" where
  "add_api_cors_headers headers =
     header_insert ''vary'' ''Origin''
       (header_insert ''access-control-allow-headers'' ''Authorization, Content-Type''
         (header_insert ''access-control-allow-methods'' ''GET, POST, PATCH, DELETE, OPTIONS''
           (header_insert ''access-control-allow-origin'' ''https://relay.lemonhx.moe'' headers)))"

definition ingress_error :: "nat \<Rightarrow> string \<Rightarrow> IngressResponse" where
  "ingress_error status message =
     \<lparr>ir_status = status, ir_headers = [(''content-type'', ''text/plain; charset=utf-8'')],
      ir_body = TextBody message\<rparr>"

definition http_ingress_handler ::
  "Externals \<Rightarrow> Decoders \<Rightarrow> Env \<Rightarrow> bytes \<Rightarrow> (string \<Rightarrow> string option) \<Rightarrow> Forwarding \<Rightarrow> HttpRequest \<Rightarrow> Protocol \<Rightarrow>
     AppState \<Rightarrow> IngressResponse \<times> AppState" where
  "http_ingress_handler X J E raw parse_name F r protocol st =
     (if is_api_host r st then
        if hr_method r = OtherMethod ''OPTIONS''
        then (\<lparr>ir_status = 200, ir_headers = add_api_cors_headers [], ir_body = EmptyBody\<rparr>, st)
        else
          (case api_handler X J E raw (api_request r) st of
             (response, st) \<Rightarrow>
               (\<lparr>ir_status = rs_status response,
                 ir_headers = add_api_cors_headers [(''content-type'', ''application/json'')],
                 ir_body = ApiBody (rs_body response)\<rparr>, st))
      else
        (case forward_http_request X parse_name F r protocol st of
           Inr (_, _, response) \<Rightarrow> (response, st)
         | Inl _ \<Rightarrow> (ingress_error 502 ''service is unavailable'', st)))"

end
