(* ===== verification/Ingress_Props.thy ===== *)
theory Ingress_Props
  imports Ingress
begin

text \<open>
  Properties of the public ingress: header hygiene and host routing.
\<close>

section \<open>Hop-by-hop headers\<close>

lemma fold_header_remove: "fold header_remove names headers = filter (\<lambda>p. fst p \<notin> set names) headers"
  by (induction names arbitrary: headers) (auto simp: header_remove_def conj_commute intro: filter_cong)

lemma set_map_filter: "set (List.map_filter f xs) = {y. \<exists>x \<in> set xs. f x = Some y}"
  by (induction xs) (auto simp: map_filter_simps split: option.splits)

text \<open>exactly the end-to-end headers pass, in their order: everything but the eight hop-by-hop
  headers of HTTP/1.1 and whatever the Connection header names.\<close>

theorem strip_hop_by_hop_exact:
  "strip_hop_by_hop_headers parse_name headers =
     filter (\<lambda>p. fst p \<notin> {''connection'', ''keep-alive'', ''proxy-authenticate'', ''proxy-authorization'', ''te'',
         ''trailer'', ''transfer-encoding'', ''upgrade''} \<and>
       \<not> (\<exists>v token. v \<in> set (header_get_all ''connection'' headers) \<and> list_all visible_ascii v \<and>
            token \<in> set (split_on (CHR '','') v) \<and> parse_name (trim token) = Some (fst p))) headers"
proof -
  have names: "n \<in> set (connection_names parse_name headers) \<longleftrightarrow>
      (\<exists>v token. v \<in> set (header_get_all ''connection'' headers) \<and> list_all visible_ascii v \<and>
         token \<in> set (split_on (CHR '','') v) \<and> parse_name (trim token) = Some n)" for n
    unfolding connection_names_def set_map_filter set_concat set_map to_str_def by auto
  show ?thesis
    unfolding strip_hop_by_hop_headers_def fold_header_remove filter_filter names [symmetric]
    by (intro filter_cong refl) (auto simp: hop_by_hop_def)
qed

section \<open>Host names\<close>

lemma split_on_nonempty: "split_on c s \<noteq> []"
  by (induction s) (auto split: list.splits)

lemma hd_split_on: "hd (split_on c s) = takeWhile (\<lambda>x. x \<noteq> c) s"
proof (induction s)
  case (Cons x s)
  then show ?case by (cases "split_on c s") (auto simp: split_on_nonempty)
qed simp

lemma trim_end_dots_keep: "s \<noteq> [] \<Longrightarrow> last s \<noteq> CHR ''.'' \<Longrightarrow> trim_end_dots (s @ replicate n (CHR ''.'')) = s"
proof -
  assume "s \<noteq> []" "last s \<noteq> CHR ''.''"
  then have "rev s \<noteq> []" "hd (rev s) \<noteq> CHR ''.''" by (simp_all add: hd_rev)
  then have "dropWhile (\<lambda>c. c = CHR ''.'') (rev s) = rev s" by (cases "rev s") simp_all
  moreover have "dropWhile (\<lambda>c. c = CHR ''.'') (replicate n (CHR ''.'') @ ys) = dropWhile (\<lambda>c. c = CHR ''.'') ys" for ys
    by (induction n) simp_all
  ultimately show ?thesis by (simp add: trim_end_dots_def)
qed

text \<open>The Host values of one name: any letter case, an optional port or trailing dots.\<close>

definition spells_host :: "string \<Rightarrow> string \<Rightarrow> bool" where
  "spells_host name host \<longleftrightarrow>
     (\<exists>h. map to_ascii_lower h = name \<and>
        ((\<exists>n. host = h @ replicate n (CHR ''.'')) \<or>
         (\<exists>port. host = h @ CHR '':'' # port \<and> port \<noteq> [] \<and> last port \<noteq> CHR ''.'')))"

lemma lower_special: "to_ascii_lower c = CHR '':'' \<longleftrightarrow> c = CHR '':''" "to_ascii_lower c = CHR ''.'' \<longleftrightarrow> c = CHR ''.''"
proof -
  have up: "byte_of (to_ascii_lower c) = byte_of c + 32" if "is_ascii_uppercase c"
    using that by (simp add: to_ascii_lower_def is_ascii_uppercase_def byte_of_def)
  have "byte_of (CHR '':'') = 58" "byte_of (CHR ''.'') = 46" by (simp_all add: byte_of_def)
  with up show "to_ascii_lower c = CHR '':'' \<longleftrightarrow> c = CHR '':''" "to_ascii_lower c = CHR ''.'' \<longleftrightarrow> c = CHR ''.''"
    by (cases "is_ascii_uppercase c"; fastforce simp: to_ascii_lower_def is_ascii_uppercase_def)+
qed

lemma host_name_spelled:
  assumes "spells_host name host" and "name \<noteq> []" and "last name \<noteq> CHR ''.''" and "CHR '':'' \<notin> set name"
  shows "map to_ascii_lower (host_name host) = name"
proof -
  from assms(1) obtain h where h: "map to_ascii_lower h = name"
    "(\<exists>n. host = h @ replicate n (CHR ''.'')) \<or> (\<exists>port. host = h @ CHR '':'' # port \<and> port \<noteq> [] \<and> last port \<noteq> CHR ''.'')"
    by (auto simp: spells_host_def)
  have h_ne: "h \<noteq> []" using h(1) assms(2) by auto
  have "to_ascii_lower (last h) = last name" using h(1) h_ne by (metis last_map)
  then have h_dot: "last h \<noteq> CHR ''.''" using assms(3) lower_special(2) by metis
  have h_colon: "CHR '':'' \<notin> set h" using h(1) assms(4) lower_special(1) by (metis image_eqI set_map)
  have take: "takeWhile (\<lambda>c. c \<noteq> CHR '':'') (h @ rest) = h @ takeWhile (\<lambda>c. c \<noteq> CHR '':'') rest" for rest
    using h_colon by (intro takeWhile_append2) auto
  from h(2) show ?thesis
  proof
    assume "\<exists>n. host = h @ replicate n (CHR ''.'')"
    then have trimmed: "trim_end_dots host = h" using trim_end_dots_keep h_ne h_dot by blast
    have "takeWhile (\<lambda>c. c \<noteq> CHR '':'') h = h" using take [of "[]"] by (simp only: append_Nil2 takeWhile.simps)
    then show ?thesis unfolding host_name_def hd_split_on trimmed using h(1) by (simp only:)
  next
    assume "\<exists>port. host = h @ CHR '':'' # port \<and> port \<noteq> [] \<and> last port \<noteq> CHR ''.''"
    then obtain port where port: "host = h @ CHR '':'' # port" "port \<noteq> []" "last port \<noteq> CHR ''.''" by blast
    then have "trim_end_dots host = host" using trim_end_dots_keep [of host 0] by simp
    then show ?thesis using take [of "CHR '':'' # port"] h(1) port(1) by (simp add: host_name_def hd_split_on)
  qed
qed

section \<open>Routing\<close>

lemma find_unique:
  assumes "x \<in> set xs" and "P x" and "\<And>y. y \<in> set xs \<Longrightarrow> P y \<Longrightarrow> y = x"
  shows "find P xs = Some x"
  using assms
proof (induction xs)
  case (Cons a xs)
  show ?case
  proof (cases "P a")
    case True
    then show ?thesis using Cons.prems(3) [of a] by simp
  next
    case False
    then have "x \<in> set xs" using Cons.prems(1,2) by auto
    then have "find P xs = Some x"
      using Cons.prems(2) by (rule Cons.IH) (rule Cons.prems(3), simp_all)
    with False show ?thesis by simp
  qed
qed simp

definition endpoints_ok :: "AppState \<Rightarrow> bool" where
  "endpoints_ok st \<longleftrightarrow> (\<forall>s \<in> set (bt_values (st_services st)). endpoint_ok st s)"

lemma endpoint_ok_web:
  assumes "endpoint_ok st s" and "sd_protocol s \<noteq> Tcp"
  obtains domain where "st_http_domain st = Some domain" and "sd_public_host s = Some (sd_service_name s @ ''.'' @ domain)"
  using assms by (cases "sd_protocol s") (auto simp: endpoint_ok_def)

lemma find_http_service_of:
  assumes "directory_ok (st_services st)" and "endpoints_ok st"
    and "bt_get (st_services st) i = Some s" and "sd_protocol s = protocol" and "protocol \<noteq> Tcp"
    and "sd_public_host s = Some host"
  shows "find_http_service protocol host st = Some s"
  unfolding find_http_service_def
proof (rule find_unique)
  show "s \<in> set (bt_values (st_services st))" using assms(3) by (rule bt_get_in_values)
  show "sd_protocol s = protocol \<and> sd_public_host s = Some host" using assms(4,6) by simp
  fix t
  assume t: "t \<in> set (bt_values (st_services st))" "sd_protocol t = protocol \<and> sd_public_host t = Some host"
  have ok: "endpoint_ok st s" "endpoint_ok st t"
    using assms(2) t(1) bt_get_in_values [OF assms(3)] by (auto simp: endpoints_ok_def)
  from ok(1) assms(4,5) obtain d where d: "st_http_domain st = Some d" "sd_public_host s = Some (sd_service_name s @ ''.'' @ d)"
    by (auto elim: endpoint_ok_web)
  moreover from ok(2) t(2) assms(5) obtain d' where "st_http_domain st = Some d'" "sd_public_host t = Some (sd_service_name t @ ''.'' @ d')"
    by (auto elim: endpoint_ok_web)
  ultimately have names: "sd_service_name t = sd_service_name s" using assms(6) t(2) by simp
  obtain j where j: "bt_get (st_services st) j = Some t"
    using t(1) directory_okD(1) [OF assms(1)] by (auto simp: bt_values_iff)
  from directory_okD(3) [OF assms(1) j assms(3) names] j assms(3) show "t = s" by simp
qed

lemma find_http_service_spelled:
  assumes "registry_inv st" and "endpoints_ok st"
    and "bt_get (st_services st) i = Some s" and "sd_protocol s = protocol" and "protocol \<noteq> Tcp"
    and "st_http_domain st = Some domain"
    and "CHR '':'' \<notin> set (sd_service_name s @ ''.'' @ domain)" and "domain \<noteq> []" and "last domain \<noteq> CHR ''.''"
    and "spells_host (sd_service_name s @ ''.'' @ domain) host"
  shows "find_http_service protocol (map to_ascii_lower (host_name host)) st = Some s"
proof -
  have "map to_ascii_lower (host_name host) = sd_service_name s @ ''.'' @ domain"
    using assms(7-10) by (intro host_name_spelled) simp_all
  moreover have "endpoint_ok st s"
    using assms(2) bt_get_in_values [OF assms(3)] by (simp add: endpoints_ok_def)
  then have "sd_public_host s = Some (sd_service_name s @ ''.'' @ domain)"
    using assms(4-6) by (auto elim: endpoint_ok_web)
  ultimately show ?thesis
    using assms(1-5) by (intro find_http_service_of) (simp_all add: registry_inv_def)
qed

text \<open>The request that goes into the tunnel and the answer that goes back.\<close>

definition tunnelled ::
  "(string \<Rightarrow> string option) \<Rightarrow> HttpRequest \<Rightarrow> string \<Rightarrow> string \<Rightarrow> HttpRequest" where
  "tunnelled parse_name r host target =
     r\<lparr>hr_target := target, hr_headers := strip_hop_by_hop_headers parse_name (header_insert ''host'' host (hr_headers r))\<rparr>"

lemma forward_http_request_found:
  assumes "request_host r = Some host"
    and "find_http_service protocol (map to_ascii_lower (host_name host)) st = Some s"
  shows "forward_http_request X parse_name F r protocol st = Inr (tunnel, sent, answer) \<longleftrightarrow>
    (\<exists>t host_value target response.
       open_client_stream X (sd_service_id s) (fw_fresh F) (fw_opened F) (fw_io F) (fw_ack F) st = Inr (tunnel, t) \<and>
       header_value host = Some host_value \<and>
       fw_parse_target F (case hr_path_and_query r of None \<Rightarrow> ''/'' | Some pq \<Rightarrow> pq) = Some target \<and>
       fw_handshake F \<and> fw_response F = Some response \<and>
       sent = tunnelled parse_name r host_value target \<and>
       answer = response\<lparr>ir_headers := strip_hop_by_hop_headers parse_name (ir_headers response)\<rparr>)"
  unfolding forward_http_request_def assms(1) Let_def ok_or_simps result_bind_simps assms(2)
  by (auto simp: result_bind_Inr_iff ok_or_Inr_iff tunnelled_def split: if_splits)

text \<open>What forwarding to a service of the directory comes to, for any spelling of its host.\<close>

lemma forward_http_request_spelled:
  assumes "registry_inv st" and "endpoints_ok st"
    and "bt_get (st_services st) i = Some s" and "sd_protocol s = protocol" and "protocol \<noteq> Tcp"
    and "st_http_domain st = Some domain"
    and "CHR '':'' \<notin> set (sd_service_name s @ ''.'' @ domain)" and "domain \<noteq> []" and "last domain \<noteq> CHR ''.''"
    and "request_host r = Some host" and "spells_host (sd_service_name s @ ''.'' @ domain) host"
  shows "forward_http_request X parse_name F r protocol st = Inr (tunnel, sent, answer) \<longleftrightarrow>
    (\<exists>t host_value target response.
       open_client_stream X i (fw_fresh F) (fw_opened F) (fw_io F) (fw_ack F) st = Inr (tunnel, t) \<and>
       header_value host = Some host_value \<and>
       fw_parse_target F (case hr_path_and_query r of None \<Rightarrow> ''/'' | Some pq \<Rightarrow> pq) = Some target \<and>
       fw_handshake F \<and> fw_response F = Some response \<and>
       sent = tunnelled parse_name r host_value target \<and>
       answer = response\<lparr>ir_headers := strip_hop_by_hop_headers parse_name (ir_headers response)\<rparr>)"
proof -
  have "sd_service_id s = i"
    using assms(1,3) directory_okD(2) by (auto simp: registry_inv_def)
  with forward_http_request_found [OF assms(10) find_http_service_spelled [OF assms(1-9,11)]]
  show ?thesis by (simp only:)
qed

lemma find_http_service_uppercase:
  assumes "endpoints_ok st" and "st_http_domain st = Some domain" and "map to_ascii_lower domain \<noteq> domain"
    and "protocol \<noteq> Tcp"
  shows "find_http_service protocol (map to_ascii_lower (host_name host)) st = None"
proof (rule ccontr)
  assume "find_http_service protocol (map to_ascii_lower (host_name host)) st \<noteq> None"
  then obtain s where s: "s \<in> set (bt_values (st_services st))" "sd_protocol s = protocol"
      "sd_public_host s = Some (map to_ascii_lower (host_name host))"
    by (auto simp: find_http_service_def find_None_iff)
  with assms have "sd_public_host s = Some (sd_service_name s @ ''.'' @ domain)"
    by (auto simp: endpoints_ok_def elim!: ballE [of _ _ s] endpoint_ok_web)
  with s(3) have eq: "map to_ascii_lower (host_name host) = sd_service_name s @ ''.'' @ domain" by simp
  have idem: "to_ascii_lower (to_ascii_lower c) = to_ascii_lower c" for c
    by (auto simp: to_ascii_lower_def is_ascii_uppercase_def byte_of_def)
  have "map to_ascii_lower (map to_ascii_lower (host_name host)) = map to_ascii_lower (host_name host)"
    using idem by simp
  with eq have "map to_ascii_lower domain = domain" by simp
  with assms(3) show False by simp
qed

text \<open>with an upper-case letter in the configured domain no request reaches any HTTP service: the host
  is folded to lower case and the service's public host is not.\<close>

theorem uppercase_domain_unreachable:
  assumes "endpoints_ok st" and "st_http_domain st = Some domain" and "map to_ascii_lower domain \<noteq> domain"
    and "protocol \<noteq> Tcp"
  shows "forward_http_request X parse_name F r protocol st =
    Inl (if request_host r = None then ''HTTP request is missing a Host header''
         else ''no HTTP service is registered for host'')"
  by (cases "request_host r") (simp_all add: forward_http_request_def Let_def find_http_service_uppercase [OF assms])

text \<open>Requests for the API host, and only they, reach the control API; every other request leaves
  the server state as it is.\<close>

lemma ingress_separates_api:
  "(if is_api_host r st
    then snd (http_ingress_handler X J E raw parse_name F r protocol st) \<in> {st, snd (api_handler X J E raw (api_request r) st)}
    else snd (http_ingress_handler X J E raw parse_name F r protocol st) = st)"
  by (simp add: http_ingress_handler_def case_prod_beta split: sum.split)

lemma http_ingress_handler_inv:
  "registry_inv st \<Longrightarrow> registry_inv (snd (http_ingress_handler X J E raw parse_name F r protocol st))"
  by (simp add: http_ingress_handler_def case_prod_beta api_handler_inv split: sum.split)

section \<open>Witnesses\<close>

definition web_state :: "string \<Rightarrow> AppState" where
  "web_state domain = sample_state\<lparr>st_http_domain := Some domain,
     st_services := [(UuidId 2, http_service\<lparr>sd_public_host := Some (''ssh.'' @ domain)\<rparr>)]\<rparr>"

lemma web_state_ok: "registry_inv (web_state domain)" "endpoints_ok (web_state domain)"
  using sample_state_inv
  by (auto simp: registry_inv_def directory_ok_def maps_ok_def bt_wf_def bt_get_def service_defs web_state_def
      sample_state_def endpoints_ok_def endpoint_ok_def bt_values_def leases_port_def split: if_splits)

text \<open>A visitor's request, and a client that acknowledges the tunnel and answers.\<close>

definition visitor :: "string \<Rightarrow> HttpRequest" where
  "visitor host = \<lparr>hr_method = GET, hr_authority = None, hr_path = ''/x'', hr_path_and_query = Some ''/x'',
     hr_target = ''/x'', hr_headers = [(''host'', host)], hr_body = Inr []\<rparr>"

definition answer :: IngressResponse where
  "answer = \<lparr>ir_status = 200, ir_headers = [], ir_body = TunnelBody [1]\<rparr>"

definition forwarding :: Forwarding where
  "forwarding = \<lparr>fw_fresh = 5, fw_opened = Opened, fw_io = True, fw_ack = AckRead (Inr (OpenStreamAck (UuidId 5))),
     fw_parse_target = Some, fw_handshake = True, fw_response = Some answer\<rparr>"

definition opening_externals :: Externals where
  "opening_externals = sample_externals\<lparr>x_frame := listed [OpenStream (UuidId 5) (UuidId 2)]\<rparr>"

theorem uppercase_domain_unreachable_witness:
  "forward_http_request opening_externals (\<lambda>_. None) forwarding (visitor ''ssh.D'') Http (web_state ''D'') =
     Inl ''no HTTP service is registered for host''"
proof -
  have upper: "map to_ascii_lower ''D'' \<noteq> ''D''" by code_simp
  have domain: "st_http_domain (web_state ''D'') = Some ''D''" by (simp add: web_state_def)
  have "to_str ''ssh.D'' = Some ''ssh.D''" by code_simp
  then have "request_host (visitor ''ssh.D'') = Some ''ssh.D''"
    by (simp add: request_host_def header_str_def header_get_def visitor_def)
  with uppercase_domain_unreachable [OF web_state_ok(2) domain upper, of Http] show ?thesis by simp
qed

end
