(* ===== verification/System.thy ===== *)
theory System
  imports Ingress_Props
begin

text \<open>
  The whole relay server: its shared state with every client connection, driven by one event
  at a time (\<open>run\<close>, \<open>run_api\<close> and the listeners of \<open>transport.rs\<close> and
  \<open>ingress.rs\<close> spawn the handlers; a step here is what a handler does between two
  awaited reads). Start-up restores the listeners of persisted TCP services.
\<close>

section \<open>Start-up\<close>

text \<open>The loop of \<open>run\<close> over the persisted TCP services.\<close>

fun restore_ingress :: "Externals \<Rightarrow> Env \<Rightarrow> ServiceDefinition list \<Rightarrow> AppState \<Rightarrow> (string + unit) \<times> AppState" where
  "restore_ingress X E [] st = (Inr (), st)"
| "restore_ingress X E (service # services) st =
     (case ensure_tcp_ingress E service st of
        (Inl _, st) \<Rightarrow> (Inl (''failed to restore TCP ingress for persisted service '' @ id_string X (sd_service_id service)), st)
      | (Inr _, st) \<Rightarrow> restore_ingress X E services st)"

definition persisted_tcp_services :: "AppState \<Rightarrow> ServiceDefinition list" where
  "persisted_tcp_services st = filter (\<lambda>service. sd_protocol service = Tcp) (bt_values (st_services st))"

text \<open>The part of \<open>run_cli\<close> that builds the state from an opened database.\<close>

record RunConfig =
  rc_public_host :: string
  rc_http_domain :: "string option"
  rc_tcp_port_start :: u16
  rc_tcp_port_end :: u16
  rc_admin_token :: string
  rc_user_token :: string

definition initial_state :: "RunConfig \<Rightarrow> TokenState \<Rightarrow> (ServiceId, ServiceDefinition) btree \<Rightarrow>
    (NodeId, NodeRecord) btree \<Rightarrow> Database \<Rightarrow> AppState" where
  "initial_state rc tokens services nodes d =
     \<lparr>st_tokens = tokens, st_tokens_poisoned = False, st_services = services, st_nodes = nodes,
      st_sessions = [], st_tcp_ingress_tasks = [], st_public_host = rc_public_host rc,
      st_http_domain = rc_http_domain rc, st_tcp_port_start = rc_tcp_port_start rc,
      st_tcp_port_end = rc_tcp_port_end rc, st_store = d, st_effects = []\<rparr>"

definition load_state ::
  "Externals \<Rightarrow> RunConfig \<Rightarrow> db_fault option \<Rightarrow> db_fault option \<Rightarrow> db_fault option \<Rightarrow> db_fault option \<Rightarrow>
     Database \<Rightarrow> string + AppState" where
  "load_state X rc f_services f_nodes f_read f_write d =
     result_bind (load_services X f_services d) (\<lambda>services.
     result_bind (load_nodes X f_nodes d) (\<lambda>nodes.
     case load_or_initialize_tokens X f_read f_write (hash_token (x_blake3 X) (rc_admin_token rc))
            (hash_token (x_blake3 X) (rc_user_token rc)) d of
       (Inl e, _) \<Rightarrow> Inl e
     | (Inr tokens, d) \<Rightarrow> Inr (initial_state rc tokens services nodes d)))"

definition start_server :: "Externals \<Rightarrow> Env \<Rightarrow> AppState \<Rightarrow> (string + unit) \<times> AppState" where
  "start_server X E st = restore_ingress X E (persisted_tcp_services st) st"

section \<open>Events\<close>

record Link =
  li_quic :: bool
  li_peer :: Peer
  li_connection :: Connection

record Server =
  se_state :: AppState
  se_links :: "(nat, Link) btree"

definition handle_of :: "bool \<Rightarrow> nat \<Rightarrow> ClientSession" where
  "handle_of quic c = (if quic then QuicConnection c else YamuxConnection c)"

datatype Event =
    Accepted nat bool string u16
  | ControlRead nat ControlInput
  | ApiCall Decoders Env bytes Request
  | IngressCall Decoders Env bytes "string \<Rightarrow> string option" Forwarding HttpRequest Protocol

definition server_step :: "Externals \<Rightarrow> Server \<Rightarrow> Event \<Rightarrow> Server" where
  "server_step X s e =
     (case e of
        Accepted c quic ip port \<Rightarrow>
          if bt_contains_key (se_links s) c then s
          else s\<lparr>se_links := bt_insert c \<lparr>li_quic = quic,
                 li_peer = \<lparr>pe_ip = ip, pe_port = port, pe_session = handle_of quic c\<rparr>,
                 li_connection = new_connection\<rparr> (se_links s)\<rparr>
      | ControlRead c i \<Rightarrow>
          (case bt_get (se_links s) c of
             None \<Rightarrow> s
           | Some l \<Rightarrow>
               (case handler_step (li_quic l) X (li_peer l) i (li_connection l) (se_state s) of
                  (co, st) \<Rightarrow> s\<lparr>se_state := st, se_links := bt_insert c (l\<lparr>li_connection := co\<rparr>) (se_links s)\<rparr>))
      | ApiCall J E raw request \<Rightarrow> s\<lparr>se_state := snd (api_handler X J E raw request (se_state s))\<rparr>
      | IngressCall J E raw parse_name F r protocol \<Rightarrow>
          s\<lparr>se_state := snd (http_ingress_handler X J E raw parse_name F r protocol (se_state s))\<rparr>)"

definition boot :: "AppState \<Rightarrow> Server" where
  "boot st = \<lparr>se_state = st, se_links = []\<rparr>"

text \<open>The servers that events lead to from a start state.\<close>

inductive reachable :: "Externals \<Rightarrow> AppState \<Rightarrow> Server \<Rightarrow> bool" for X st0 where
  start: "reachable X st0 (boot st0)"
| step: "reachable X st0 s \<Longrightarrow> reachable X st0 (server_step X s e)"

lemma reachable_run: "reachable X st0 s \<longleftrightarrow> (\<exists>es. s = run_events (server_step X) (boot st0) es)"
proof
  assume "reachable X st0 s"
  then show "\<exists>es. s = run_events (server_step X) (boot st0) es"
  proof induction
    case start
    show ?case by (rule exI [of _ "[]"]) simp
  next
    case (step s e)
    then obtain es where "s = run_events (server_step X) (boot st0) es" by blast
    then show ?case by (intro exI [of _ "es @ [e]"]) (simp add: run_events_append)
  qed
next
  have "reachable X st0 s \<Longrightarrow> reachable X st0 (run_events (server_step X) s es)" for s es
    by (induction es arbitrary: s) (auto intro: reachable.step)
  moreover assume "\<exists>es. s = run_events (server_step X) (boot st0) es"
  ultimately show "reachable X st0 s" using reachable.start by blast
qed

section \<open>Every event keeps the directory invariant\<close>

definition directory_inv :: "Server \<Rightarrow> bool" where
  "directory_inv s \<longleftrightarrow> registry_inv (se_state s)"

lemma server_step_directory: "directory_inv s \<Longrightarrow> directory_inv (server_step X s e)"
  by (cases e)
     (simp_all add: directory_inv_def server_step_def case_prod_beta handler_step_inv api_handler_inv
       http_ingress_handler_inv split: option.split)

interpretation registry_system: invariant_system "server_step X" directory_inv for X
  by unfold_locales (rule server_step_directory)

end
