(* ===== verification/System_Props.thy ===== *)
theory System_Props
  imports System
begin

text \<open>
  Invariants of the whole server over every sequence of events, and what start-up restores.
\<close>

section \<open>Sessions through one step\<close>

lemma register_node_sessions:
  "bt_get (st_sessions (snd (register_node tr X E peer pr m k st))) n = Some a \<Longrightarrow>
     bt_get (st_sessions st) n = Some a \<or>
     n = pr_node pr \<and> a = \<lparr>as_id = pr_session pr, as_token_kind = pr_kind pr, as_connection = pe_session peer\<rparr>"
  by (auto simp: register_node_def Let_def case_prod_beta split: sum.splits if_splits)

text \<open>The loop body: what it can add to the session table, and the registered flag.\<close>

lemma frame_sessions:
  assumes "yamux_frame X E io peer pr f registered sent st = (out, registered', sent', st') \<or>
      quic_frame X E io peer pr f registered sent st = (out, registered', sent', st')"
    and "bt_get (st_sessions st') n = Some a"
  shows "bt_get (st_sessions st) n = Some a \<or>
    n = pr_node pr \<and> a = \<lparr>as_id = pr_session pr, as_token_kind = pr_kind pr, as_connection = pe_session peer\<rparr> \<and>
    (out = NextFrame \<longrightarrow> registered')"
proof (cases "\<exists>m k. f = RegisterNode m k")
  case True
  then obtain m k where f: "f = RegisterNode m k" by blast
  from assms(1) obtain tr where "(case register_node tr X E peer pr m k st of
         (Inl e, st) \<Rightarrow> (LoopError e, registered, sent, st) | (Inr _, st) \<Rightarrow> (NextFrame, True, sent, st)) =
      (out, registered', sent', st')"
    unfolding f by (auto simp: yamux_frame_def quic_frame_def)
  then have "st' = snd (register_node tr X E peer pr m k st)" "out = NextFrame \<longrightarrow> registered'"
    by (auto simp: case_prod_beta split: sum.splits)
  with assms(2) register_node_sessions show ?thesis by metis
next
  case False
  with assms(1) have "yamux_frame X E io peer pr f registered sent st = (out, registered', sent', st')"
    using quic_frame_yamux by metis
  then have "st' = snd (snd (snd (yamux_frame X E io peer pr f registered sent st)))" by simp
  also have "st_sessions \<dots> = st_sessions st"
    using False by (cases f) (simp_all add: yamux_frame_def case_prod_beta split: sum.split)
  finally show ?thesis using assms(2) by simp
qed

lemma frame_registered:
  assumes "yamux_frame X E io peer pr f registered sent st = (out, registered', sent', st')"
  shows "registered \<longrightarrow> registered'"
  using assms
  by (cases f) (auto simp: yamux_frame_def reply_def case_prod_beta split: sum.splits if_splits)

lemma yamux_finish_sessions:
  "bt_get (st_sessions (snd (yamux_finish X E pr r sent st))) n = Some a \<Longrightarrow>
     bt_get (st_sessions st) n = Some a \<and> \<not> (n = pr_node pr \<and> as_id a = pr_session pr)"
  by (auto simp: yamux_finish_def case_prod_beta end_session_state session_active_iff split: sum.splits if_splits)

lemma yamux_finish_phase: "\<exists>r'. co_phase (fst (yamux_finish X E pr r sent st)) = Ended r'"
  by (simp add: yamux_finish_def case_prod_beta split: sum.split)

text \<open>A Yamux step from \<open>Serving\<close>: it goes on, or it ends with its own session gone.\<close>

lemma yamux_serving_step:
  assumes "co_phase co = Serving pr registered" and "yamux_step X peer i co st = (co', st')"
    and "bt_get (st_sessions st') n = Some a"
  obtains (going_on) registered' where "co_phase co' = Serving pr registered'" and "registered \<longrightarrow> registered'"
      and "bt_get (st_sessions st) n = Some a \<or>
        n = pr_node pr \<and> registered' \<and>
        a = \<lparr>as_id = pr_session pr, as_token_kind = pr_kind pr, as_connection = pe_session peer\<rparr>"
  | (ended) r where "co_phase co' = Ended r" and "bt_get (st_sessions st) n = Some a"
      and "\<not> (n = pr_node pr \<and> as_id a = pr_session pr)"
proof (cases "in_read i")
  case (Inl e)
  with assms(1,2) have "(co', st') = yamux_finish X (in_env i) pr (Inl (wire_message e)) (co_sent co) st"
    by (simp add: yamux_step_def)
  then have fin: "co' = fst (yamux_finish X (in_env i) pr (Inl (wire_message e)) (co_sent co) st)"
      "st' = snd (yamux_finish X (in_env i) pr (Inl (wire_message e)) (co_sent co) st)"
    by (metis fst_conv, metis snd_conv)
  show thesis
    using ended yamux_finish_phase fin yamux_finish_sessions assms(3) by metis
next
  case (Inr f)
  obtain out reg sent st0 where frame: "yamux_frame X (in_env i) (in_io i) peer pr f registered (co_sent co) st = (out, reg, sent, st0)"
    by (metis prod_cases4)
  have table: "bt_get (st_sessions st) m = Some b \<or> m = pr_node pr \<and>
      b = \<lparr>as_id = pr_session pr, as_token_kind = pr_kind pr, as_connection = pe_session peer\<rparr> \<and> (out = NextFrame \<longrightarrow> reg)"
    if "bt_get (st_sessions st0) m = Some b" for m b
    using frame_sessions [OF disjI1 [OF frame] that] .
  show thesis
  proof (cases "out = NextFrame")
    case True
    with frame assms(1,2) Inr have "co' = \<lparr>co_phase = Serving pr reg, co_sent = sent\<rparr>" "st' = st0"
      by (simp_all add: yamux_step_def)
    with table [of n a] assms(3) True show thesis
      by (intro going_on [of reg] frame_registered [OF frame]) auto
  next
    case False
    then obtain r where "yamux_finish X (in_env i) pr r sent st0 = (co', st')"
      using frame assms(1,2) Inr by (cases out) (auto simp: yamux_step_def)
    then have fin: "co' = fst (yamux_finish X (in_env i) pr r sent st0)"
        "st' = snd (yamux_finish X (in_env i) pr r sent st0)"
      by (metis fst_conv, metis snd_conv)
    obtain r' where "co_phase co' = Ended r'" using yamux_finish_phase fin(1) by metis
    moreover have "bt_get (st_sessions st0) n = Some a \<and> \<not> (n = pr_node pr \<and> as_id a = pr_session pr)"
      using yamux_finish_sessions assms(3) fin(2) by metis
    ultimately show thesis using table [of n a] by (intro ended) auto
  qed
qed

lemma quic_serving_step:
  assumes "co_phase co = Serving pr registered" and "bt_get (st_sessions (snd (quic_step X peer i co st))) n = Some a"
  shows "bt_get (st_sessions st) n = Some a \<or> as_connection a = pe_session peer"
proof (cases "in_read i")
  case (Inl e)
  with assms show ?thesis by (simp add: quic_step_def)
next
  case (Inr f)
  obtain out reg sent st0 where frame: "quic_frame X (in_env i) (in_io i) peer pr f registered (co_sent co) st = (out, reg, sent, st0)"
    by (metis prod_cases4)
  have "bt_get (st_sessions st0) n = Some a"
    using assms frame Inr
    by (cases out) (auto simp: quic_step_def quic_finish_def case_prod_beta end_session_state split: if_splits)
  from frame_sessions [OF disjI2 [OF frame] this] show ?thesis by auto
qed

section \<open>The API only removes sessions\<close>

lemma replace_token_sessions:
  "bt_get (st_sessions (snd (replace_token X E k h st))) n = Some a \<Longrightarrow> bt_get (st_sessions st) n = Some a"
  by (cases rule: replace_token_cases [of X E k h st]) (auto simp: bt_get_fold_remove split: if_splits)

lemma service_change_sessions:
  "st_sessions (snd (service_delete X E i st)) = st_sessions st"
  "st_sessions (snd (service_patch X J E i request st)) = st_sessions st"
  by (simp_all add: service_delete_def service_patch_def Let_def case_prod_beta split: sum.split option.split)

lemma service_item_route_sessions:
  "service_item_route X J E key request st = Some r \<Longrightarrow> st_sessions (snd r) = st_sessions st"
  by (auto simp: service_item_route_def service_change_sessions split: option.splits if_splits Method.splits)

lemma api_handler_sessions:
  assumes "bt_get (st_sessions (snd (api_handler X J E raw request st))) n = Some a"
  shows "bt_get (st_sessions st) n = Some a"
proof (cases rule: api_handler_cases [of request X J E raw st])
  case tokens
  with assms have "bt_get (st_sessions (snd (token_route X J E raw request st))) n = Some a" by simp
  then show ?thesis
    by (auto simp: token_route_def case_prod_beta generate_token_def Let_def
        split: sum.splits if_splits dest: replace_token_sessions)
next
  case create
  have "st_sessions (snd (service_create_route X J E request st)) = st_sessions st"
    by (simp add: service_create_route_def case_prod_beta split: sum.split option.split)
  with create assms show ?thesis by simp
next
  case (item key r)
  with assms service_item_route_sessions show ?thesis by metis
next
  case reading
  with assms show ?thesis by simp
qed

lemma ingress_sessions:
  "bt_get (st_sessions (snd (http_ingress_handler X J E raw pn F r protocol st))) n = Some a \<Longrightarrow>
     bt_get (st_sessions st) n = Some a"
  by (auto simp: http_ingress_handler_def case_prod_beta split: if_splits sum.splits dest: api_handler_sessions)

section \<open>Yamux sessions are alive\<close>

text \<open>
  Each link's peer carries the link's handle, and a session with a Yamux handle belongs to a
  link that is serving: the principal, node, id and kind are the session's, and it
  registered.
\<close>

definition serves :: "Link \<Rightarrow> NodeId \<Rightarrow> ActiveSession \<Rightarrow> bool" where
  "serves l n a \<longleftrightarrow> \<not> li_quic l \<and>
     co_phase (li_connection l) = Serving \<lparr>pr_kind = as_token_kind a, pr_node = n, pr_session = as_id a\<rparr> True"

definition live_inv :: "Server \<Rightarrow> bool" where
  "live_inv s \<longleftrightarrow>
     (\<forall>c l. bt_get (se_links s) c = Some l \<longrightarrow> pe_session (li_peer l) = handle_of (li_quic l) c) \<and>
     (\<forall>n a c. bt_get (st_sessions (se_state s)) n = Some a \<longrightarrow> as_connection a = YamuxConnection c \<longrightarrow>
        (\<exists>l. bt_get (se_links s) c = Some l \<and> serves l n a))"

lemma live_invI:
  assumes "\<And>c l. bt_get (se_links s) c = Some l \<Longrightarrow> pe_session (li_peer l) = handle_of (li_quic l) c"
    and "\<And>n a c. bt_get (st_sessions (se_state s)) n = Some a \<Longrightarrow> as_connection a = YamuxConnection c \<Longrightarrow>
      \<exists>l. bt_get (se_links s) c = Some l \<and> serves l n a"
  shows "live_inv s"
  unfolding live_inv_def using assms by blast

lemma live_invD:
  assumes "live_inv s"
  shows "bt_get (se_links s) c = Some l \<Longrightarrow> pe_session (li_peer l) = handle_of (li_quic l) c"
    and "bt_get (st_sessions (se_state s)) n = Some a \<Longrightarrow> as_connection a = YamuxConnection c \<Longrightarrow>
      \<exists>l. bt_get (se_links s) c = Some l \<and> serves l n a"
  using assms unfolding live_inv_def by blast+

lemma live_inv_state:
  assumes "live_inv s" and "\<And>n a. bt_get (st_sessions st) n = Some a \<Longrightarrow> bt_get (st_sessions (se_state s)) n = Some a"
  shows "live_inv (s\<lparr>se_state := st\<rparr>)"
  using live_invD [OF assms(1)] assms(2) by (intro live_invI) auto

text \<open>One read on link \<open>c\<close>: sessions of other links stay served, those of \<open>c\<close> are served by its
  new connection.\<close>

lemma read_serves:
  assumes inv: "live_inv s" and l: "bt_get (se_links s) c = Some l"
    and step: "handler_step (li_quic l) X (li_peer l) i (li_connection l) (se_state s) = (co, st)"
    and a: "bt_get (st_sessions st) n = Some a" and handle: "as_connection a = YamuxConnection d"
  shows "(d \<noteq> c \<and> bt_get (st_sessions (se_state s)) n = Some a) \<or> (d = c \<and> serves (l\<lparr>li_connection := co\<rparr>) n a)"
proof (cases "\<exists>pr reg. co_phase (li_connection l) = Serving pr reg")
  case False
  then have "st = se_state s"
    using step by (cases "co_phase (li_connection l)") (auto simp: handler_step_handshake)
  with a have old: "bt_get (st_sessions (se_state s)) n = Some a" by simp
  with live_invD(2) [OF inv old handle] l False have "d \<noteq> c" by (auto simp: serves_def)
  with old show ?thesis by blast
next
  case True
  then obtain pr reg where phase: "co_phase (li_connection l) = Serving pr reg" by blast
  have peer: "pe_session (li_peer l) = handle_of (li_quic l) c" using live_invD(1) [OF inv l] .
  show ?thesis
  proof (cases "li_quic l")
    case True
    then have "st = snd (quic_step X (li_peer l) i (li_connection l) (se_state s))"
      using step by (simp add: handler_step_def)
    with quic_serving_step [OF phase] a have "bt_get (st_sessions (se_state s)) n = Some a \<or> as_connection a = pe_session (li_peer l)"
      by metis
    with peer True handle have old: "bt_get (st_sessions (se_state s)) n = Some a" by (simp add: handle_of_def)
    with live_invD(2) [OF inv old handle] l True have "d \<noteq> c" by (auto simp: serves_def)
    with old show ?thesis by blast
  next
    case False
    then have y: "yamux_step X (li_peer l) i (li_connection l) (se_state s) = (co, st)"
      using step by (simp add: handler_step_def)
    have own: "pr = \<lparr>pr_kind = as_token_kind a, pr_node = n, pr_session = as_id a\<rparr> \<and> reg"
      if "bt_get (st_sessions (se_state s)) n = Some a" "d = c"
      using live_invD(2) [OF inv that(1) handle] l that(2) phase by (auto simp: serves_def)
    from phase y a show ?thesis
    proof (cases rule: yamux_serving_step)
      case (going_on reg')
      show ?thesis
      proof (cases "d = c")
        case True
        with going_on own have "pr = \<lparr>pr_kind = as_token_kind a, pr_node = n, pr_session = as_id a\<rparr> \<and> reg'"
          by (cases pr) auto
        with going_on(1) False True show ?thesis by (simp add: serves_def)
      next
        case False
        with going_on(3) peer \<open>\<not> li_quic l\<close> handle show ?thesis by (auto simp: handle_of_def)
      qed
    next
      case (ended r)
      with own show ?thesis by auto
    qed
  qed
qed

lemma server_step_live:
  assumes "live_inv s"
  shows "live_inv (server_step X s e)"
proof (cases e)
  case (Accepted c quic ip port)
  show ?thesis
  proof (cases "bt_contains_key (se_links s) c")
    case True
    with Accepted assms show ?thesis by (simp add: server_step_def)
  next
    case False
    then have fresh: "bt_get (se_links s) c = None" by (simp add: bt_contains_key_def)
    with False Accepted show ?thesis
      using live_invD [OF assms]
      by (intro live_invI) (auto simp: server_step_def split: if_splits, metis option.distinct(1))
  qed
next
  case (ControlRead c i)
  show ?thesis
  proof (cases "bt_get (se_links s) c")
    case None
    with ControlRead assms show ?thesis by (simp add: server_step_def)
  next
    case (Some l)
    obtain co st where step: "handler_step (li_quic l) X (li_peer l) i (li_connection l) (se_state s) = (co, st)"
      by fastforce
    have new: "server_step X s e = s\<lparr>se_state := st, se_links := bt_insert c (l\<lparr>li_connection := co\<rparr>) (se_links s)\<rparr>"
      using ControlRead Some step by (simp add: server_step_def)
    show ?thesis
      unfolding new
    proof (rule live_invI)
      fix d l'
      assume "bt_get (se_links (s\<lparr>se_state := st, se_links := bt_insert c (l\<lparr>li_connection := co\<rparr>) (se_links s)\<rparr>)) d = Some l'"
      then show "pe_session (li_peer l') = handle_of (li_quic l') d"
        using live_invD(1) [OF assms] Some by (auto split: if_splits)
    next
      fix n a d
      assume "bt_get (st_sessions (se_state (s\<lparr>se_state := st, se_links := bt_insert c (l\<lparr>li_connection := co\<rparr>) (se_links s)\<rparr>))) n = Some a"
        and handle: "as_connection a = YamuxConnection d"
      then have "(d \<noteq> c \<and> bt_get (st_sessions (se_state s)) n = Some a) \<or> (d = c \<and> serves (l\<lparr>li_connection := co\<rparr>) n a)"
        using read_serves [OF assms Some step] by simp
      then show "\<exists>l'. bt_get (se_links (s\<lparr>se_state := st, se_links := bt_insert c (l\<lparr>li_connection := co\<rparr>) (se_links s)\<rparr>)) d = Some l' \<and> serves l' n a"
        using live_invD(2) [OF assms _ handle] by auto
    qed
  qed
next
  case (ApiCall J E raw request)
  then show ?thesis
    using live_inv_state [OF assms api_handler_sessions] by (simp add: server_step_def)
next
  case (IngressCall J E raw pn F r protocol)
  then show ?thesis
    using live_inv_state [OF assms ingress_sessions] by (simp add: server_step_def)
qed

interpretation live_system: invariant_system "server_step X" live_inv for X
  by unfold_locales (rule server_step_live)

section \<open>Endpoints follow the configuration\<close>

definition config_of :: "AppState \<Rightarrow> string \<times> string option \<times> u16 \<times> u16" where
  "config_of st = (st_public_host st, st_http_domain st, st_tcp_port_start st, st_tcp_port_end st)"

definition endpoints_kept :: "AppState \<Rightarrow> AppState \<Rightarrow> bool" where
  "endpoints_kept st st' \<longleftrightarrow> config_of st' = config_of st \<and> (endpoints_ok st \<longrightarrow> endpoints_ok st')"

lemma endpoint_ok_cong: "config_of st' = config_of st \<Longrightarrow> endpoint_ok st' s = endpoint_ok st s"
  by (simp add: config_of_def endpoint_ok_def split: Protocol.split)

lemma endpoints_keptI:
  assumes "config_of st' = config_of st"
    and "\<And>x. x \<in> set (bt_values (st_services st')) \<Longrightarrow> x \<in> set (bt_values (st_services st)) \<or> endpoint_ok st x"
  shows "endpoints_kept st st'"
  unfolding endpoints_kept_def endpoints_ok_def
  using assms endpoint_ok_cong [OF assms(1)] by blast

lemma endpoints_kept_same: "config_of st' = config_of st \<Longrightarrow> st_services st' = st_services st \<Longrightarrow> endpoints_kept st st'"
  by (rule endpoints_keptI) simp_all

lemma endpoints_kept_trans: "endpoints_kept st st' \<Longrightarrow> endpoints_kept st' st'' \<Longrightarrow> endpoints_kept st st''"
  by (simp add: endpoints_kept_def)

lemma values_insert: "x \<in> set (bt_values (bt_insert k v m)) \<Longrightarrow> x = v \<or> x \<in> set (bt_values m)"
  using set_bt_insert [of k v m] by (auto simp: bt_values_def)

lemma values_remove: "x \<in> set (bt_values (bt_remove k m)) \<Longrightarrow> x \<in> set (bt_values m)"
  by (auto simp: bt_values_def bt_remove_def)

lemma config_emit [simp]: "config_of (emit fx st) = config_of st"
  by (simp add: config_of_def)

lemma config_event [simp]: "config_of (record_event X E k ek n s t st) = config_of st"
  by (simp add: config_of_def)

lemma register_service_services:
  assumes "x \<in> set (bt_values (st_services (snd (register_service X E service n st))))"
  shows "x \<in> set (bt_values (st_services st)) \<or> register_plan st service n = Inr x"
proof (cases rule: register_service_cases [of st service n X E])
  case (unbound s d e st')
  have "st_services st' = bt_insert (sd_service_id s) s (st_services st)"
    using ensure_tcp_ingress_frame(3) [of E s "st\<lparr>st_services := bt_insert (sd_service_id s) s (st_services st), st_store := d\<rparr>"]
    unfolding unbound(4) by simp
  with assms unbound(1,5) show ?thesis
    by (auto split: prod.splits sum.splits dest!: values_remove values_insert)
next
  case (registered s d st')
  let ?st = "st\<lparr>st_services := bt_insert (sd_service_id s) s (st_services st), st_store := d\<rparr>"
  have "st' = (if sd_protocol s = Tcp then snd (ensure_tcp_ingress E s ?st) else ?st)"
    using registered(3) by (auto split: if_splits)
  then have "st_services st' = bt_insert (sd_service_id s) s (st_services st)" by simp
  with assms registered(1,4) show ?thesis by (auto dest!: values_insert)
qed (use assms in \<open>auto dest!: values_insert\<close>)

lemma register_service_endpoints: "endpoints_kept st (snd (register_service X E service n st))"
  by (rule endpoints_keptI)
     (auto simp: config_of_def dest!: register_service_services register_plan_endpoint)

lemma unregister_service_endpoints: "endpoints_kept st (snd (unregister_service X E i n st))"
proof (rule endpoints_keptI)
  show "config_of (snd (unregister_service X E i n st)) = config_of st" by (simp add: config_of_def)
  fix x
  assume "x \<in> set (bt_values (st_services (snd (unregister_service X E i n st))))"
  moreover have "st_services (snd (unregister_service X E i n st)) \<in> {st_services st, bt_remove i (st_services st)}"
    by (simp add: unregister_service_def Let_def case_prod_beta split: option.split sum.split)
  ultimately show "x \<in> set (bt_values (st_services st)) \<or> endpoint_ok st x"
    by (auto dest: values_remove)
qed

lemma record_heartbeat_endpoints: "endpoints_kept st (snd (record_heartbeat X E n h st))"
  by (rule endpoints_kept_same) (simp_all add: config_of_def)

lemma register_node_endpoints: "endpoints_kept st (snd (register_node tr X E peer pr m k st))"
  by (rule endpoints_kept_same)
     (simp_all add: config_of_def register_node_def Let_def case_prod_beta split: sum.split)

lemma end_session_endpoints: "endpoints_kept st (snd (end_session X E pr st))"
  by (rule endpoints_kept_same)
     (simp_all add: config_of_def end_session_def Let_def case_prod_beta split: sum.split option.split)

lemma endpoints_kept_refl [simp]: "endpoints_kept st st"
  by (simp add: endpoints_kept_def)

lemma yamux_frame_endpoints: "endpoints_kept st (snd (snd (snd (yamux_frame X E io peer pr f registered sent st))))"
  by (cases f)
     (simp_all add: yamux_frame_def case_prod_beta register_node_endpoints register_service_endpoints
       unregister_service_endpoints record_heartbeat_endpoints split: sum.split)

lemma quic_frame_endpoints: "endpoints_kept st (snd (snd (snd (quic_frame X E io peer pr f registered sent st))))"
proof (cases "\<exists>m k. f = RegisterNode m k")
  case True
  then show ?thesis
    by (auto simp: quic_frame_def case_prod_beta register_node_endpoints split: sum.split)
next
  case False
  then show ?thesis using yamux_frame_endpoints quic_frame_yamux by metis
qed

lemma handler_step_endpoints: "endpoints_kept st (snd (handler_step q X peer i co st))"
proof (cases "co_phase co")
  case (Serving pr registered)
  note chain = endpoints_kept_trans [OF yamux_frame_endpoints end_session_endpoints]
    endpoints_kept_trans [OF quic_frame_endpoints end_session_endpoints]
  have "endpoints_kept st (snd (yamux_step X peer i co st))" "endpoints_kept st (snd (quic_step X peer i co st))"
    using Serving
    by (simp_all add: yamux_step_def quic_step_def yamux_finish_def quic_finish_def case_prod_beta chain
        end_session_endpoints yamux_frame_endpoints quic_frame_endpoints split: sum.split LoopOutcome.split)
  then show ?thesis by (simp add: handler_step_def)
qed (simp_all add: handler_step_handshake)

lemma service_delete_endpoints: "endpoints_kept st (snd (service_delete X E i st))"
proof (rule endpoints_keptI)
  show "config_of (snd (service_delete X E i st)) = config_of st"
    by (simp add: config_of_def service_delete_def Let_def case_prod_beta split: option.split sum.split)
  fix x
  assume "x \<in> set (bt_values (st_services (snd (service_delete X E i st))))"
  moreover have "st_services (snd (service_delete X E i st)) \<in> {st_services st, bt_remove i (st_services st)}"
    by (simp add: service_delete_def Let_def case_prod_beta split: option.split sum.split)
  ultimately show "x \<in> set (bt_values (st_services st)) \<or> endpoint_ok st x"
    by (auto dest: values_remove)
qed

lemma service_patch_endpoints: "endpoints_kept st (snd (service_patch X J E i request st))"
proof -
  have config: "config_of (snd (service_patch X J E i request st)) = config_of st"
    by (simp add: config_of_def service_patch_def Let_def case_prod_beta split: option.split sum.split)
  have services: "st_services (snd (service_patch X J E i request st)) = st_services st \<or>
      (\<exists>s md. bt_get (st_services st) i = Some s \<and>
         st_services (snd (service_patch X J E i request st)) = bt_insert i (s\<lparr>sd_metadata := md\<rparr>) (st_services st))"
    by (auto simp: service_patch_def Let_def case_prod_beta split: option.split sum.split)
  have patched: "endpoint_ok st (s\<lparr>sd_metadata := md\<rparr>) = endpoint_ok st s" for s md
    by (simp add: endpoint_ok_def split: Protocol.split)
  have "endpoint_ok st x"
    if ok: "endpoints_ok st" and x: "x \<in> set (bt_values (st_services (snd (service_patch X J E i request st))))" for x
    using services
  proof
    assume "st_services (snd (service_patch X J E i request st)) = st_services st"
    with ok x show ?thesis by (simp add: endpoints_ok_def)
  next
    assume "\<exists>s md. bt_get (st_services st) i = Some s \<and>
      st_services (snd (service_patch X J E i request st)) = bt_insert i (s\<lparr>sd_metadata := md\<rparr>) (st_services st)"
    then obtain s md where s: "bt_get (st_services st) i = Some s"
        "st_services (snd (service_patch X J E i request st)) = bt_insert i (s\<lparr>sd_metadata := md\<rparr>) (st_services st)" by blast
    have "endpoint_ok st s" using ok bt_get_in_values [OF s(1)] by (simp add: endpoints_ok_def)
    with ok x s(2) patched show ?thesis by (auto simp: endpoints_ok_def dest!: values_insert)
  qed
  then have "endpoints_ok st \<longrightarrow> endpoints_ok (snd (service_patch X J E i request st))"
    unfolding endpoints_ok_def [of "snd (service_patch X J E i request st)"] endpoint_ok_cong [OF config] by blast
  with config show ?thesis unfolding endpoints_kept_def by blast
qed

lemma replace_token_endpoints: "endpoints_kept st (snd (replace_token X E k h st))"
  by (rule endpoints_kept_same) (simp_all add: config_of_def)

lemma endpoints_kept_event [simp]: "endpoints_kept st (record_event X E k ek n s t st') = endpoints_kept st st'"
  by (simp add: endpoints_kept_def endpoints_ok_def endpoint_ok_cong [of "record_event X E k ek n s t st'" st'])

lemma api_handler_endpoints: "endpoints_kept st (snd (api_handler X J E raw request st))"
proof (cases rule: api_handler_cases [of request X J E raw st])
  case tokens
  then show ?thesis
    by (simp add: token_route_def case_prod_beta generate_token_def Let_def replace_token_endpoints split: sum.split)
next
  case create
  then show ?thesis
    by (simp add: service_create_route_def case_prod_beta register_service_endpoints split: sum.split option.split)
next
  case (item key r)
  have "endpoints_kept st (snd r)"
    using item(2)
    by (auto simp: service_item_route_def service_delete_endpoints service_patch_endpoints
        split: option.splits if_splits Method.splits)
  with item(3) show ?thesis by simp
qed simp

lemma server_step_endpoints: "endpoints_kept (se_state s) (se_state (server_step X s e))"
  by (cases e)
     (simp_all add: server_step_def case_prod_beta handler_step_endpoints api_handler_endpoints
       http_ingress_handler_def split: option.split sum.split)

interpretation endpoint_system: invariant_system "server_step X" "\<lambda>s. endpoints_kept st0 (se_state s)" for X st0
  by unfold_locales (rule endpoints_kept_trans [OF _ server_step_endpoints])

section \<open>Every reachable server\<close>

lemma reachable_invs:
  assumes "reachable X st0 s"
  shows "registry_inv st0 \<Longrightarrow> registry_inv (se_state s)"
    and "st_sessions st0 = [] \<Longrightarrow> live_inv s"
    and "endpoints_kept st0 (se_state s)"
proof -
  obtain es where s: "s = run_events (server_step X) (boot st0) es"
    using assms by (auto simp: reachable_run)
  show "registry_inv (se_state s)" if "registry_inv st0"
    using registry_system.run_inv [of "boot st0" X es] that by (simp add: s directory_inv_def boot_def)
  show "live_inv s" if "st_sessions st0 = []"
    unfolding s using that by (intro live_system.run_inv) (simp add: live_inv_def boot_def)
  show "endpoints_kept st0 (se_state s)"
    unfolding s by (rule endpoint_system.run_inv) (simp add: boot_def)
qed

text \<open>C3: in every reachable state a session held by a Yamux connection belongs to a handler that is
  still serving, authenticated with that kind and registered as that node: no Yamux session
  outlives its connection.\<close>

theorem yamux_sessions_always_live:
  assumes "st_sessions st0 = []" and "reachable X st0 s"
    and "bt_get (st_sessions (se_state s)) n = Some a" and "as_connection a = YamuxConnection c"
  shows "\<exists>l. bt_get (se_links s) c = Some l \<and> \<not> li_quic l \<and>
    co_phase (li_connection l) = Serving \<lparr>pr_kind = as_token_kind a, pr_node = n, pr_session = as_id a\<rparr> True"
  using live_invD(2) [OF reachable_invs(2) [OF assms(2,1)] assms(3,4)] by (simp add: serves_def)

section \<open>Start-up\<close>

lemma restore_ingress_tasks:
  assumes "restore_ingress X E services st = (Inr (), st')"
  shows "(bt_get (st_tcp_ingress_tasks st) i = Some t \<longrightarrow> bt_get (st_tcp_ingress_tasks st') i = Some t) \<and>
    (\<forall>s \<in> set services. \<exists>t. bt_get (st_tcp_ingress_tasks st') (sd_service_id s) = Some t)"
  using assms
proof (induction services arbitrary: st i t)
  case (Cons s services)
  obtain r st1 where e: "ensure_tcp_ingress E s st = (r, st1)" by fastforce
  with Cons.prems have r: "r = Inr ()" and rest: "restore_ingress X E services st1 = (Inr (), st')"
    by (cases r; simp)+
  have st1: "st1 = snd (ensure_tcp_ingress E s st)" "fst (ensure_tcp_ingress E s st) = Inr ()" using e r by simp_all
  have kept: "bt_get (st_tcp_ingress_tasks st) j = Some u \<longrightarrow> bt_get (st_tcp_ingress_tasks st1) j = Some u" for j u
    unfolding st1(1) by (auto simp: ensure_tcp_ingress_tasks)
  obtain u where "bt_get (st_tcp_ingress_tasks st1) (sd_service_id s) = Some u"
    using ensure_tcp_ingress_listening [OF st1(2)] st1(1) by auto
  with Cons.IH [OF rest] kept show ?case by (metis set_ConsD)
qed simp

lemma restore_ingress_ports:
  assumes "restore_ingress X E services st = (Inr (), st')"
    and "bt_get (st_tcp_ingress_tasks st') i = Some t"
  shows "bt_get (st_tcp_ingress_tasks st) i = Some t \<or>
    (\<exists>s \<in> set services. sd_service_id s = i \<and> sd_public_port s = Some (it_port t))"
  using assms
proof (induction services arbitrary: st)
  case (Cons s services)
  obtain r st1 where e: "ensure_tcp_ingress E s st = (r, st1)" by fastforce
  with Cons.prems have r: "r = Inr ()" and rest: "restore_ingress X E services st1 = (Inr (), st')"
    by (cases r; simp)+
  have "bt_get (st_tcp_ingress_tasks st) i = Some t \<or> sd_service_id s = i \<and> sd_public_port s = Some (it_port t)"
    if "bt_get (st_tcp_ingress_tasks st1) i = Some t"
    using that e r by (auto simp: ensure_tcp_ingress_def Let_def bt_contains_key_def split: option.splits if_splits)
  with Cons.IH [OF rest Cons.prems(2)] show ?case by auto
qed simp

text \<open>when start-up succeeds, every persisted TCP service is listening on the port it advertised
  before the restart.\<close>

theorem start_restores_leases:
  assumes "directory_ok (st_services st)" and "st_tcp_ingress_tasks st = []" and "start_server X E st = (Inr (), st')"
    and "bt_get (st_services st) i = Some s" and "sd_protocol s = Tcp"
  shows "\<exists>task. bt_get (st_tcp_ingress_tasks st') i = Some task \<and> sd_public_port s = Some (it_port task)"
proof -
  have run: "restore_ingress X E (persisted_tcp_services st) st = (Inr (), st')"
    using assms(3) by (simp add: start_server_def)
  have id: "sd_service_id s = i" using directory_okD(2) [OF assms(1,4)] .
  have "s \<in> set (persisted_tcp_services st)"
    using assms(5) bt_get_in_values [OF assms(4)] by (simp add: persisted_tcp_services_def)
  with restore_ingress_tasks [OF run] id obtain t where t: "bt_get (st_tcp_ingress_tasks st') i = Some t" by blast
  from restore_ingress_ports [OF run t] assms(2) obtain s' where s': "s' \<in> set (persisted_tcp_services st)"
      "sd_service_id s' = i" "sd_public_port s' = Some (it_port t)" by auto
  then obtain j where j: "bt_get (st_services st) j = Some s'"
    using directory_okD(1) [OF assms(1)] by (auto simp: persisted_tcp_services_def bt_values_iff)
  have "j = i" using directory_okD(2) [OF assms(1) j] s'(2) by simp
  with j assms(4) have "s' = s" by simp
  with s'(3) t show ?thesis by blast
qed

section \<open>Witnesses\<close>

theorem start_restores_leases_witness:
  "\<exists>task. bt_get (st_tcp_ingress_tasks (snd (start_server sample_externals sample_env
     (listening_state\<lparr>st_tcp_ingress_tasks := []\<rparr>)))) (UuidId 2) = Some task \<and> it_port task = 20000"
proof -
  let ?st = "listening_state\<lparr>st_tcp_ingress_tasks := []\<rparr>"
  have dir: "directory_ok (st_services ?st)"
    by (auto simp: directory_ok_def bt_wf_def bt_get_def service_defs listening_state_def split: if_splits)
  have get: "bt_get (st_services ?st) (UuidId 2) = Some sample_service" "sd_protocol sample_service = Tcp"
      "sd_public_port sample_service = Some 20000"
    by (simp_all add: listening_state_def bt_get_def sample_service_def)
  have "fst (start_server sample_externals sample_env ?st) = Inr ()"
    by (simp add: start_server_def persisted_tcp_services_def listening_state_def bt_values_def sample_service_def
        ensure_tcp_ingress_def bt_contains_key_def sample_env_def case_prod_beta Let_def)
  then have run: "start_server sample_externals sample_env ?st = (Inr (), snd (start_server sample_externals sample_env ?st))"
    by (metis prod.collapse)
  from start_restores_leases [OF dir _ run get(1,2)] get(3) show ?thesis by auto
qed

text \<open>A client that connects over TLS, says hello, authenticates and registers its node.\<close>

definition arriving :: "Frame \<Rightarrow> Event" where
  "arriving f = ControlRead 1 (reading (Inr f))"

definition arrival :: "Event list" where
  "arrival = [Accepted 1 False ''10.0.0.1'' 4000, arriving (Hello 1), arriving (Auth [CHR 0x02] sample_node),
     arriving (RegisterNode (nr_metadata sample_record) [9])]"

definition arrival_externals :: Externals where
  "arrival_externals = sample_externals\<lparr>x_frame := listed [Hello 1, AuthAccepted User],
     x_node := listed [sample_record\<lparr>nr_transport := TcpTlsYamux, nr_connected_at := 5\<rparr>]\<rparr>"

lemma arrival_sends:
  "send_frame arrival_externals True (Hello 1) sent = (Inr (), sent @ [Hello 1])"
  "send_frame arrival_externals True (AuthAccepted User) sent = (Inr (), sent @ [AuthAccepted User])"
  by (simp_all add: send_frame_def write_control_frame_def encode_frame_def arrival_externals_def listed_def
      MAX_FRAME_SIZE_def)

definition arrival_state :: AppState where
  "arrival_state = sample_state\<lparr>st_sessions := []\<rparr>"

definition arrived_principal :: Principal where
  "arrived_principal = \<lparr>pr_kind = User, pr_node = sample_node, pr_session = UuidId 8\<rparr>"

lemma arrival_handshake:
  "run_events (server_step arrival_externals) (boot arrival_state) (take 3 arrival) =
     \<lparr>se_state = arrival_state, se_links = [(1, \<lparr>li_quic = False,
        li_peer = \<lparr>pe_ip = ''10.0.0.1'', pe_port = 4000, pe_session = YamuxConnection 1\<rparr>,
        li_connection = \<lparr>co_phase = Serving arrived_principal False, co_sent = [Hello 1, AuthAccepted User]\<rparr>\<rparr>)]\<rparr>"
proof -
  have auth: "authenticate_token arrival_externals [CHR 0x02] arrival_state = Some User"
    by (simp add: authenticate_token_def arrival_state_def sample_state_def token_authenticate_def hash_token_def
        arrival_externals_def sample_externals_def sample_tokens_def string_bytes_def)
  have env: "in_io (reading r)" "e_fresh_id (in_env (reading r)) = 8" for r
    by (simp_all add: reading_def sample_env_def)
  show ?thesis
    by (simp add: arrival_def arriving_def boot_def server_step_def bt_contains_key_def bt_get_def new_connection_def
        handle_of_def handler_step_def yamux_step_def yamux_hello_def yamux_auth_def PROTOCOL_VERSION_def
        arrival_sends env auth arrived_principal_def numeral_3_eq_3)
qed

lemma arrival_registers:
  "\<exists>st. run_events (server_step arrival_externals) (boot arrival_state) arrival =
     \<lparr>se_state = st, se_links = [(1, \<lparr>li_quic = False,
        li_peer = \<lparr>pe_ip = ''10.0.0.1'', pe_port = 4000, pe_session = YamuxConnection 1\<rparr>,
        li_connection = \<lparr>co_phase = Serving arrived_principal True, co_sent = [Hello 1, AuthAccepted User]\<rparr>\<rparr>)]\<rparr> \<and>
     st_sessions st = [(sample_node, \<lparr>as_id = UuidId 8, as_token_kind = User, as_connection = YamuxConnection 1\<rparr>)]"
proof -
  let ?peer = "\<lparr>pe_ip = ''10.0.0.1'', pe_port = 4000, pe_session = YamuxConnection 1\<rparr> :: Peer"
  have valid: "metadata_validate [] = Inr ()" by code_simp
  have identity: "validate_node_identity sample_node [9] arrival_state = Inr ()"
    by (simp add: validate_node_identity_def arrival_state_def sample_state_def bt_get_def sample_record_def)
  obtain r d where "put_node arrival_externals None (sample_record\<lparr>nr_transport := TcpTlsYamux, nr_connected_at := 5\<rparr>)
      empty_database = (Inr r, d)"
    by (simp add: put_node_def encode_with_def arrival_externals_def listed_def write_txn_def)
  moreover have "\<lparr>nr_node_id = sample_node, nr_public_key = Some [9], nr_metadata = nr_metadata sample_record,
      nr_public_ip = ''10.0.0.1'', nr_source_port = 4000, nr_transport = TcpTlsYamux, nr_status = NodeIsOnline,
      nr_connected_at = 5, nr_last_heartbeat_at = None, nr_rtt_ms = None\<rparr> =
      sample_record\<lparr>nr_transport := TcpTlsYamux, nr_connected_at := 5\<rparr>"
    by (simp add: sample_record_def)
  moreover have "now_unix_ms (Some 5) = 5" by (simp add: now_unix_ms_def as_i64_def)
  moreover have "nm_metadata (nr_metadata sample_record) = []" by (simp add: sample_record_def)
  ultimately have reg: "\<exists>st. register_node TcpTlsYamux arrival_externals sample_env ?peer arrived_principal
      (nr_metadata sample_record) [9] arrival_state = (Inr (), st) \<and>
      st_sessions st = [(sample_node, \<lparr>as_id = UuidId 8, as_token_kind = User, as_connection = YamuxConnection 1\<rparr>)]"
    using valid identity
    by (simp add: register_node_def arrived_principal_def Let_def arrival_state_def) (simp add: sample_env_def)
  then obtain st where st: "register_node TcpTlsYamux arrival_externals sample_env ?peer arrived_principal
      (nr_metadata sample_record) [9] arrival_state = (Inr (), st)"
      "st_sessions st = [(sample_node, \<lparr>as_id = UuidId 8, as_token_kind = User, as_connection = YamuxConnection 1\<rparr>)]" by blast
  have split: "arrival = take 3 arrival @ [arriving (RegisterNode (nr_metadata sample_record) [9])]"
    by (simp add: arrival_def)
  have "in_env (reading r) = sample_env" for r by (simp add: reading_def)
  moreover have "run_events (server_step arrival_externals) (boot arrival_state) arrival =
      server_step arrival_externals (run_events (server_step arrival_externals) (boot arrival_state) (take 3 arrival))
        (arriving (RegisterNode (nr_metadata sample_record) [9]))"
    by (subst split) (simp add: run_events_append)
  ultimately show ?thesis
    using st unfolding arrival_handshake
    by (intro exI [of _ st])
      (simp add: arriving_def server_step_def bt_get_def handler_step_def yamux_step_def yamux_frame_def)
qed

theorem yamux_sessions_always_live_witness:
  "\<exists>s a l. reachable arrival_externals arrival_state s \<and> bt_get (st_sessions (se_state s)) sample_node = Some a \<and>
     as_connection a = YamuxConnection 1 \<and> bt_get (se_links s) 1 = Some l \<and>
     (\<exists>pr. co_phase (li_connection l) = Serving pr True)"
proof -
  let ?a = "\<lparr>as_id = UuidId 8, as_token_kind = User, as_connection = YamuxConnection 1\<rparr> :: ActiveSession"
  let ?s = "run_events (server_step arrival_externals) (boot arrival_state) arrival"
  have r: "reachable arrival_externals arrival_state ?s" by (auto simp: reachable_run)
  have empty: "st_sessions arrival_state = []" by (simp add: arrival_state_def)
  have a: "bt_get (st_sessions (se_state ?s)) sample_node = Some ?a" "as_connection ?a = YamuxConnection 1"
    using arrival_registers by (auto simp: bt_get_def)
  from yamux_sessions_always_live [OF empty r a] r a show ?thesis by blast
qed

end
