(* ===== verification/Identity.thy ===== *)
theory Identity
  imports Codec
begin

text \<open>
  The client's node identity, \<open>load_or_create_state\<close> and \<open>write_state\<close> of
  \<open>crates/ongrok-relay-client/src/main.rs\<close>: a file with the node id and the private key,
  created once and migrated when it was written before keys existed. \<open>serde_json\<close> is a
  serializer that is passed in, and so is the derivation of the public key.
\<close>

section \<open>The file\<close>

record NodeState =
  ns_node_id :: NodeId
  ns_private_key :: bytes

type_synonym Files = "string \<Rightarrow> bytes option"

text \<open>
  How the file system answers one call of \<open>load_or_create_state\<close>; a write that fails may
  leave anything in the file, also nothing.
\<close>

record FileCalls =
  fc_read :: bool
  fc_parent :: "string option"
  fc_create_dirs :: bool
  fc_write :: bool
  fc_torn :: "bytes option"
  fc_set_permissions :: bool

definition write_state ::
  "NodeState serializer \<Rightarrow> FileCalls \<Rightarrow> string \<Rightarrow> NodeState \<Rightarrow> Files \<Rightarrow> (string + unit) \<times> Files" where
  "write_state js calls path state files =
     (case to_allocvec js state of
        Inl e \<Rightarrow> (Inl e, files)
      | Inr stored \<Rightarrow>
          if \<not> fc_write calls then (Inl (''failed to write '' @ path), files(path := fc_torn calls))
          else if \<not> fc_set_permissions calls
          then (Inl (''failed to set permissions on '' @ path), files(path \<mapsto> stored))
          else (Inr (), files(path \<mapsto> stored)))"

text \<open>\<open>fresh\<close> and \<open>key\<close> are what \<open>NodeId::new\<close> and \<open>random_private_key\<close> would draw.\<close>

definition load_or_create_state ::
  "NodeState serializer \<Rightarrow> FileCalls \<Rightarrow> string \<Rightarrow> uuid \<Rightarrow> bytes \<Rightarrow> Files \<Rightarrow> (string + NodeState) \<times> Files" where
  "load_or_create_state js calls path fresh key files =
     (case files path of
        Some stored \<Rightarrow>
          if \<not> fc_read calls then (Inl (''failed to read '' @ path), files)
          else
            (case from_bytes js stored of
               Inl _ \<Rightarrow> (Inl (''invalid node state at '' @ path), files)
             | Inr state \<Rightarrow>
                 if list_all (\<lambda>byte. byte = 0) (ns_private_key state) then
                   let state = state\<lparr>ns_private_key := key\<rparr> in
                   case write_state js calls path state files of
                     (Inl e, files) \<Rightarrow> (Inl e, files)
                   | (Inr _, files) \<Rightarrow> (Inr state, files)
                 else (Inr state, files))
      | None \<Rightarrow>
          (case fc_parent calls of
             None \<Rightarrow> (Inl ''state path has no parent'', files)
           | Some parent \<Rightarrow>
               if \<not> fc_create_dirs calls then (Inl (''failed to create '' @ parent), files)
               else
                 let state = \<lparr>ns_node_id = UuidId fresh, ns_private_key = key\<rparr> in
                 case write_state js calls path state files of
                   (Inl e, files) \<Rightarrow> (Inl e, files)
                 | (Inr _, files) \<Rightarrow> (Inr state, files)))"

definition node_public_key :: "(bytes \<Rightarrow> bytes) \<Rightarrow> NodeState \<Rightarrow> bytes" where
  "node_public_key verifying_key state = verifying_key (ns_private_key state)"

section \<open>Stability\<close>

lemma write_state_Inr:
  "write_state js calls path state files = (Inr u, files') \<longleftrightarrow>
     (\<exists>stored. to_allocvec js state = Inr stored \<and> fc_write calls \<and> fc_set_permissions calls \<and> files' = files(path \<mapsto> stored))"
  by (auto simp: write_state_def split: sum.splits if_splits)

text \<open>A file that holds the record with a key loads as that record, whatever the outside draws.\<close>

lemma load_written_state:
  assumes "files path = Some stored" and "from_bytes js stored = Inr state"
    and "\<not> list_all (\<lambda>byte. byte = 0) (ns_private_key state)" and "fc_read calls"
  shows "load_or_create_state js calls path fresh key files = (Inr state, files)"
  using assms by (simp add: load_or_create_state_def)

lemma load_or_create_state_cases:
  assumes "load_or_create_state js calls path fresh key files = (Inr state, files')"
  obtains (kept) stored where "files path = Some stored" "from_bytes js stored = Inr state"
      "\<not> list_all (\<lambda>byte. byte = 0) (ns_private_key state)" "files' = files"
  | (migrated) stored old where "files path = Some stored" "from_bytes js stored = Inr old"
      "list_all (\<lambda>byte. byte = 0) (ns_private_key old)" "state = old\<lparr>ns_private_key := key\<rparr>"
      "write_state js calls path state files = (Inr (), files')"
  | (created) "files path = None" "state = \<lparr>ns_node_id = UuidId fresh, ns_private_key = key\<rparr>"
      "write_state js calls path state files = (Inr (), files')"
  using assms
  by (auto simp: load_or_create_state_def Let_def split: option.splits sum.splits prod.splits if_splits)

text \<open>C24: the identity a start returns is the one every later start returns: a file without a key is
  given one and keeps its node id, a file with a key is not touched, and only where there is no
  file a new node is made.\<close>

theorem identity_is_stable:
  assumes "load_or_create_state js calls path fresh key files = (Inr state, files')"
    and "reads_back js state" and "\<exists>byte \<in> set key. byte \<noteq> 0" and "fc_read calls'"
  shows "load_or_create_state js calls' path fresh' key' files' = (Inr state, files') \<and>
    (case files path of
       None \<Rightarrow> state = \<lparr>ns_node_id = UuidId fresh, ns_private_key = key\<rparr>
     | Some stored \<Rightarrow>
         \<exists>old. from_bytes js stored = Inr old \<and> ns_node_id state = ns_node_id old \<and>
           ns_private_key state = (if \<exists>byte \<in> set (ns_private_key old). byte \<noteq> 0 then ns_private_key old else key)) \<and>
    (\<forall>other. other = path \<or> files' other = files other)"
  using assms(1)
proof (cases rule: load_or_create_state_cases)
  case (kept stored)
  with assms(4) show ?thesis by (auto simp: load_written_state list_all_iff)
next
  case (migrated stored old)
  from migrated(5) obtain out where out: "to_allocvec js state = Inr out" "files' = files(path \<mapsto> out)"
    by (auto simp: write_state_Inr)
  with assms(2) have "from_bytes js out = Inr state" by (simp add: reads_back_def)
  with out assms(3,4) migrated show ?thesis by (auto simp: load_written_state list_all_iff)
next
  case created
  from created(3) obtain out where out: "to_allocvec js state = Inr out" "files' = files(path \<mapsto> out)"
    by (auto simp: write_state_Inr)
  with assms(2) have "from_bytes js out = Inr state" by (simp add: reads_back_def)
  with out assms(3,4) created show ?thesis by (auto simp: load_written_state list_all_iff)
qed

section \<open>Witness\<close>

definition legacy_state :: NodeState where
  "legacy_state = \<lparr>ns_node_id = UuidId 7, ns_private_key = [0, 0]\<rparr>"

definition state_json :: "NodeState serializer" where
  "state_json = listed [legacy_state, legacy_state\<lparr>ns_private_key := [4, 2]\<rparr>]"

definition good_calls :: FileCalls where
  "good_calls = \<lparr>fc_read = True, fc_parent = Some ''d'', fc_create_dirs = True, fc_write = True, fc_torn = None,
     fc_set_permissions = True\<rparr>"

theorem identity_is_stable_witness:
  "load_or_create_state state_json good_calls ''f'' 1 [4, 2] [''f'' \<mapsto> [1]] =
     (Inr (legacy_state\<lparr>ns_private_key := [4, 2]\<rparr>), [''f'' \<mapsto> [1, 1]]) \<and>
   load_or_create_state state_json good_calls ''f'' 8 [9, 9] [''f'' \<mapsto> [1, 1]] =
     (Inr (legacy_state\<lparr>ns_private_key := [4, 2]\<rparr>), [''f'' \<mapsto> [1, 1]])"
proof -
  have first: "load_or_create_state state_json good_calls ''f'' 1 [4, 2] [''f'' \<mapsto> [1]] =
      (Inr (legacy_state\<lparr>ns_private_key := [4, 2]\<rparr>), [''f'' \<mapsto> [1, 1]])"
    by (simp add: load_or_create_state_def write_state_def state_json_def listed_def legacy_state_def good_calls_def)
  have "reads_back state_json (legacy_state\<lparr>ns_private_key := [4, 2]\<rparr>)"
    unfolding state_json_def by (rule listed_reads_back)
  with identity_is_stable [OF first, of good_calls 8 "[9, 9]"] first show ?thesis
    by (simp add: good_calls_def)
qed

end
