(* ===== verification/Config.thy ===== *)
theory Config
  imports System_Props
begin

text \<open>
  The server's configuration, \<open>crates/ongrok-relay-server/src/config.rs\<close>: where the TOML file
  is looked for, how its values reach the environment clap reads, and the checks on the
  options of \<open>run\<close>. Parsing TOML and command lines is clap's and toml's.
\<close>

section \<open>The config file\<close>

type_synonym Environment = "string \<Rightarrow> string option"

record ConfigFile =
  cf_tls_cert :: "string option"
  cf_tls_key :: "string option"
  cf_api_listen :: "string option"
  cf_quic_listen :: "string option"
  cf_tcp_tls_listen :: "string option"
  cf_http_listen :: "string option"
  cf_https_listen :: "string option"
  cf_http_domain :: "string option"
  cf_public_host :: "string option"
  cf_tcp_port_start :: "u16 option"
  cf_tcp_port_end :: "u16 option"
  cf_admin_token :: "string option"
  cf_user_token :: "string option"
  cf_db_path :: "string option"

text \<open>The scan of the arguments after the program's name.\<close>

fun config_argument :: "string list \<Rightarrow> string option" where
  "config_argument [] = None"
| "config_argument (arg # args) =
     (if arg = ''--config'' then (case args of [] \<Rightarrow> None | value # _ \<Rightarrow> Some value)
      else case strip_prefix arg ''--config='' of
        Some value \<Rightarrow> Some value
      | None \<Rightarrow> config_argument args)"

definition config_path :: "Environment \<Rightarrow> string list \<Rightarrow> string option" where
  "config_path env args =
     (case env ''ONGROK_CONFIG'' of Some path \<Rightarrow> Some path | None \<Rightarrow> config_argument args)"

definition set_string :: "string \<Rightarrow> string option \<Rightarrow> Environment \<Rightarrow> Environment" where
  "set_string name v env =
     (if env name = None then (case v of Some v \<Rightarrow> env(name \<mapsto> v) | None \<Rightarrow> env) else env)"

definition set_u16 :: "string \<Rightarrow> u16 option \<Rightarrow> Environment \<Rightarrow> Environment" where
  "set_u16 name v env = set_string name (map_option (\<lambda>v. dec_string (unat v)) v) env"

text \<open>The fourteen calls of \<open>set_string\<close> and \<open>set_u16\<close>, in their order.\<close>

definition apply_config :: "ConfigFile \<Rightarrow> Environment \<Rightarrow> Environment" where
  "apply_config config env =
     (let env = set_string ''ONGROK_TLS_CERT'' (cf_tls_cert config) env;
          env = set_string ''ONGROK_TLS_KEY'' (cf_tls_key config) env;
          env = set_string ''ONGROK_API_LISTEN'' (cf_api_listen config) env;
          env = set_string ''ONGROK_QUIC_LISTEN'' (cf_quic_listen config) env;
          env = set_string ''ONGROK_TCP_TLS_LISTEN'' (cf_tcp_tls_listen config) env;
          env = set_string ''ONGROK_HTTP_LISTEN'' (cf_http_listen config) env;
          env = set_string ''ONGROK_HTTPS_LISTEN'' (cf_https_listen config) env;
          env = set_string ''ONGROK_HTTP_DOMAIN'' (cf_http_domain config) env;
          env = set_string ''ONGROK_PUBLIC_HOST'' (cf_public_host config) env;
          env = set_u16 ''ONGROK_TCP_PORT_START'' (cf_tcp_port_start config) env;
          env = set_u16 ''ONGROK_TCP_PORT_END'' (cf_tcp_port_end config) env;
          env = set_string ''ONGROK_ADMIN_TOKEN'' (cf_admin_token config) env;
          env = set_string ''ONGROK_USER_TOKEN'' (cf_user_token config) env;
          env = set_string ''ONGROK_DB_PATH'' (cf_db_path config) env
      in env)"

text \<open>\<open>read_file\<close> and \<open>parse\<close>: the file system and the TOML parser.\<close>

definition load_config_environment ::
  "(string \<Rightarrow> string option) \<Rightarrow> (string \<Rightarrow> ConfigFile option) \<Rightarrow> string list \<Rightarrow> Environment \<Rightarrow>
     string + Environment" where
  "load_config_environment read_file parse args env =
     (case config_path env args of
        None \<Rightarrow> Inr env
      | Some path \<Rightarrow>
          result_bind (ok_or (''failed to read config file '' @ path) (read_file path)) (\<lambda>contents.
          result_bind (ok_or (''failed to parse TOML config '' @ path) (parse contents)) (\<lambda>config.
            Inr (apply_config config env))))"

section \<open>The options of \<open>run\<close>\<close>

text \<open>\<open>std::net::SocketAddr\<close>: address and port; for version 6 also the flow label and the scope.\<close>

datatype SocketAddr = SocketV4 u32 u16 | SocketV6 "u16 list" u16 u32 u32

definition wildcard :: SocketAddr where
  "wildcard = SocketV4 0 0"

record RunOptions =
  ro_tls_cert :: string
  ro_tls_key :: string
  ro_api_listen :: SocketAddr
  ro_quic_listen :: SocketAddr
  ro_tcp_tls_listen :: SocketAddr
  ro_http_listen :: "SocketAddr option"
  ro_https_listen :: "SocketAddr option"
  ro_http_domain :: "string option"
  ro_public_host :: string
  ro_tcp_port_start :: u16
  ro_tcp_port_end :: u16
  ro_admin_token :: string
  ro_user_token :: string
  ro_db_path :: string

text \<open>The messages of the checks; the last names the two listeners and their address.\<close>

datatype ConfigError = PortRangeReversed | DomainRequired | InvalidDomain | SameAddress string string SocketAddr

text \<open>\<open>chars().any(char::is_whitespace)\<close> on the UTF-8 bytes of a string: the encodings of the
  Unicode characters with the White\_Space property.\<close>

fun has_whitespace :: "string \<Rightarrow> bool" where
  "has_whitespace [] = False"
| "has_whitespace (c # s) =
     (9 \<le> byte_of c \<and> byte_of c \<le> 13 \<or> byte_of c = 32 \<or>
      (case map byte_of (take 2 s) of
         [] \<Rightarrow> False
       | b # bs \<Rightarrow>
           byte_of c = 0xC2 \<and> (b = 0x85 \<or> b = 0xA0) \<or>
           byte_of c = 0xE1 \<and> b = 0x9A \<and> bs = [0x80] \<or>
           byte_of c = 0xE2 \<and> b = 0x80 \<and> (\<exists>d \<in> set bs. 0x80 \<le> d \<and> d \<le> 0x8A \<or> d = 0xA8 \<or> d = 0xA9 \<or> d = 0xAF) \<or>
           byte_of c = 0xE2 \<and> b = 0x81 \<and> bs = [0x9F] \<or>
           byte_of c = 0xE3 \<and> b = 0x80 \<and> bs = [0x80]) \<or>
      has_whitespace s)"

definition tcp_listeners :: "RunOptions \<Rightarrow> (string \<times> SocketAddr) list" where
  "tcp_listeners options =
     [(''api'', ro_api_listen options), (''tcp-tls'', ro_tcp_tls_listen options),
      (''http'', case ro_http_listen options of None \<Rightarrow> wildcard | Some a \<Rightarrow> a),
      (''https'', case ro_https_listen options of None \<Rightarrow> wildcard | Some a \<Rightarrow> a)]"

text \<open>The two nested loops; \<open>skip(index + 1)\<close> is the rest of the list.\<close>

fun check_listeners :: "(string \<times> SocketAddr) list \<Rightarrow> ConfigError + unit" where
  "check_listeners [] = Inr ()"
| "check_listeners ((left_name, left) # rest) =
     (if left = wildcard then check_listeners rest
      else case find (\<lambda>(right_name, right). right \<noteq> wildcard \<and> left = right) rest of
        Some (right_name, _) \<Rightarrow> Inl (SameAddress left_name right_name left)
      | None \<Rightarrow> check_listeners rest)"

definition validate_run_options :: "RunOptions \<Rightarrow> ConfigError + unit" where
  "validate_run_options options =
     (if ro_tcp_port_start options > ro_tcp_port_end options then Inl PortRangeReversed
      else if (ro_http_listen options \<noteq> None \<or> ro_https_listen options \<noteq> None) \<noteq> (ro_http_domain options \<noteq> None)
      then Inl DomainRequired
      else if (case ro_http_domain options of None \<Rightarrow> False
        | Some domain \<Rightarrow> domain = [] \<or> length domain > 253 \<or> has_whitespace domain)
      then Inl InvalidDomain
      else check_listeners (tcp_listeners options))"

section \<open>Precedence\<close>

text \<open>What the file says for a variable.\<close>

definition config_values :: "ConfigFile \<Rightarrow> (string \<times> string option) list" where
  "config_values config =
     [(''ONGROK_TLS_CERT'', cf_tls_cert config), (''ONGROK_TLS_KEY'', cf_tls_key config),
      (''ONGROK_API_LISTEN'', cf_api_listen config), (''ONGROK_QUIC_LISTEN'', cf_quic_listen config),
      (''ONGROK_TCP_TLS_LISTEN'', cf_tcp_tls_listen config),
      (''ONGROK_HTTP_LISTEN'', cf_http_listen config), (''ONGROK_HTTPS_LISTEN'', cf_https_listen config),
      (''ONGROK_HTTP_DOMAIN'', cf_http_domain config), (''ONGROK_PUBLIC_HOST'', cf_public_host config),
      (''ONGROK_TCP_PORT_START'', map_option (\<lambda>v. dec_string (unat v)) (cf_tcp_port_start config)),
      (''ONGROK_TCP_PORT_END'', map_option (\<lambda>v. dec_string (unat v)) (cf_tcp_port_end config)),
      (''ONGROK_ADMIN_TOKEN'', cf_admin_token config), (''ONGROK_USER_TOKEN'', cf_user_token config),
      (''ONGROK_DB_PATH'', cf_db_path config)]"

lemma set_string_get:
  "set_string n v env k = (case env k of Some x \<Rightarrow> Some x | None \<Rightarrow> if k = n then v else None)"
  by (auto simp: set_string_def split: option.splits)

lemma apply_config_fold: "apply_config config env = fold (\<lambda>(n, v). set_string n v) (config_values config) env"
  by (simp only: apply_config_def config_values_def set_u16_def Let_def fold_simps case_prod_conv)

lemma fold_set_string:
  "distinct (map fst values) \<Longrightarrow>
    fold (\<lambda>(n, v). set_string n v) values env k =
      (case env k of Some x \<Rightarrow> Some x | None \<Rightarrow> Option.bind (map_of values k) (\<lambda>v. v))"
proof (induction "values" arbitrary: env)
  case Nil
  then show ?case by (simp split: option.splits)
next
  case (Cons x "values")
  obtain n v where x: "x = (n, v)" by force
  with Cons.prems have "map_of values n = None" "distinct (map fst values)"
    by (simp_all add: map_of_eq_None_iff)
  with Cons.IH [of "set_string n v env"] show ?case
    by (simp add: x set_string_get split: option.splits)
qed

lemma config_values_distinct: "distinct (map fst (config_values config))"
  by (simp add: config_values_def)

lemma apply_config_get:
  "apply_config config env k =
     (case env k of Some x \<Rightarrow> Some x | None \<Rightarrow> Option.bind (map_of (config_values config) k) (\<lambda>v. v))"
  by (simp only: apply_config_fold fold_set_string [OF config_values_distinct])

text \<open>a value of the TOML file reaches the options only where the environment has none: no
  variable that was set changes, an unset one the file names gets the file's value, ports in
  decimal, and no other variable is touched. Without a config file nothing changes, and a file
  that cannot be read or parsed stops the start.\<close>

theorem environment_beats_file:
  "load_config_environment read_file parse args env =
     (case config_path env args of
        None \<Rightarrow> Inr env
      | Some path \<Rightarrow>
          (case read_file path of
             None \<Rightarrow> Inl (''failed to read config file '' @ path)
           | Some contents \<Rightarrow>
               (case parse contents of
                  None \<Rightarrow> Inl (''failed to parse TOML config '' @ path)
                | Some config \<Rightarrow>
                    Inr (\<lambda>k. case env k of Some x \<Rightarrow> Some x
                      | None \<Rightarrow> Option.bind (map_of (config_values config) k) (\<lambda>v. v)))))"
proof -
  have "apply_config config env = (\<lambda>k. case env k of Some x \<Rightarrow> Some x
      | None \<Rightarrow> Option.bind (map_of (config_values config) k) (\<lambda>v. v))" for config
    by (rule ext) (rule apply_config_get)
  then show ?thesis
    by (simp add: load_config_environment_def ok_or_def result_bind_def split: option.splits)
qed

section \<open>What the checks accept\<close>

lemma check_listeners_accepts:
  "check_listeners xs = Inr () \<longleftrightarrow> distinct (filter (\<lambda>a. a \<noteq> wildcard) (map snd xs))"
proof (induction xs)
  case (Cons x xs)
  obtain n a where x: "x = (n, a)" by force
  show ?case
  proof (cases "a = wildcard")
    case False
    have "find (\<lambda>(n', b). b \<noteq> wildcard \<and> a = b) xs = None \<longleftrightarrow> a \<notin> snd ` set xs"
      using False by (force simp: find_None_iff)
    with False Cons.IH show ?thesis
      by (auto simp: x split: option.splits)
  qed (use Cons.IH x in simp)
qed simp

text \<open>the options of \<open>run\<close> are accepted exactly when the port range is not reversed, a domain is
  configured exactly with a web listener and is 1 to 253 bytes without white space, and no two of
  the configured TCP listeners have the same address (\<open>0.0.0.0:0\<close>, also the address of a listener
  that is not configured, never clashes).\<close>

theorem validate_run_options_accepts:
  "validate_run_options options = Inr () \<longleftrightarrow>
     ro_tcp_port_start options \<le> ro_tcp_port_end options \<and>
     (ro_http_domain options = None \<longleftrightarrow> ro_http_listen options = None \<and> ro_https_listen options = None) \<and>
     (case ro_http_domain options of None \<Rightarrow> True
      | Some domain \<Rightarrow> 1 \<le> length domain \<and> length domain \<le> 253 \<and> \<not> has_whitespace domain) \<and>
     distinct (filter (\<lambda>a. a \<noteq> wildcard)
       [ro_api_listen options, ro_tcp_tls_listen options,
        case ro_http_listen options of None \<Rightarrow> wildcard | Some a \<Rightarrow> a,
        case ro_https_listen options of None \<Rightarrow> wildcard | Some a \<Rightarrow> a])"
proof -
  have listeners: "map snd (tcp_listeners options) =
      [ro_api_listen options, ro_tcp_tls_listen options,
       case ro_http_listen options of None \<Rightarrow> wildcard | Some a \<Rightarrow> a,
       case ro_https_listen options of None \<Rightarrow> wildcard | Some a \<Rightarrow> a]"
    by (simp add: tcp_listeners_def)
  have domain: "1 \<le> length domain \<longleftrightarrow> domain \<noteq> []" for domain :: string
    by (cases domain) simp_all
  show ?thesis
    unfolding validate_run_options_def check_listeners_accepts [of "tcp_listeners options", unfolded listeners, symmetric]
      domain
    by (cases "ro_http_domain options") (auto simp: not_less)
qed

end
