(* ===== verification/Client.thy ===== *)
theory Client
  imports Identity Config
begin

text \<open>
  The relay client of \<open>crates/ongrok-relay-client/src/main.rs\<close>: its session on a control
  stream (\<open>run_yamux\<close>, \<open>run_quic\<close>), the data streams it accepts, the fall-back from QUIC
  to TCP/TLS and the retry loop. A step is what the client does between two awaited reads;
  dialling and TLS are the outcomes they have, the clock, the system's meters and the random
  numbers are arguments.
\<close>

section \<open>What the client says about itself\<close>

definition local_node_metadata :: "string option \<Rightarrow> string \<Rightarrow> string \<Rightarrow> string \<Rightarrow> NodeMetadata" where
  "local_node_metadata hostname os arch version =
     \<lparr>nm_hostname = (case hostname of None \<Rightarrow> ''unknown'' | Some name \<Rightarrow> name), nm_os = os, nm_arch = arch,
      nm_client_version = version, nm_metadata = []\<rparr>"

text \<open>The meters \<open>sysinfo\<close> reads; the percentage is computed in floating point by \<open>ratio\<close>.\<close>

record Meters =
  sy_clock :: "nat option"
  sy_cpu :: f32
  sy_total_memory :: u64
  sy_used_memory :: u64
  sy_load :: f32
  sy_received :: "u64 list"
  sy_transmitted :: "u64 list"

definition heartbeat_snapshot :: "(u64 \<Rightarrow> u64 \<Rightarrow> f32) \<Rightarrow> u64 \<Rightarrow> Meters \<Rightarrow> HeartbeatSnapshot" where
  "heartbeat_snapshot ratio sequence m =
     \<lparr>hs_sequence = sequence, hs_sent_at = now_unix_ms (sy_clock m), hs_cpu_percent = Some (sy_cpu m),
      hs_memory_percent = (if sy_total_memory m > 0 then Some (ratio (sy_used_memory m) (sy_total_memory m)) else None),
      hs_load_average = Some (sy_load m),
      hs_network_rx_bytes = Some (sum_list (sy_received m)),
      hs_network_tx_bytes = Some (sum_list (sy_transmitted m))\<rparr>"

section \<open>The session\<close>

text \<open>The arguments of a session, and what it computes from outside.\<close>

record Profile =
  pf_state :: NodeState
  pf_token :: string
  pf_service :: "ServiceDefinition option"
  pf_once :: bool
  pf_metadata :: NodeMetadata
  pf_verifying_key :: "bytes \<Rightarrow> bytes"
  pf_ratio :: "u64 \<Rightarrow> u64 \<Rightarrow> f32"

text \<open>
  Which answer the client waits for: \<open>ExpectService\<close> carries the local address it will
  dial, \<open>ExpectAck\<close> the sequence number of the heartbeat.
\<close>

datatype ClientPhase =
  ExpectHello | ExpectAuth | ExpectService string | ExpectAck u64 | Finished "string + unit"

record Client =
  cl_phase :: ClientPhase
  cl_services :: "(ServiceId, string) btree"
  cl_sent :: "Frame list"

text \<open>One read, whether the transport takes the k-th frame the step writes, the meters.\<close>

record ClientInput =
  ci_read :: "WireError + Frame"
  ci_io :: "nat \<Rightarrow> bool"
  ci_meters :: Meters

definition finish :: "string + unit \<Rightarrow> Client \<Rightarrow> Client" where
  "finish r cl = cl\<lparr>cl_phase := Finished r\<rparr>"

definition await :: "ClientPhase \<Rightarrow> Client \<Rightarrow> Client" where
  "await phase cl = cl\<lparr>cl_phase := phase\<rparr>"

text \<open>\<open>write_control_frame(..).await?\<close> and the rest of the function.\<close>

definition client_send :: "Externals \<Rightarrow> bool \<Rightarrow> Frame \<Rightarrow> (Client \<Rightarrow> Client) \<Rightarrow> Client \<Rightarrow> Client" where
  "client_send X io frame rest cl =
     (case send_frame X io frame (cl_sent cl) of
        (Inl e, sent) \<Rightarrow> finish (Inl e) (cl\<lparr>cl_sent := sent\<rparr>)
      | (Inr _, sent) \<Rightarrow> rest (cl\<lparr>cl_sent := sent\<rparr>))"

definition client_start :: "Externals \<Rightarrow> bool \<Rightarrow> Client" where
  "client_start X io =
     client_send X io (Hello PROTOCOL_VERSION) (await ExpectHello)
       \<lparr>cl_phase = ExpectHello, cl_services = [], cl_sent = []\<rparr>"

definition client_hello :: "Externals \<Rightarrow> Profile \<Rightarrow> ClientInput \<Rightarrow> Frame \<Rightarrow> Client \<Rightarrow> Client" where
  "client_hello X pf i frame cl =
     (case frame of
        Hello version \<Rightarrow>
          if version = PROTOCOL_VERSION
          then client_send X (ci_io i 0) (Auth (pf_token pf) (ns_node_id (pf_state pf))) (await ExpectAuth) cl
          else finish (Inl ''server sent an invalid Hello response'') cl
      | ErrorFrame message \<Rightarrow> finish (Inl (''server rejected protocol: '' @ message)) cl
      | _ \<Rightarrow> finish (Inl ''server sent an invalid Hello response'') cl)"

text \<open>One turn of the heartbeat loop up to the read; \<open>k\<close> counts the writes of the step.\<close>

definition client_heartbeat :: "Externals \<Rightarrow> Profile \<Rightarrow> ClientInput \<Rightarrow> nat \<Rightarrow> u64 \<Rightarrow> Client \<Rightarrow> Client" where
  "client_heartbeat X pf i k sequence cl =
     (let sequence = sequence + 1 in
      client_send X (ci_io i k) (Heartbeat (heartbeat_snapshot (pf_ratio pf) sequence (ci_meters i)))
        (await (ExpectAck sequence)) cl)"

definition client_auth :: "Externals \<Rightarrow> Profile \<Rightarrow> ClientInput \<Rightarrow> Frame \<Rightarrow> Client \<Rightarrow> Client" where
  "client_auth X pf i frame cl =
     (case frame of
        AuthAccepted _ \<Rightarrow>
          client_send X (ci_io i 0)
            (RegisterNode (pf_metadata pf) (node_public_key (pf_verifying_key pf) (pf_state pf)))
            (\<lambda>cl. case pf_service pf of
                Some service \<Rightarrow>
                  client_send X (ci_io i 1) (RegisterService service) (await (ExpectService (sd_local_address service))) cl
              | None \<Rightarrow> client_heartbeat X pf i 1 0 cl) cl
      | AuthRejected \<Rightarrow> finish (Inl ''server rejected token'') cl
      | _ \<Rightarrow> finish (Inl ''server sent an invalid auth response'') cl)"

definition client_service :: "Externals \<Rightarrow> Profile \<Rightarrow> ClientInput \<Rightarrow> string \<Rightarrow> Frame \<Rightarrow> Client \<Rightarrow> Client" where
  "client_service X pf i local_address frame cl =
     (case frame of
        RegisterServiceAccepted service \<Rightarrow>
          client_heartbeat X pf i 0 0
            (cl\<lparr>cl_services := bt_insert (sd_service_id service) local_address (cl_services cl)\<rparr>)
      | ErrorFrame message \<Rightarrow> finish (Inl (''server rejected service: '' @ message)) cl
      | _ \<Rightarrow> finish (Inl ''server sent an invalid service registration response'') cl)"

definition client_ack :: "Externals \<Rightarrow> Profile \<Rightarrow> ClientInput \<Rightarrow> u64 \<Rightarrow> Frame \<Rightarrow> Client \<Rightarrow> Client" where
  "client_ack X pf i sequence frame cl =
     (case frame of
        HeartbeatAck ack _ \<Rightarrow>
          if ack = sequence then
            (if pf_once pf then client_send X (ci_io i 0) Goodbye (finish (Inr ())) cl
             else client_heartbeat X pf i 0 sequence cl)
          else finish (Inl ''server sent an invalid heartbeat acknowledgement'') cl
      | _ \<Rightarrow> finish (Inl ''server sent an invalid heartbeat acknowledgement'') cl)"

text \<open>The control stream's part of \<open>run_yamux\<close> and of \<open>run_quic\<close>, which is the same text.\<close>

definition client_step :: "Externals \<Rightarrow> Profile \<Rightarrow> Client \<Rightarrow> ClientInput \<Rightarrow> Client" where
  "client_step X pf cl i =
     (case cl_phase cl of
        Finished _ \<Rightarrow> cl
      | phase \<Rightarrow>
          (case ci_read i of
             Inl e \<Rightarrow> finish (Inl (wire_message e)) cl
           | Inr frame \<Rightarrow>
               (case phase of
                  ExpectHello \<Rightarrow> client_hello X pf i frame cl
                | ExpectAuth \<Rightarrow> client_auth X pf i frame cl
                | ExpectService local_address \<Rightarrow> client_service X pf i local_address frame cl
                | ExpectAck sequence \<Rightarrow> client_ack X pf i sequence frame cl
                | Finished _ \<Rightarrow> cl)))"

definition run_session :: "Externals \<Rightarrow> Profile \<Rightarrow> bool \<Rightarrow> ClientInput list \<Rightarrow> Client" where
  "run_session X pf io inputs = run_events (client_step X pf) (client_start X io) inputs"

text \<open>\<open>None\<close> while the session is still waiting for the server.\<close>

definition session_result :: "Client \<Rightarrow> (string + unit) option" where
  "session_result cl = (case cl_phase cl of Finished r \<Rightarrow> Some r | _ \<Rightarrow> None)"

section \<open>Connecting\<close>

text \<open>What can end each function before its control stream is open; \<open>..Failed\<close> passes the
  message of the library on.\<close>

datatype YamuxDial =
    YamuxSetupFailed string | YamuxConnectTimedOut | YamuxConnectFailed string | YamuxBadName
  | YamuxHandshakeTimedOut | YamuxHandshakeFailed string | YamuxNoAlpn | YamuxOpenFailed | YamuxOpen

datatype QuicDial = QuicSetupFailed string | QuicFailed | QuicOpenFailed | QuicOpen

fun yamux_dial_error :: "YamuxDial \<Rightarrow> string option" where
  "yamux_dial_error (YamuxSetupFailed e) = Some e"
| "yamux_dial_error YamuxConnectTimedOut = Some ''TCP/TLS fallback connection timed out''"
| "yamux_dial_error (YamuxConnectFailed e) = Some e"
| "yamux_dial_error YamuxBadName = Some ''server name is not a valid DNS name''"
| "yamux_dial_error YamuxHandshakeTimedOut = Some ''TCP/TLS fallback handshake timed out''"
| "yamux_dial_error (YamuxHandshakeFailed e) = Some e"
| "yamux_dial_error YamuxNoAlpn = Some ''relay did not negotiate ongrok/1 over TCP/TLS''"
| "yamux_dial_error YamuxOpenFailed = Some ''failed to open Yamux control stream''"
| "yamux_dial_error YamuxOpen = None"

fun quic_dial_error :: "QuicDial \<Rightarrow> string option" where
  "quic_dial_error (QuicSetupFailed e) = Some e"
| "quic_dial_error QuicFailed = Some ''QUIC connection failed''"
| "quic_dial_error QuicOpenFailed = Some ''failed to open QUIC control stream''"
| "quic_dial_error QuicOpen = None"

definition run_yamux ::
  "Externals \<Rightarrow> Profile \<Rightarrow> YamuxDial \<Rightarrow> bool \<Rightarrow> ClientInput list \<Rightarrow> (string + unit) option" where
  "run_yamux X pf dial io inputs =
     (case yamux_dial_error dial of
        Some e \<Rightarrow> Some (Inl e)
      | None \<Rightarrow> session_result (run_session X pf io inputs))"

definition run_quic ::
  "Externals \<Rightarrow> Profile \<Rightarrow> QuicDial \<Rightarrow> bool \<Rightarrow> ClientInput list \<Rightarrow> (string + unit) option" where
  "run_quic X pf dial io inputs =
     (case quic_dial_error dial of
        Some e \<Rightarrow> Some (Inl e)
      | None \<Rightarrow> session_result (run_session X pf io inputs))"

section \<open>Fall-back and retry\<close>

record RelayEndpoints =
  re_quic :: SocketAddr
  re_tcp_tls :: "SocketAddr option"

text \<open>
  What one attempt meets: the QUIC outcome at an address with the reads that arrive within the
  five seconds of \<open>timeout\<close>, or \<open>None\<close> when dialling takes longer; the TCP/TLS outcome with
  the reads that arrive at all.
\<close>

record Attempt =
  at_quic :: "SocketAddr \<Rightarrow> QuicDial option"
  at_quic_io :: bool
  at_quic_reads :: "ClientInput list"
  at_yamux :: "SocketAddr \<Rightarrow> YamuxDial"
  at_yamux_io :: bool
  at_yamux_reads :: "ClientInput list"

definition quic_within_timeout :: "Externals \<Rightarrow> Profile \<Rightarrow> SocketAddr \<Rightarrow> Attempt \<Rightarrow> (string + unit) option" where
  "quic_within_timeout X pf address a =
     (case at_quic a address of
        None \<Rightarrow> None
      | Some dial \<Rightarrow> run_quic X pf dial (at_quic_io a) (at_quic_reads a))"

definition run_once_with_fallback ::
  "Externals \<Rightarrow> Profile \<Rightarrow> RelayEndpoints \<Rightarrow> Attempt \<Rightarrow> (string + unit) option" where
  "run_once_with_fallback X pf endpoints a =
     (let address = (case re_tcp_tls endpoints of Some address \<Rightarrow> address | None \<Rightarrow> re_quic endpoints);
          yamux = run_yamux X pf (at_yamux a address) (at_yamux_io a) (at_yamux_reads a)
      in case quic_within_timeout X pf (re_quic endpoints) a of
           Some (Inr _) \<Rightarrow> Some (Inr ())
         | Some (Inl _) \<Rightarrow> yamux
         | None \<Rightarrow> yamux)"

fun contains :: "string \<Rightarrow> string \<Rightarrow> bool" where
  "contains pattern [] = (pattern = [])"
| "contains pattern (c # s) = (starts_with (c # s) pattern \<or> contains pattern s)"

definition is_authentication_error :: "string \<Rightarrow> bool" where
  "is_authentication_error message \<longleftrightarrow>
     contains ''rejected token'' message \<or> contains ''authentication rejected'' message"

definition saturating_add_u32 :: "u32 \<Rightarrow> u32 \<Rightarrow> u32" where
  "saturating_add_u32 a b = (if unat a + unat b < 2 ^ 32 then a + b else 4294967295)"

text \<open>\<open>2_u64.pow(attempt.min(5))\<close>, and a draw of \<open>0..=base / 3\<close> from 64 random bits.\<close>

definition base_delay :: "u32 \<Rightarrow> u64" where
  "base_delay retry_attempt = 2 ^ min (unat retry_attempt) 5"

definition random_up_to :: "u64 \<Rightarrow> u64 \<Rightarrow> u64" where
  "random_up_to limit bits = bits mod (limit + 1)"

definition retry_delay :: "u64 \<Rightarrow> u32 \<Rightarrow> u64" where
  "retry_delay bits retry_attempt = base_delay retry_attempt + random_up_to (base_delay retry_attempt div 3) bits"

text \<open>
  The loop of \<open>run_with_fallback\<close>: \<open>attempts k\<close> is what the k-th turn meets, \<open>bits k\<close> what it
  draws, the last argument the delays slept so far. The value is \<open>None\<close> when the client never
  returns, because it retries for ever or because a session stays up.
\<close>

partial_function (option) retry_loop ::
  "Externals \<Rightarrow> Profile \<Rightarrow> RelayEndpoints \<Rightarrow> (nat \<Rightarrow> Attempt) \<Rightarrow> (nat \<Rightarrow> u64) \<Rightarrow> nat \<Rightarrow> u32 \<Rightarrow> u64 list \<Rightarrow>
     ((string + unit) \<times> u64 list) option" where
  "retry_loop X pf endpoints attempts bits k retry_attempt slept =
     (case run_once_with_fallback X pf endpoints (attempts k) of
        None \<Rightarrow> None
      | Some (Inr _) \<Rightarrow> Some (Inr (), slept)
      | Some (Inl e) \<Rightarrow>
          if pf_once pf \<or> is_authentication_error e then Some (Inl e, slept)
          else
            let retry_attempt = saturating_add_u32 retry_attempt 1 in
            retry_loop X pf endpoints attempts bits (Suc k) retry_attempt
              (slept @ [retry_delay (bits k) retry_attempt]))"

definition run_with_fallback ::
  "Externals \<Rightarrow> Profile \<Rightarrow> RelayEndpoints \<Rightarrow> (nat \<Rightarrow> Attempt) \<Rightarrow> (nat \<Rightarrow> u64) \<Rightarrow> ((string + unit) \<times> u64 list) option" where
  "run_with_fallback X pf endpoints attempts bits = retry_loop X pf endpoints attempts bits 0 0 []"

section \<open>Data streams\<close>

datatype Dial = Dialled | DialFailed string | DialTimedOut

text \<open>How a data stream ends: refused, or bridged to a local address.\<close>

datatype StreamEnd = TargetRefused | Bridged string

definition handle_data_stream ::
  "Externals \<Rightarrow> (ServiceId, string) btree \<Rightarrow> bool \<Rightarrow> (string \<Rightarrow> Dial) \<Rightarrow> bool \<Rightarrow> WireError + Frame \<Rightarrow>
     (string + StreamEnd) \<times> Frame list" where
  "handle_data_stream X local_services io dial copied first =
     (case first of
        Inl e \<Rightarrow> (Inl (wire_message e), [])
      | Inr (OpenStream tunnel_id service_id) \<Rightarrow>
          (case bt_get local_services service_id of
             None \<Rightarrow> (Inl ''server requested an unknown service'', [])
           | Some local_address \<Rightarrow>
               (case dial local_address of
                  DialFailed e \<Rightarrow>
                    (case send_frame X io (ErrorFrame (''failed to connect to '' @ local_address @ '': '' @ e)) [] of
                       (Inl e, sent) \<Rightarrow> (Inl e, sent)
                     | (Inr _, sent) \<Rightarrow> (Inr TargetRefused, sent))
                | DialTimedOut \<Rightarrow>
                    (case send_frame X io (ErrorFrame (''timed out connecting to '' @ local_address)) [] of
                       (Inl e, sent) \<Rightarrow> (Inl e, sent)
                     | (Inr _, sent) \<Rightarrow> (Inr TargetRefused, sent))
                | Dialled \<Rightarrow>
                    (case send_frame X io (OpenStreamAck tunnel_id) [] of
                       (Inl e, sent) \<Rightarrow> (Inl e, sent)
                     | (Inr _, sent) \<Rightarrow>
                         if copied then (Inr (Bridged local_address), sent)
                         else (Inl ''local TCP relay copy failed'', sent))))
      | Inr _ \<Rightarrow> (Inl ''expected OpenStream as first data stream frame'', []))"

text \<open>
  One stream the relay opened: what the session's table of services is when it is served, and
  what its task meets. The accept loops give every stream its own task and end with the
  connection.
\<close>

record DataStream =
  ds_services :: "(ServiceId, string) btree"
  ds_io :: bool
  ds_dial :: "string \<Rightarrow> Dial"
  ds_copied :: bool
  ds_first :: "WireError + Frame"

definition serve_data_stream :: "Externals \<Rightarrow> DataStream \<Rightarrow> (string + StreamEnd) \<times> Frame list" where
  "serve_data_stream X d = handle_data_stream X (ds_services d) (ds_io d) (ds_dial d) (ds_copied d) (ds_first d)"

fun accept_data_streams :: "Externals \<Rightarrow> (string + DataStream) list \<Rightarrow> ((string + StreamEnd) \<times> Frame list) list" where
  "accept_data_streams X [] = []"
| "accept_data_streams X (Inl e # accepted) = []"
| "accept_data_streams X (Inr d # accepted) = serve_data_stream X d # accept_data_streams X accepted"

fun accept_yamux_data_streams :: "Externals \<Rightarrow> DataStream option list \<Rightarrow> ((string + StreamEnd) \<times> Frame list) list" where
  "accept_yamux_data_streams X [] = []"
| "accept_yamux_data_streams X (None # accepted) = []"
| "accept_yamux_data_streams X (Some d # accepted) = serve_data_stream X d # accept_yamux_data_streams X accepted"

end
