(* ===== verification/Client_Props.thy ===== *)
theory Client_Props
  imports Client
begin

text \<open>
  What the client promises: the order of the frames it writes whatever the server answers, the
  addresses it dials, when it falls back and when it gives up.
\<close>

section \<open>Steps\<close>

lemma client_send_cases:
  obtains (sent) "client_send X io frame rest cl = rest (cl\<lparr>cl_sent := cl_sent cl @ [frame]\<rparr>)"
  | (failed) e where "client_send X io frame rest cl = finish (Inl e) cl"
proof (cases "write_control_frame (x_frame X) io frame []")
  case (Pair r b)
  then show ?thesis
    using sent failed by (cases r) (auto simp: client_send_def send_frame_def finish_def)
qed

lemma finish_simps [simp]:
  "cl_phase (finish r cl) = Finished r" "cl_services (finish r cl) = cl_services cl" "cl_sent (finish r cl) = cl_sent cl"
  by (simp_all add: finish_def)

lemma await_simps [simp]:
  "cl_phase (await p cl) = p" "cl_services (await p cl) = cl_services cl" "cl_sent (await p cl) = cl_sent cl"
  by (simp_all add: await_def)

section \<open>The frames a client writes\<close>

definition opener :: "Profile \<Rightarrow> Frame list" where
  "opener pf =
     [Hello PROTOCOL_VERSION, Auth (pf_token pf) (ns_node_id (pf_state pf)),
      RegisterNode (pf_metadata pf) (node_public_key (pf_verifying_key pf) (pf_state pf))] @
     (case pf_service pf of None \<Rightarrow> [] | Some service \<Rightarrow> [RegisterService service])"

text \<open>Heartbeats numbered from one.\<close>

definition numbered :: "HeartbeatSnapshot list \<Rightarrow> bool" where
  "numbered snapshots \<longleftrightarrow> map hs_sequence snapshots = map of_nat [1..<Suc (length snapshots)]"

lemma numbered_Nil [simp]: "numbered []"
  by (simp add: numbered_def)

lemma numbered_snoc [simp]: "numbered (ss @ [s]) \<longleftrightarrow> numbered ss \<and> hs_sequence s = of_nat (Suc (length ss))"
  by (auto simp: numbered_def)

lemma numbered_one [simp]: "numbered [s] \<longleftrightarrow> hs_sequence s = 1"
  by (simp add: numbered_def)

text \<open>What has been written, by phase. A session that ended with an error wrote a prefix of it.\<close>

definition wrote :: "Profile \<Rightarrow> Client \<Rightarrow> bool" where
  "wrote pf cl \<longleftrightarrow>
     (case cl_phase cl of
        ExpectHello \<Rightarrow> cl_sent cl = take 1 (opener pf)
      | ExpectAuth \<Rightarrow> cl_sent cl = take 2 (opener pf)
      | ExpectService address \<Rightarrow> cl_sent cl = opener pf \<and> map_option sd_local_address (pf_service pf) = Some address
      | ExpectAck sequence \<Rightarrow> \<exists>ss. cl_sent cl = opener pf @ map Heartbeat ss \<and> numbered ss \<and>
          sequence = of_nat (length ss) \<and> (if pf_once pf then length ss = 1 else True)
      | Finished (Inr _) \<Rightarrow> pf_once pf \<and> (\<exists>s. cl_sent cl = opener pf @ [Heartbeat s, Goodbye] \<and> hs_sequence s = 1)
      | Finished (Inl _) \<Rightarrow> \<exists>n ss. cl_sent cl = take n (opener pf @ map Heartbeat ss) \<and> numbered ss)"

definition wrote_some :: "Profile \<Rightarrow> Client \<Rightarrow> bool" where
  "wrote_some pf cl \<longleftrightarrow> (\<exists>n ss. cl_sent cl = take n (opener pf @ map Heartbeat ss) \<and> numbered ss)"

lemma wrote_someI: "cl_sent cl = take n (opener pf @ map Heartbeat ss) \<Longrightarrow> numbered ss \<Longrightarrow> wrote_some pf cl"
  by (auto simp: wrote_some_def)

lemma wrote_prefix:
  assumes "wrote pf cl" and "cl_phase cl \<noteq> Finished (Inr ())"
  shows "wrote_some pf cl"
proof (cases "cl_phase cl")
  case ExpectHello
  with assms show ?thesis by (intro wrote_someI [of _ 1 _ "[]"]) (simp_all add: wrote_def)
next
  case ExpectAuth
  with assms show ?thesis by (intro wrote_someI [of _ 2 _ "[]"]) (simp_all add: wrote_def)
next
  case (ExpectService a)
  with assms show ?thesis by (intro wrote_someI [of _ "length (opener pf)" _ "[]"]) (simp_all add: wrote_def)
next
  case (ExpectAck n)
  with assms obtain ss where "cl_sent cl = opener pf @ map Heartbeat ss" "numbered ss" by (auto simp: wrote_def)
  then show ?thesis by (intro wrote_someI [of _ "length (opener pf @ map Heartbeat ss)" _ ss]) simp_all
next
  case (Finished r)
  with assms show ?thesis by (cases r) (auto simp: wrote_def wrote_some_def)
qed

lemma wrote_finish [simp]: "wrote pf (finish (Inl e) cl) \<longleftrightarrow> wrote_some pf cl"
  by (simp add: wrote_def wrote_some_def)

text \<open>A write that fails ends the session where it stands; one that works goes on.\<close>

lemma wrote_send:
  assumes "wrote_some pf cl" and "wrote pf (rest (cl\<lparr>cl_sent := cl_sent cl @ [frame]\<rparr>))"
  shows "wrote pf (client_send X io frame rest cl)"
  using assms by (cases rule: client_send_cases [of X io frame rest cl]) simp_all

lemma wrote_heartbeat:
  assumes "cl_sent cl = opener pf @ map Heartbeat ss" and "numbered ss" and "sequence = of_nat (length ss)"
    and "pf_once pf \<Longrightarrow> ss = []"
  shows "wrote pf (client_heartbeat X pf i k sequence cl)"
  unfolding client_heartbeat_def Let_def
proof (rule wrote_send)
  show "wrote_some pf cl"
    using assms(1,2) by (intro wrote_someI [of _ "length (opener pf @ map Heartbeat ss)" _ ss]) simp_all
  let ?s = "heartbeat_snapshot (pf_ratio pf) (sequence + 1) (ci_meters i)"
  have "numbered (ss @ [?s])" using assms(2,3) by (simp add: heartbeat_snapshot_def)
  then show "wrote pf (await (ExpectAck (sequence + 1)) (cl\<lparr>cl_sent := cl_sent cl @ [Heartbeat ?s]\<rparr>))"
    using assms by (auto simp: wrote_def intro!: exI [of _ "ss @ [?s]"])
qed

lemma opener_parts:
  "take (Suc 0) (opener pf) = [Hello PROTOCOL_VERSION]"
  "take 2 (opener pf) = [Hello PROTOCOL_VERSION, Auth (pf_token pf) (ns_node_id (pf_state pf))]"
  "take 3 (opener pf) = [Hello PROTOCOL_VERSION, Auth (pf_token pf) (ns_node_id (pf_state pf)),
     RegisterNode (pf_metadata pf) (node_public_key (pf_verifying_key pf) (pf_state pf))]"
  by (simp_all add: opener_def)

lemma wrote_start: "wrote pf (client_start X io)"
  unfolding client_start_def
  by (rule wrote_send) (auto intro!: wrote_someI [of _ 0 _ "[]"] simp: wrote_def opener_parts)

lemma wrote_hello:
  assumes "wrote pf cl" and "cl_phase cl = ExpectHello"
  shows "wrote pf (client_hello X pf i frame cl)"
proof -
  have some: "wrote_some pf cl" using assms by (intro wrote_prefix) simp_all
  have "wrote pf (client_send X (ci_io i 0) (Auth (pf_token pf) (ns_node_id (pf_state pf))) (await ExpectAuth) cl)"
    using assms by (intro wrote_send some) (simp add: wrote_def opener_parts)
  with some show ?thesis by (simp add: client_hello_def split: Frame.split)
qed

lemma wrote_auth:
  assumes "wrote pf cl" and "cl_phase cl = ExpectAuth"
  shows "wrote pf (client_auth X pf i frame cl)"
proof -
  have some: "wrote_some pf cl" using assms by (intro wrote_prefix) simp_all
  let ?node = "RegisterNode (pf_metadata pf) (node_public_key (pf_verifying_key pf) (pf_state pf))"
  let ?cl = "cl\<lparr>cl_sent := cl_sent cl @ [?node]\<rparr>"
  have sent: "cl_sent ?cl = take 3 (opener pf)" using assms by (simp add: wrote_def opener_parts)
  have "wrote pf (case pf_service pf of
      Some service \<Rightarrow> client_send X (ci_io i 1) (RegisterService service) (await (ExpectService (sd_local_address service))) ?cl
    | None \<Rightarrow> client_heartbeat X pf i 1 0 ?cl)"
  proof (cases "pf_service pf")
    case None
    then have "cl_sent ?cl = opener pf @ map Heartbeat []" using sent by (simp add: opener_def)
    then have "wrote pf (client_heartbeat X pf i 1 0 ?cl)" by (rule wrote_heartbeat) simp_all
    with None show ?thesis by simp
  next
    case (Some service)
    have "wrote_some pf ?cl" using sent by (intro wrote_someI [of _ 3 _ "[]"]) simp_all
    moreover have "cl_sent ?cl @ [RegisterService service] = opener pf" using sent Some by (simp add: opener_def)
    ultimately have "wrote pf (client_send X (ci_io i 1) (RegisterService service) (await (ExpectService (sd_local_address service))) ?cl)"
      using Some by (intro wrote_send) (simp_all add: wrote_def)
    with Some show ?thesis by simp
  qed
  then have "wrote pf (client_send X (ci_io i 0) ?node (\<lambda>cl. case pf_service pf of
      Some service \<Rightarrow> client_send X (ci_io i 1) (RegisterService service) (await (ExpectService (sd_local_address service))) cl
    | None \<Rightarrow> client_heartbeat X pf i 1 0 cl) cl)"
    by (rule wrote_send [OF some])
  with some show ?thesis by (simp add: client_auth_def split: Frame.split)
qed

lemma wrote_service:
  assumes "wrote pf cl" and "cl_phase cl = ExpectService address"
  shows "wrote pf (client_service X pf i address frame cl)"
proof -
  have some: "wrote_some pf cl" using assms by (intro wrote_prefix) simp_all
  have "wrote pf (client_heartbeat X pf i 0 0 (cl\<lparr>cl_services := m\<rparr>))" for m
    using assms by (intro wrote_heartbeat [of _ _ "[]"]) (simp_all add: wrote_def)
  with some show ?thesis by (simp add: client_service_def split: Frame.split)
qed

lemma wrote_ack:
  assumes "wrote pf cl" and "cl_phase cl = ExpectAck sequence"
  shows "wrote pf (client_ack X pf i sequence frame cl)"
proof -
  have some: "wrote_some pf cl" using assms by (intro wrote_prefix) simp_all
  from assms obtain ss where ss: "cl_sent cl = opener pf @ map Heartbeat ss" "numbered ss" "sequence = of_nat (length ss)"
      "pf_once pf \<Longrightarrow> length ss = 1"
    by (auto simp: wrote_def split: if_splits)
  have "wrote pf (client_send X (ci_io i 0) Goodbye (finish (Inr ())) cl)" if once: "pf_once pf"
  proof (rule wrote_send [OF some])
    from ss(4) [OF once] obtain s where s: "ss = [s]" by (auto simp: length_Suc_conv)
    then have "hs_sequence s = 1" using ss(2) by (simp add: numbered_def)
    with s ss(1) once show "wrote pf (finish (Inr ()) (cl\<lparr>cl_sent := cl_sent cl @ [Goodbye]\<rparr>))"
      by (simp add: wrote_def)
  qed
  moreover have "wrote pf (client_heartbeat X pf i 0 sequence cl)" if "\<not> pf_once pf"
    using ss that by (intro wrote_heartbeat [of _ _ ss]) simp_all
  ultimately show ?thesis using some by (simp add: client_ack_def split: Frame.split)
qed

lemma wrote_step: "wrote pf cl \<Longrightarrow> wrote pf (client_step X pf cl i)"
  by (auto simp: client_step_def wrote_prefix wrote_hello wrote_auth wrote_service wrote_ack
      split: ClientPhase.split sum.split)

interpretation client_session: invariant_system "client_step X pf" "wrote pf" for X pf
  by unfold_locales (rule wrote_step)

lemma wrote_run: "wrote pf (run_session X pf io inputs)"
  unfolding run_session_def by (rule client_session.run_inv [OF wrote_start])

text \<open>The one step that completes a session.\<close>

lemma client_send_incomplete:
  "(\<And>cl'. cl_phase (rest cl') \<noteq> Finished (Inr u)) \<Longrightarrow> cl_phase (client_send X io frame rest cl) \<noteq> Finished (Inr u)"
  by (cases rule: client_send_cases [of X io frame rest cl]) simp_all

lemma client_heartbeat_incomplete: "cl_phase (client_heartbeat X pf i k sequence cl) \<noteq> Finished (Inr u)"
  unfolding client_heartbeat_def Let_def by (rule client_send_incomplete) simp

lemma client_before_incomplete:
  "cl_phase (client_hello X pf i frame cl) \<noteq> Finished (Inr u)"
  "cl_phase (client_auth X pf i frame cl) \<noteq> Finished (Inr u)"
  "cl_phase (client_service X pf i address frame cl) \<noteq> Finished (Inr u)"
  unfolding client_hello_def client_auth_def client_service_def
  by (cases "pf_service pf"; auto intro!: client_send_incomplete client_heartbeat_incomplete split: Frame.split)+

lemma client_ack_complete:
  assumes "cl_phase (client_ack X pf i sequence frame cl) = Finished (Inr u)"
  obtains rtt where "frame = HeartbeatAck sequence rtt"
    and "cl_sent (client_ack X pf i sequence frame cl) = cl_sent cl @ [Goodbye]"
proof -
  from assms obtain rtt where frame: "frame = HeartbeatAck sequence rtt" and once: "pf_once pf"
    using client_heartbeat_incomplete by (cases frame) (auto simp: client_ack_def split: if_splits)
  have "client_ack X pf i sequence frame cl = client_send X (ci_io i 0) Goodbye (finish (Inr ())) cl"
    by (simp add: client_ack_def frame once)
  moreover from this assms have "cl_sent (client_send X (ci_io i 0) Goodbye (finish (Inr ())) cl) = cl_sent cl @ [Goodbye]"
    by (cases rule: client_send_cases [of X "ci_io i 0" Goodbye "finish (Inr ())" cl]) simp_all
  ultimately show thesis using frame by (intro that) simp_all
qed

lemma client_step_complete:
  assumes "cl_phase (client_step X pf cl i) = Finished (Inr u)" and "session_result cl = None"
  obtains sequence rtt where "cl_phase cl = ExpectAck sequence" and "ci_read i = Inr (HeartbeatAck sequence rtt)"
    and "cl_sent (client_step X pf cl i) = cl_sent cl @ [Goodbye]"
proof -
  from assms obtain sequence frame where "cl_phase cl = ExpectAck sequence" "ci_read i = Inr frame"
    by (auto simp: client_step_def session_result_def client_before_incomplete split: ClientPhase.splits sum.splits)
  moreover from this have "client_step X pf cl i = client_ack X pf i sequence frame cl"
    by (simp add: client_step_def)
  moreover from this assms(1) obtain rtt where "frame = HeartbeatAck sequence rtt"
      "cl_sent (client_ack X pf i sequence frame cl) = cl_sent cl @ [Goodbye]"
    by (auto elim: client_ack_complete)
  ultimately show thesis by (intro that) simp_all
qed

lemma run_session_snoc: "run_session X pf io (inputs @ [i]) = client_step X pf (run_session X pf io inputs) i"
  by (simp add: run_session_def run_events_append)

lemma session_complete:
  assumes "session_result (run_session X pf io inputs) = Some (Inr u)"
  obtains before i after sequence rtt where "inputs = before @ i # after"
    and "cl_phase (run_session X pf io before) = ExpectAck sequence"
    and "ci_read i = Inr (HeartbeatAck sequence rtt)"
    and "cl_sent (run_session X pf io inputs) = cl_sent (run_session X pf io before) @ [Goodbye]"
  using assms
proof (induction inputs arbitrary: thesis rule: rev_induct)
  case Nil
  have "cl_phase (client_start X io) \<noteq> Finished (Inr u)"
    unfolding client_start_def by (rule client_send_incomplete) simp
  with Nil show ?case by (auto simp: run_session_def session_result_def split: ClientPhase.splits)
next
  case (snoc i inputs)
  let ?cl = "run_session X pf io inputs"
  show ?case
  proof (cases "session_result ?cl")
    case None
    have "cl_phase (client_step X pf ?cl i) = Finished (Inr u)"
      using snoc.prems(2) by (auto simp: run_session_snoc session_result_def split: ClientPhase.splits)
    from client_step_complete [OF this None] obtain sequence rtt where "cl_phase ?cl = ExpectAck sequence"
        "ci_read i = Inr (HeartbeatAck sequence rtt)" "cl_sent (client_step X pf ?cl i) = cl_sent ?cl @ [Goodbye]" .
    then show ?thesis by (intro snoc.prems(1) [of inputs i "[]" sequence rtt]) (simp_all add: run_session_snoc)
  next
    case (Some r)
    then have same: "run_session X pf io (inputs @ [i]) = ?cl"
      by (auto simp: run_session_snoc client_step_def session_result_def split: ClientPhase.splits)
    with snoc.prems(2) have "session_result ?cl = Some (Inr u)" by simp
    then obtain before j after sequence rtt where "inputs = before @ j # after"
        "cl_phase (run_session X pf io before) = ExpectAck sequence" "ci_read j = Inr (HeartbeatAck sequence rtt)"
        "cl_sent ?cl = cl_sent (run_session X pf io before) @ [Goodbye]"
      using snoc.IH by blast
    with same show ?thesis by (intro snoc.prems(1) [of before j "after @ [i]" sequence rtt]) simp_all
  qed
qed

text \<open>C14: whatever the server answers, the client writes its frames in the one order of the protocol
  (Hello, Auth, RegisterNode, then its service if it publishes one, then heartbeats numbered from
  one), and it ends without an error only in a \<open>once\<close> run: having written the first heartbeat it
  reads the acknowledgement of number one, writes Goodbye and is done.\<close>

theorem client_follows_protocol:
  "case session_result (run_session X pf io inputs) of
     Some (Inr _) \<Rightarrow> pf_once pf \<and>
       (\<exists>s before i after rtt. inputs = before @ i # after \<and> ci_read i = Inr (HeartbeatAck 1 rtt) \<and>
          session_result (run_session X pf io before) = None \<and> hs_sequence s = 1 \<and>
          cl_sent (run_session X pf io before) = opener pf @ [Heartbeat s] \<and>
          cl_sent (run_session X pf io inputs) = opener pf @ [Heartbeat s, Goodbye])
   | _ \<Rightarrow> \<exists>n ss. numbered ss \<and> cl_sent (run_session X pf io inputs) = take n (opener pf @ map Heartbeat ss)"
proof -
  let ?cl = "run_session X pf io inputs"
  have w: "wrote pf ?cl" by (rule wrote_run)
  show ?thesis
  proof (cases "cl_phase ?cl = Finished (Inr ())")
    case True
    then have once: "pf_once pf" and "session_result ?cl = Some (Inr ())"
      using w by (simp_all add: wrote_def session_result_def)
    then obtain before i after sequence rtt where parts: "inputs = before @ i # after"
        "cl_phase (run_session X pf io before) = ExpectAck sequence" "ci_read i = Inr (HeartbeatAck sequence rtt)"
        "cl_sent ?cl = cl_sent (run_session X pf io before) @ [Goodbye]"
      by (elim session_complete)
    obtain ss where "cl_sent (run_session X pf io before) = opener pf @ map Heartbeat ss" "numbered ss"
        "sequence = of_nat (length ss)" "length ss = 1"
      using wrote_run [of pf X io before] parts(2) once by (auto simp: wrote_def)
    moreover from this(4) obtain s where "ss = [s]" by (auto simp: length_Suc_conv)
    ultimately have "hs_sequence s = 1" "sequence = 1"
        "cl_sent (run_session X pf io before) = opener pf @ [Heartbeat s]"
      by simp_all
    with parts have "inputs = before @ i # after \<and> ci_read i = Inr (HeartbeatAck 1 rtt) \<and>
        session_result (run_session X pf io before) = None \<and> hs_sequence s = 1 \<and>
        cl_sent (run_session X pf io before) = opener pf @ [Heartbeat s] \<and>
        cl_sent ?cl = opener pf @ [Heartbeat s, Goodbye]"
      by (simp add: session_result_def)
    with once \<open>session_result ?cl = Some (Inr ())\<close> show ?thesis by auto
  next
    case False
    then have "wrote_some pf ?cl" by (rule wrote_prefix [OF w])
    then obtain n ss where "numbered ss" "cl_sent ?cl = take n (opener pf @ map Heartbeat ss)"
      by (auto simp: wrote_some_def)
    moreover have "session_result ?cl \<noteq> Some (Inr u)" for u
      using False by (auto simp: session_result_def split: ClientPhase.splits)
    ultimately show ?thesis by (auto split: option.split sum.split)
  qed
qed

lemma session_never_completes: "\<not> pf_once pf \<Longrightarrow> session_result (run_session X pf io inputs) \<noteq> Some (Inr u)"
  using wrote_run [of pf X io inputs] by (auto simp: wrote_def session_result_def split: ClientPhase.splits)

section \<open>The addresses a client dials\<close>

lemma client_send_services:
  "(\<And>cl'. cl_services (rest cl') = cl_services cl') \<Longrightarrow> cl_services (client_send X io frame rest cl) = cl_services cl"
  by (cases rule: client_send_cases [of X io frame rest cl]) simp_all

lemma client_heartbeat_services [simp]: "cl_services (client_heartbeat X pf i k n cl) = cl_services cl"
  by (simp add: client_heartbeat_def Let_def client_send_services)

lemma client_hello_services [simp]: "cl_services (client_hello X pf i frame cl) = cl_services cl"
  by (simp add: client_hello_def client_send_services split: Frame.split)

lemma client_auth_services [simp]: "cl_services (client_auth X pf i frame cl) = cl_services cl"
  by (simp add: client_auth_def client_send_services split: Frame.split option.split)

lemma client_ack_services [simp]: "cl_services (client_ack X pf i n frame cl) = cl_services cl"
  by (simp add: client_ack_def client_send_services split: Frame.split)

lemma client_service_services:
  "cl_services (client_service X pf i address frame cl) =
     (case frame of RegisterServiceAccepted s \<Rightarrow> bt_insert (sd_service_id s) address (cl_services cl) | _ \<Rightarrow> cl_services cl)"
  by (simp add: client_service_def split: Frame.split)

lemma client_step_services:
  "cl_services (client_step X pf cl i) =
     (case (cl_phase cl, ci_read i) of
        (ExpectService address, Inr (RegisterServiceAccepted s)) \<Rightarrow> bt_insert (sd_service_id s) address (cl_services cl)
      | _ \<Rightarrow> cl_services cl)"
  by (simp add: client_step_def client_service_services split: ClientPhase.split sum.split Frame.split)

lemma client_start_services [simp]: "cl_services (client_start X io) = []"
  by (simp add: client_start_def client_send_services)

text \<open>An entry of the table stems from a registration the server accepted in this session.\<close>

definition published :: "Profile \<Rightarrow> ClientInput list \<Rightarrow> ServiceId \<Rightarrow> string \<Rightarrow> bool" where
  "published pf inputs service_id address \<longleftrightarrow>
     map_option sd_local_address (pf_service pf) = Some address \<and>
     (\<exists>accepted. Inr (RegisterServiceAccepted accepted) \<in> ci_read ` set inputs \<and> sd_service_id accepted = service_id)"

lemma services_published:
  "bt_get (cl_services (run_session X pf io inputs)) service_id = Some address \<Longrightarrow> published pf inputs service_id address"
proof (induction inputs arbitrary: address rule: rev_induct)
  case Nil
  then show ?case by (simp add: run_session_def)
next
  case (snoc i inputs)
  let ?cl = "run_session X pf io inputs"
  have step: "run_session X pf io (inputs @ [i]) = client_step X pf ?cl i"
    by (simp add: run_session_def run_events_append)
  show ?case
  proof (cases "bt_get (cl_services ?cl) service_id = Some address")
    case True
    from snoc.IH [OF this] show ?thesis by (auto simp: published_def)
  next
    case False
    with snoc.prems obtain s where s: "cl_phase ?cl = ExpectService address" "ci_read i = Inr (RegisterServiceAccepted s)"
        "sd_service_id s = service_id"
      by (auto simp: step client_step_services split: ClientPhase.splits sum.splits Frame.splits if_splits)
    from wrote_run [of pf X io inputs] s(1) have "map_option sd_local_address (pf_service pf) = Some address"
      by (simp add: wrote_def)
    with s(2,3) show ?thesis by (auto simp: published_def intro!: exI [of _ s] image_eqI [of _ ci_read i])
  qed
qed

text \<open>C25: a data stream is bridged only to the local address of the service this client was started to
  publish, under the identifier the server accepted it with, and only after the tunnel was
  acknowledged; a service that was created for the node in any other way (through the control API)
  is never served.\<close>

theorem client_dials_only_published:
  assumes "handle_data_stream X (cl_services (run_session X pf io inputs)) sio dial copied first = (Inr (Bridged address), sent)"
  shows "\<exists>tunnel_id service_id. first = Inr (OpenStream tunnel_id service_id) \<and> published pf inputs service_id address \<and>
    dial address = Dialled \<and> sent = [OpenStreamAck tunnel_id]"
proof -
  from assms obtain tunnel_id service_id where first: "first = Inr (OpenStream tunnel_id service_id)"
      "bt_get (cl_services (run_session X pf io inputs)) service_id = Some address" "dial address = Dialled"
      "sent = [OpenStreamAck tunnel_id]"
    by (auto simp: handle_data_stream_def send_frame_def split: sum.splits Frame.splits option.splits Dial.splits
        prod.splits if_splits)
  with services_published [OF first(2)] show ?thesis by blast
qed

section \<open>Fall-back\<close>

text \<open>C40: a client that is to stay connected is always moved to TCP/TLS: the five seconds are set on the
  whole QUIC session and not on its connection, so that whatever QUIC does the outcome of an
  attempt is the outcome of the Yamux session.\<close>

theorem client_always_falls_back:
  assumes "\<not> pf_once pf"
  shows "run_once_with_fallback X pf endpoints a =
    (let address = (case re_tcp_tls endpoints of Some address \<Rightarrow> address | None \<Rightarrow> re_quic endpoints)
     in run_yamux X pf (at_yamux a address) (at_yamux_io a) (at_yamux_reads a))"
proof -
  have "quic_within_timeout X pf address a \<noteq> Some (Inr u)" for address u
    using session_never_completes [OF assms]
    by (auto simp: quic_within_timeout_def run_quic_def split: option.splits)
  then show ?thesis
    by (auto simp: run_once_with_fallback_def Let_def split: option.split sum.split)
qed

section \<open>The retry loop\<close>

text \<open>the delay before a retry is a power of two between 2 and 32 seconds, doubling with every
  attempt up to the fifth, plus at most a third of it: it never exceeds 42 seconds, and 64-bit
  arithmetic never wraps.\<close>

theorem retry_delay_bounds:
  "let base = 2 ^ min (unat retry_attempt) 5 in
   base \<le> unat (retry_delay bits retry_attempt) \<and> unat (retry_delay bits retry_attempt) \<le> base + base div 3 \<and>
   unat (retry_delay bits retry_attempt) \<le> 42"
proof -
  define m where "m = min (unat retry_attempt) 5"
  then have "m \<le> 5" by simp
  then have m: "m = 0 \<or> m = 1 \<or> m = 2 \<or> m = 3 \<or> m = 4 \<or> m = 5" by presburger
  define base :: u64 where "base = 2 ^ m"
  have small: "unat base = 2 ^ m" "unat (base div 3) = 2 ^ m div 3" "unat (base div 3 + 1) = 2 ^ m div 3 + 1"
    using m by (auto simp: base_def)
  have "unat (random_up_to (base div 3) bits) = unat bits mod (2 ^ m div 3 + 1)"
    by (simp add: random_up_to_def unat_mod small)
  then have draw: "unat (random_up_to (base div 3) bits) \<le> 2 ^ m div 3"
    using mod_less_divisor [of "2 ^ m div 3 + 1" "unat bits"] by simp
  have "2 ^ m + 2 ^ m div 3 \<le> (42 :: nat)" using m by auto
  moreover from this draw have "unat (base + random_up_to (base div 3) bits) = 2 ^ m + unat (random_up_to (base div 3) bits)"
    by (subst unat_add_lem [THEN iffD1]) (simp_all add: small)
  ultimately show ?thesis
    using draw by (simp add: retry_delay_def base_delay_def Let_def flip: m_def base_def)
qed

text \<open>The delay slept after the failure of turn \<open>k\<close>.\<close>

definition backoff :: "(nat \<Rightarrow> u64) \<Rightarrow> nat \<Rightarrow> u64" where
  "backoff bits k = (let base = 2 ^ min (Suc k) 5 in base + random_up_to (base div 3) (bits k))"

definition retry_count :: "nat \<Rightarrow> u32" where
  "retry_count k = of_nat (min k (2 ^ 32 - 1))"

lemma unat_retry_count: "unat (retry_count k) = min k (2 ^ 32 - 1)"
  by (simp add: retry_count_def unat_of_nat take_bit_nat_eq_self)

lemma retry_count_Suc: "saturating_add_u32 (retry_count k) 1 = retry_count (Suc k)"
proof -
  have "unat (saturating_add_u32 (retry_count k) 1) = unat (retry_count (Suc k))"
  proof (cases "k < 2 ^ 32 - 1")
    case True
    then have "unat (retry_count k) + unat (1 :: u32) < 2 ^ 32" by (simp add: unat_retry_count)
    with True show ?thesis
      unfolding saturating_add_u32_def by (subst if_P) (simp_all add: unat_retry_count unat_word_ariths)
  next
    case False
    then have "\<not> unat (retry_count k) + unat (1 :: u32) < 2 ^ 32" by (simp add: unat_retry_count)
    moreover have "unat (4294967295 :: u32) = 2 ^ 32 - 1" by simp
    ultimately show ?thesis using False unfolding saturating_add_u32_def by (simp add: unat_retry_count)
  qed
  then show ?thesis by (rule word_unat_eq_iff [THEN iffD2])
qed

lemma retry_delay_backoff: "retry_delay (bits k) (retry_count (Suc k)) = backoff bits k"
proof -
  have "min (min (Suc k) (2 ^ 32 - 1)) 5 = min (Suc k) 5" by simp
  then show ?thesis by (simp only: retry_delay_def base_delay_def backoff_def Let_def unat_retry_count)
qed

text \<open>When the loop stops on an outcome.\<close>

definition gives_up :: "Profile \<Rightarrow> string + unit \<Rightarrow> bool" where
  "gives_up pf r = (case r of Inr _ \<Rightarrow> True | Inl e \<Rightarrow> pf_once pf \<or> is_authentication_error e)"

definition stops_at :: "Profile \<Rightarrow> (nat \<Rightarrow> (string + unit) option) \<Rightarrow> nat \<Rightarrow> nat \<Rightarrow> string + unit \<Rightarrow> bool" where
  "stops_at pf outcome k n r \<longleftrightarrow>
     outcome (k + n) = Some r \<and> gives_up pf r \<and>
     (\<forall>j \<in> {k..<k + n}. case outcome j of None \<Rightarrow> False | Some r \<Rightarrow> \<not> gives_up pf r)"

lemma stops_at_0: "stops_at pf outcome k 0 r \<longleftrightarrow> outcome k = Some r \<and> gives_up pf r"
  by (simp add: stops_at_def)

lemma stops_at_Suc:
  "stops_at pf outcome k (Suc n) r \<longleftrightarrow>
     (case outcome k of None \<Rightarrow> False | Some r \<Rightarrow> \<not> gives_up pf r) \<and> stops_at pf outcome (Suc k) n r"
proof -
  have "{k..<k + Suc n} = insert k {Suc k..<Suc k + n}" by auto
  then show ?thesis by (auto simp: stops_at_def)
qed

lemma retry_loop_unfold:
  "retry_loop X pf ep attempts bits k (retry_count k) slept =
     (case run_once_with_fallback X pf ep (attempts k) of
        None \<Rightarrow> None
      | Some r \<Rightarrow>
          if gives_up pf r then Some (r, slept)
          else retry_loop X pf ep attempts bits (Suc k) (retry_count (Suc k)) (slept @ [backoff bits k]))"
  by (subst retry_loop.simps)
    (auto simp: gives_up_def Let_def retry_count_Suc retry_delay_backoff split: option.split sum.split)

lemma retry_loop_stops:
  assumes "stops_at pf (\<lambda>k. run_once_with_fallback X pf ep (attempts k)) k n r"
  shows "retry_loop X pf ep attempts bits k (retry_count k) slept = Some (r, slept @ map (backoff bits) [k..<k + n])"
  using assms
proof (induction n arbitrary: k slept)
  case 0
  then show ?case by (subst retry_loop_unfold) (simp add: stops_at_0)
next
  case (Suc n)
  from Suc.prems have "stops_at pf (\<lambda>k. run_once_with_fallback X pf ep (attempts k)) (Suc k) n r"
      "case run_once_with_fallback X pf ep (attempts k) of None \<Rightarrow> False | Some r \<Rightarrow> \<not> gives_up pf r"
    by (simp_all add: stops_at_Suc)
  with Suc.IH [of "Suc k" "slept @ [backoff bits k]"] show ?case
    by (subst retry_loop_unfold) (auto simp: upt_rec [of k] split: option.splits)
qed

lemma retry_loop_returned:
  assumes "retry_loop X pf ep attempts bits k c slept = Some (r, ds)"
  shows "\<exists>n. stops_at pf (\<lambda>k. run_once_with_fallback X pf ep (attempts k)) k n r"
proof -
  let ?P = "\<lambda>X pf ep attempts (bits :: nat \<Rightarrow> u64) k (c :: u32) (slept :: u64 list) (res :: (string + unit) \<times> u64 list).
    \<exists>n. stops_at pf (\<lambda>k. run_once_with_fallback X pf ep (attempts k)) k n (fst res)"
  have "?P X pf ep attempts bits k c slept (r, ds)"
  proof (rule retry_loop.raw_induct [where P = ?P, OF _ assms])
    fix f X pf ep attempts bits k c slept res
    assume IH: "\<And>X pf ep attempts bits k c slept res. f X pf ep attempts bits k c slept = Some res \<Longrightarrow>
        \<exists>n. stops_at pf (\<lambda>k. run_once_with_fallback X pf ep (attempts k)) k n (fst res)"
      and eq: "(case run_once_with_fallback X pf ep (attempts k) of
          None \<Rightarrow> None
        | Some (Inl e) \<Rightarrow>
            if pf_once pf \<or> is_authentication_error e then Some (Inl e, slept)
            else let c = saturating_add_u32 c 1 in
              f X pf ep attempts bits (Suc k) c (slept @ [retry_delay (bits k) c])
        | Some (Inr _) \<Rightarrow> Some (Inr (), slept)) = Some res"
    let ?o = "\<lambda>k. run_once_with_fallback X pf ep (attempts k)"
    from eq obtain r' where r': "?o k = Some r'" by (cases "?o k") simp_all
    show "\<exists>n. stops_at pf ?o k n (fst res)"
    proof (cases "gives_up pf r'")
      case True
      with eq r' have "fst res = r'" by (auto simp: gives_up_def split: sum.splits)
      with True r' have "stops_at pf ?o k 0 (fst res)" by (simp add: stops_at_0)
      then show ?thesis ..
    next
      case False
      with eq r' obtain c' slept' where "f X pf ep attempts bits (Suc k) c' slept' = Some res"
        by (auto simp: gives_up_def Let_def split: sum.splits)
      from IH [OF this] obtain n where "stops_at pf ?o (Suc k) n (fst res)" ..
      with False r' have "stops_at pf ?o k (Suc n) (fst res)" by (simp add: stops_at_Suc)
      then show ?thesis ..
    qed
  qed
  then show ?thesis by simp
qed

lemma stops_at_unique:
  assumes "stops_at pf outcome k n r" and "stops_at pf outcome k m s"
  shows "n = m \<and> r = s"
proof -
  have "\<not> n < m" if "stops_at pf outcome k n r" "stops_at pf outcome k m s" for n m r s
    using that unfolding stops_at_def by (auto dest!: bspec [of _ _ "k + n"])
  with assms have "n = m" by (meson linorder_neqE_nat)
  with assms show ?thesis by (auto simp: stops_at_def)
qed

text \<open>C23: the client returns exactly when some attempt succeeds, is rejected for its token, or fails in a
  \<open>once\<close> run, and every attempt before it failed in another way: it returns what that attempt
  returned, after one growing delay per failure. Otherwise it retries for ever or stays
  connected.\<close>

theorem run_with_fallback_returns:
  "run_with_fallback X pf endpoints attempts bits = Some (r, slept) \<longleftrightarrow>
     (\<exists>n. stops_at pf (\<lambda>k. run_once_with_fallback X pf endpoints (attempts k)) 0 n r \<and>
          slept = map (backoff bits) [0..<n])"
proof -
  have "retry_count 0 = 0" by (simp add: retry_count_def)
  then have run: "run_with_fallback X pf endpoints attempts bits = retry_loop X pf endpoints attempts bits 0 (retry_count 0) []"
    by (simp add: run_with_fallback_def)
  show ?thesis
  proof
    assume ret: "run_with_fallback X pf endpoints attempts bits = Some (r, slept)"
    then obtain n where n: "stops_at pf (\<lambda>k. run_once_with_fallback X pf endpoints (attempts k)) 0 n r"
      using retry_loop_returned unfolding run by blast
    with retry_loop_stops [OF n, of bits "[]"] ret run show
      "\<exists>n. stops_at pf (\<lambda>k. run_once_with_fallback X pf endpoints (attempts k)) 0 n r \<and> slept = map (backoff bits) [0..<n]"
      by auto
  next
    assume "\<exists>n. stops_at pf (\<lambda>k. run_once_with_fallback X pf endpoints (attempts k)) 0 n r \<and> slept = map (backoff bits) [0..<n]"
    then show "run_with_fallback X pf endpoints attempts bits = Some (r, slept)"
      using retry_loop_stops [of pf X endpoints attempts 0 _ r bits "[]"] unfolding run by auto
  qed
qed

end
