(* ===== verification/Tunnel.thy ===== *)
theory Tunnel
  imports System_Props Client_Props
begin

text \<open>
  The client and the server together: the control stream between the two state machines of
  \<open>Client\<close> and \<open>Control\<close>, each reading what the other wrote, and the data stream of a
  visitor. That a frame that was written is read as it was is the round trip of \<open>Codec\<close>.
\<close>

section \<open>One control stream with both ends\<close>

text \<open>\<open>di_read\<close> and \<open>di_heard\<close> count what the server and the client have read.\<close>

record Dialogue =
  di_client :: Client
  di_connection :: Connection
  di_state :: AppState
  di_read :: nat
  di_heard :: nat

text \<open>What surrounds the two: transport, peer address, the environment of the server's k-th step and
  the meters at the client's k-th step.\<close>

record Scene =
  sc_quic :: bool
  sc_peer :: Peer
  sc_env :: "nat \<Rightarrow> Env"
  sc_meters :: "nat \<Rightarrow> Meters"

definition dialogue_start :: "Externals \<Rightarrow> AppState \<Rightarrow> Dialogue" where
  "dialogue_start X st =
     \<lparr>di_client = client_start X True, di_connection = new_connection, di_state = st, di_read = 0, di_heard = 0\<rparr>"

text \<open>The server reads when there is something to read, otherwise the client does.\<close>

definition dialogue_step :: "Externals \<Rightarrow> Profile \<Rightarrow> Scene \<Rightarrow> Dialogue \<Rightarrow> Dialogue" where
  "dialogue_step X pf sc d =
     (if di_read d < length (cl_sent (di_client d)) then
        (case handler_step (sc_quic sc) X (sc_peer sc)
                \<lparr>in_read = Inr (cl_sent (di_client d) ! di_read d), in_io = True, in_env = sc_env sc (di_read d)\<rparr>
                (di_connection d) (di_state d) of
           (co, st) \<Rightarrow> d\<lparr>di_connection := co, di_state := st, di_read := Suc (di_read d)\<rparr>)
      else if di_heard d < length (co_sent (di_connection d)) then
        d\<lparr>di_client := client_step X pf (di_client d)
             \<lparr>ci_read = Inr (co_sent (di_connection d) ! di_heard d), ci_io = (\<lambda>_. True), ci_meters = sc_meters sc (di_heard d)\<rparr>,
          di_heard := Suc (di_heard d)\<rparr>
      else d)"

fun dialogue :: "nat \<Rightarrow> Externals \<Rightarrow> Profile \<Rightarrow> Scene \<Rightarrow> AppState \<Rightarrow> Dialogue" where
  "dialogue 0 X pf sc st = dialogue_start X st"
| "dialogue (Suc n) X pf sc st = dialogue_step X pf sc (dialogue n X pf sc st)"

section \<open>Publishing a service\<close>

definition sendable :: "Externals \<Rightarrow> Frame \<Rightarrow> bool" where
  "sendable X frame \<longleftrightarrow> (\<forall>sent. send_frame X True frame sent = (Inr (), sent @ [frame]))"

lemma sendableD [simp]: "sendable X frame \<Longrightarrow> send_frame X True frame sent = (Inr (), sent @ [frame])"
  by (simp add: sendable_def)

text \<open>
  The circumstances of a publication that nothing disturbs: the frames fit, the token is valid,
  the server accepts the node and then the service.
\<close>

record Publication =
  pu_service :: ServiceDefinition
  pu_kind :: TokenKind
  pu_registered :: AppState
  pu_accepted :: ServiceDefinition
  pu_published :: AppState

definition transport_of :: "Scene \<Rightarrow> TransportKind" where
  "transport_of sc = (if sc_quic sc then Quic else TcpTlsYamux)"

definition principal_of :: "Profile \<Rightarrow> Scene \<Rightarrow> Publication \<Rightarrow> Principal" where
  "principal_of pf sc pu =
     \<lparr>pr_kind = pu_kind pu, pr_node = ns_node_id (pf_state pf), pr_session = UuidId (e_fresh_id (sc_env sc 1))\<rparr>"

definition first_heartbeat :: "Profile \<Rightarrow> Scene \<Rightarrow> HeartbeatSnapshot" where
  "first_heartbeat pf sc = heartbeat_snapshot (pf_ratio pf) 1 (sc_meters sc 2)"

definition public_key_of :: "Profile \<Rightarrow> bytes" where
  "public_key_of pf = node_public_key (pf_verifying_key pf) (pf_state pf)"

definition undisturbed :: "Externals \<Rightarrow> Profile \<Rightarrow> Scene \<Rightarrow> AppState \<Rightarrow> Publication \<Rightarrow> bool" where
  "undisturbed X pf sc st pu \<longleftrightarrow>
     sendable X (Hello PROTOCOL_VERSION) \<and> sendable X (Auth (pf_token pf) (ns_node_id (pf_state pf))) \<and>
     sendable X (AuthAccepted (pu_kind pu)) \<and> sendable X (RegisterNode (pf_metadata pf) (public_key_of pf)) \<and>
     sendable X (RegisterService (pu_service pu)) \<and> sendable X (RegisterServiceAccepted (pu_accepted pu)) \<and>
     sendable X (Heartbeat (first_heartbeat pf sc)) \<and>
     pf_service pf = Some (pu_service pu) \<and> sd_node_id (pu_service pu) = ns_node_id (pf_state pf) \<and>
     authenticate_token X (pf_token pf) st = Some (pu_kind pu) \<and>
     register_node (transport_of sc) X (sc_env sc 2) (sc_peer sc) (principal_of pf sc pu) (pf_metadata pf)
       (public_key_of pf) st = (Inr (), pu_registered pu) \<and>
     register_service X (sc_env sc 3) (pu_service pu) (ns_node_id (pf_state pf)) (pu_registered pu) =
       (Inr (pu_accepted pu), pu_published pu)"

lemma handler_step_register_node:
  "co_phase co = Serving pr registered \<Longrightarrow> in_read i = Inr (RegisterNode m k) \<Longrightarrow>
     register_node transport X (in_env i) peer pr m k st = (Inr (), st1) \<Longrightarrow>
     transport = (if quic then Quic else TcpTlsYamux) \<Longrightarrow>
     handler_step quic X peer i co st = (\<lparr>co_phase = Serving pr True, co_sent = co_sent co\<rparr>, st1)"
  by (cases quic) (simp_all add: handler_step_def quic_step_def yamux_step_def quic_frame_def yamux_frame_def)

text \<open>Any other frame the Yamux loop answers and goes on after.\<close>

lemma handler_step_next:
  assumes "co_phase co = Serving pr registered" and "in_read i = Inr frame" and "\<And>m k. frame \<noteq> RegisterNode m k"
    and "yamux_frame X (in_env i) (in_io i) peer pr frame registered (co_sent co) st = (NextFrame, registered', sent, st1)"
  shows "handler_step quic X peer i co st = (\<lparr>co_phase = Serving pr registered', co_sent = sent\<rparr>, st1)"
  using assms by (cases quic) (simp_all add: handler_step_def quic_step_def yamux_step_def quic_frame_yamux)

lemma handler_step_register_service:
  assumes "co_phase co = Serving pr True" and "in_read i = Inr (RegisterService s)" and "in_io i" and "sd_node_id s = pr_node pr"
    and "register_service X (in_env i) s (pr_node pr) st = (Inr a, st1)" and "sendable X (RegisterServiceAccepted a)"
  shows "handler_step quic X peer i co st =
    (\<lparr>co_phase = Serving pr True, co_sent = co_sent co @ [RegisterServiceAccepted a]\<rparr>, st1)"
  using assms by (intro handler_step_next [OF assms(1,2)]) (simp_all add: yamux_frame_def reply_def)

lemma handler_step_heartbeat:
  assumes "co_phase co = Serving pr registered" and "in_read i = Inr (Heartbeat h)" and "in_io i"
    and "record_heartbeat X (in_env i) (pr_node pr) h st = (Inr (), st1)"
    and "sendable X (HeartbeatAck (hs_sequence h) (now_unix_ms (e_clock (in_env i) 1)))"
  shows "handler_step quic X peer i co st = (\<lparr>co_phase = Serving pr registered,
    co_sent = co_sent co @ [HeartbeatAck (hs_sequence h) (now_unix_ms (e_clock (in_env i) 1))]\<rparr>, st1)"
  using assms by (intro handler_step_next [OF assms(1,2)]) (simp_all add: yamux_frame_def reply_def)

lemma handler_step_goodbye:
  assumes "co_phase co = Serving pr registered" and "in_read i = Inr Goodbye"
    and "end_session X (in_env i) pr st = (r, st1)"
  shows "handler_step quic X peer i co st = (\<lparr>co_phase = Ended r, co_sent = co_sent co\<rparr>, st1)"
  using assms
  by (cases quic; cases r)
    (simp_all add: handler_step_def quic_step_def yamux_step_def quic_frame_def yamux_frame_def yamux_finish_def quic_finish_def)

lemma handler_step_hello:
  "co_phase co = AwaitHello \<Longrightarrow> in_read i = Inr (Hello PROTOCOL_VERSION) \<Longrightarrow> in_io i \<Longrightarrow> sendable X (Hello PROTOCOL_VERSION) \<Longrightarrow>
     handler_step quic X peer i co st = (\<lparr>co_phase = AwaitAuth, co_sent = co_sent co @ [Hello PROTOCOL_VERSION]\<rparr>, st)"
  by (simp add: handler_step_handshake yamux_hello_def)

lemma handler_step_auth:
  "co_phase co = AwaitAuth \<Longrightarrow> in_read i = Inr (Auth token node) \<Longrightarrow> in_io i \<Longrightarrow>
     authenticate_token X token st = Some kind \<Longrightarrow> sendable X (AuthAccepted kind) \<Longrightarrow>
     handler_step quic X peer i co st =
       (\<lparr>co_phase = Serving \<lparr>pr_kind = kind, pr_node = node, pr_session = UuidId (e_fresh_id (in_env i))\<rparr> False,
         co_sent = co_sent co @ [AuthAccepted kind]\<rparr>, st)"
  by (simp add: handler_step_handshake yamux_auth_def)

lemma client_send_sendable: "sendable X frame \<Longrightarrow> client_send X True frame rest cl = rest (cl\<lparr>cl_sent := cl_sent cl @ [frame]\<rparr>)"
  by (simp add: client_send_def)

lemmas client_steps = client_step_def client_hello_def client_auth_def client_service_def client_ack_def
  client_heartbeat_def client_send_sendable await_def finish_def

lemma dialogue_next: "dialogue n X pf sc st = d \<Longrightarrow> dialogue (Suc n) X pf sc st = dialogue_step X pf sc d"
  by simp

declare dialogue.simps [simp del]

text \<open>The frames both ends have written when the service is published.\<close>

abbreviation client_frames :: "Profile \<Rightarrow> Scene \<Rightarrow> Publication \<Rightarrow> Frame list" where
  "client_frames pf sc pu \<equiv>
     [Hello PROTOCOL_VERSION, Auth (pf_token pf) (ns_node_id (pf_state pf)),
      RegisterNode (pf_metadata pf) (public_key_of pf), RegisterService (pu_service pu), Heartbeat (first_heartbeat pf sc)]"

abbreviation server_frames :: "Publication \<Rightarrow> Frame list" where
  "server_frames pu \<equiv> [Hello PROTOCOL_VERSION, AuthAccepted (pu_kind pu), RegisterServiceAccepted (pu_accepted pu)]"

lemma dialogue_publishes:
  assumes "undisturbed X pf sc st pu"
  shows "dialogue 7 X pf sc st =
    \<lparr>di_client = \<lparr>cl_phase = ExpectAck 1,
        cl_services = [(sd_service_id (pu_accepted pu), sd_local_address (pu_service pu))], cl_sent = client_frames pf sc pu\<rparr>,
     di_connection = \<lparr>co_phase = Serving (principal_of pf sc pu) True, co_sent = server_frames pu\<rparr>,
     di_state = pu_published pu, di_read = 4, di_heard = 3\<rparr>"
proof -
  note u = assms [unfolded undisturbed_def]
  let ?pr = "principal_of pf sc pu" and ?c = "client_frames pf sc pu" and ?s = "server_frames pu"
  let ?d = "\<lambda>phase services sent co_phase co_sent state r h.
    \<lparr>di_client = \<lparr>cl_phase = phase, cl_services = services, cl_sent = sent\<rparr>,
     di_connection = \<lparr>co_phase = co_phase, co_sent = co_sent\<rparr>, di_state = state, di_read = r, di_heard = h\<rparr>"
  have 0: "dialogue 0 X pf sc st = ?d ExpectHello [] (take 1 ?c) AwaitHello [] st 0 0"
    using u by (simp add: dialogue.simps dialogue_start_def client_start_def client_send_sendable await_def new_connection_def)
  have 1: "dialogue 1 X pf sc st = ?d ExpectHello [] (take 1 ?c) AwaitAuth (take 1 ?s) st 1 0"
    using u dialogue_next [OF 0] by (simp add: dialogue_step_def handler_step_hello)
  have 2: "dialogue 2 X pf sc st = ?d ExpectAuth [] (take 2 ?c) AwaitAuth (take 1 ?s) st 1 1"
    using u dialogue_next [OF 1] by (simp add: dialogue_step_def client_steps numeral_2_eq_2)
  have 3: "dialogue 3 X pf sc st = ?d ExpectAuth [] (take 2 ?c) (Serving ?pr False) (take 2 ?s) st 2 1"
    using u dialogue_next [OF 2] by (simp add: dialogue_step_def handler_step_auth principal_of_def)
  have 4: "dialogue 4 X pf sc st =
      ?d (ExpectService (sd_local_address (pu_service pu))) [] (take 4 ?c) (Serving ?pr False) (take 2 ?s) st 2 2"
    using u dialogue_next [OF 3] by (simp add: dialogue_step_def client_steps public_key_of_def)
  have 5: "dialogue 5 X pf sc st =
      ?d (ExpectService (sd_local_address (pu_service pu))) [] (take 4 ?c) (Serving ?pr True) (take 2 ?s) (pu_registered pu) 3 2"
  proof -
    from u have reg: "register_node (transport_of sc) X (sc_env sc 2) (sc_peer sc) ?pr (pf_metadata pf)
        (public_key_of pf) st = (Inr (), pu_registered pu)" by (elim conjE)
    let ?i = "\<lparr>in_read = Inr (RegisterNode (pf_metadata pf) (public_key_of pf)), in_io = True, in_env = sc_env sc 2\<rparr>"
      and ?co = "\<lparr>co_phase = Serving ?pr False, co_sent = take 2 ?s\<rparr>"
    have "handler_step (sc_quic sc) X (sc_peer sc) ?i ?co st = (\<lparr>co_phase = Serving ?pr True, co_sent = co_sent ?co\<rparr>, pu_registered pu)"
    proof (rule handler_step_register_node [where registered = False])
      show "register_node (transport_of sc) X (in_env ?i) (sc_peer sc) ?pr (pf_metadata pf) (public_key_of pf) st =
          (Inr (), pu_registered pu)"
        using reg by simp
    qed (simp_all add: transport_of_def)
    with dialogue_next [OF 4] show ?thesis by (simp add: dialogue_step_def)
  qed
  have 6: "dialogue 6 X pf sc st =
      ?d (ExpectService (sd_local_address (pu_service pu))) [] (take 4 ?c) (Serving ?pr True) ?s (pu_published pu) 4 2"
    using u dialogue_next [OF 5]
    by (simp add: dialogue_step_def handler_step_register_service principal_of_def)
  show ?thesis
    using u dialogue_next [OF 6] by (simp add: dialogue_step_def client_steps first_heartbeat_def)
qed

lemma register_node_session:
  assumes "register_node transport X E peer pr m k st = (Inr (), st')"
  shows "bt_get (st_sessions st') (pr_node pr) =
    Some \<lparr>as_id = pr_session pr, as_token_kind = pr_kind pr, as_connection = pe_session peer\<rparr>"
  using assms
  by (auto simp: register_node_def activate_session_def Let_def split: sum.splits prod.splits option.splits)

lemma published_session:
  assumes "undisturbed X pf sc st pu"
  shows "bt_get (st_sessions (pu_published pu)) (ns_node_id (pf_state pf)) =
    Some \<lparr>as_id = UuidId (e_fresh_id (sc_env sc 1)), as_token_kind = pu_kind pu, as_connection = pe_session (sc_peer sc)\<rparr>"
proof -
  from assms have "st_sessions (pu_published pu) = st_sessions (pu_registered pu)"
    using register_service_frame by (metis snd_conv undisturbed_def)
  with assms show ?thesis
    by (auto simp: undisturbed_def principal_of_def dest!: register_node_session)
qed

lemma published_service:
  assumes "undisturbed X pf sc st pu"
  shows "bt_get (st_services (pu_published pu)) (sd_service_id (pu_accepted pu)) = Some (pu_accepted pu)"
    and "sd_service_name (pu_accepted pu) = sd_service_name (pu_service pu)"
    and "sd_node_id (pu_accepted pu) = ns_node_id (pf_state pf)"
    and "sd_protocol (pu_accepted pu) = sd_protocol (pu_service pu)"
proof -
  from assms have reg: "register_service X (sc_env sc 3) (pu_service pu) (ns_node_id (pf_state pf)) (pu_registered pu) =
      (Inr (pu_accepted pu), pu_published pu)" and node: "sd_node_id (pu_service pu) = ns_node_id (pf_state pf)"
    by (auto simp: undisturbed_def)
  from reg obtain plan: "register_plan (pu_registered pu) (pu_service pu) (ns_node_id (pf_state pf)) = Inr (pu_accepted pu)"
      and services: "st_services (pu_published pu) = bt_insert (sd_service_id (pu_accepted pu)) (pu_accepted pu) (st_services (pu_registered pu))"
    by (rule register_service_Inr)
  then show "bt_get (st_services (pu_published pu)) (sd_service_id (pu_accepted pu)) = Some (pu_accepted pu)"
    "sd_service_name (pu_accepted pu) = sd_service_name (pu_service pu)"
    "sd_node_id (pu_accepted pu) = ns_node_id (pf_state pf)"
    "sd_protocol (pu_accepted pu) = sd_protocol (pu_service pu)"
    using register_plan_kept [OF plan] node by simp_all
qed

text \<open>C4: a client that starts with a valid token and a service the server accepts gets it published
  over either transport: seven frames after the start the server's directory holds the record the
  client was told, under the client's node and name, the node's session is this connection, and
  the client serves the record's identifier from its local address and has sent its first
  heartbeat.\<close>

theorem client_publishes:
  assumes "undisturbed X pf sc st pu"
  shows "let d = dialogue 7 X pf sc st; service_id = sd_service_id (pu_accepted pu) in
    cl_phase (di_client d) = ExpectAck 1 \<and>
    cl_services (di_client d) = [(service_id, sd_local_address (pu_service pu))] \<and>
    last (cl_sent (di_client d)) = Heartbeat (first_heartbeat pf sc) \<and>
    RegisterServiceAccepted (pu_accepted pu) \<in> set (co_sent (di_connection d)) \<and>
    co_phase (di_connection d) = Serving (principal_of pf sc pu) True \<and>
    bt_get (st_services (di_state d)) service_id = Some (pu_accepted pu) \<and>
    sd_service_name (pu_accepted pu) = sd_service_name (pu_service pu) \<and>
    sd_node_id (pu_accepted pu) = ns_node_id (pf_state pf) \<and>
    map_option as_connection (bt_get (st_sessions (di_state d)) (ns_node_id (pf_state pf))) = Some (pe_session (sc_peer sc))"
  unfolding Let_def dialogue_publishes [OF assms]
  using published_service [OF assms] published_session [OF assms] by simp

section \<open>A visitor\<close>

text \<open>
  A data stream with both ends: the server opens it and the client answers; when the client ends
  the stream without an answer, the server's read fails.
\<close>

definition visit ::
  "Externals \<Rightarrow> (ServiceId, string) btree \<Rightarrow> (string \<Rightarrow> Dial) \<Rightarrow> uuid \<Rightarrow> ServiceId \<Rightarrow> AppState \<Rightarrow>
     string + (ClientSession \<times> TunnelId)" where
  "visit X local_services dial fresh service_id st =
     open_client_stream X service_id fresh Opened True
       (AckRead (case snd (handle_data_stream X local_services True dial True (Inr (OpenStream (UuidId fresh) service_id))) of
          [] \<Rightarrow> Inl LengthUnread
        | frame # _ \<Rightarrow> Inr frame)) st"

lemma visit_session:
  assumes "bt_get (st_services st) service_id = Some s" and "bt_get (st_sessions st) (sd_node_id s) = Some a"
    and "sendable X (OpenStream (UuidId fresh) service_id)"
  shows "visit X local_services dial fresh service_id st =
    (case snd (handle_data_stream X local_services True dial True (Inr (OpenStream (UuidId fresh) service_id))) of
       [] \<Rightarrow> Inl (wire_message LengthUnread)
     | OpenStreamAck t # _ \<Rightarrow> if t = UuidId fresh then Inr (as_connection a, t)
         else Inl ''client returned an invalid data stream acknowledgement''
     | ErrorFrame message # _ \<Rightarrow> Inl (''client rejected local target: '' @ message)
     | _ \<Rightarrow> Inl ''client returned an invalid data stream acknowledgement'')"
  using assms by (simp add: visit_def open_client_stream_def Let_def split: list.split Frame.split)

text \<open>What the client can be asked to send on the stream.\<close>

definition stream_answers :: "uuid \<Rightarrow> string \<Rightarrow> Dial \<Rightarrow> Frame" where
  "stream_answers fresh address d =
     (case d of
        Dialled \<Rightarrow> OpenStreamAck (UuidId fresh)
      | DialFailed e \<Rightarrow> ErrorFrame (''failed to connect to '' @ address @ '': '' @ e)
      | DialTimedOut \<Rightarrow> ErrorFrame (''timed out connecting to '' @ address))"

lemma handle_data_stream_known:
  assumes "bt_get local_services service_id = Some address" and "sendable X (stream_answers fresh address (dial address))"
  shows "snd (handle_data_stream X local_services True dial True (Inr (OpenStream (UuidId fresh) service_id))) =
    [stream_answers fresh address (dial address)]"
  using assms by (auto simp: handle_data_stream_def stream_answers_def split: Dial.split)

text \<open>C5: a visitor of a published service reaches the publishing client and its local address: once the
  service is published, \<open>open_client_stream\<close> succeeds over that client's connection exactly when
  the local address answers; otherwise the server's error is the client's reason, which the server
  logs (the visitor sees a closed connection or the status 502).\<close>

theorem visitor_reaches_client:
  assumes "undisturbed X pf sc st pu" and "sendable X (OpenStream (UuidId fresh) (sd_service_id (pu_accepted pu)))"
    and "sendable X (stream_answers fresh (sd_local_address (pu_service pu)) (dial (sd_local_address (pu_service pu))))"
  shows "let d = dialogue 7 X pf sc st; address = sd_local_address (pu_service pu) in
    visit X (cl_services (di_client d)) dial fresh (sd_service_id (pu_accepted pu)) (di_state d) =
      (case dial address of
         Dialled \<Rightarrow> Inr (pe_session (sc_peer sc), UuidId fresh)
       | DialFailed e \<Rightarrow> Inl (''client rejected local target: failed to connect to '' @ address @ '': '' @ e)
       | DialTimedOut \<Rightarrow> Inl (''client rejected local target: timed out connecting to '' @ address))"
proof -
  let ?address = "sd_local_address (pu_service pu)" and ?id = "sd_service_id (pu_accepted pu)"
  have "bt_get (st_sessions (pu_published pu)) (sd_node_id (pu_accepted pu)) = Some \<lparr>as_id = UuidId (e_fresh_id (sc_env sc 1)),
      as_token_kind = pu_kind pu, as_connection = pe_session (sc_peer sc)\<rparr>"
    using published_session [OF assms(1)] published_service(3) [OF assms(1)] by simp
  note open' = visit_session [OF published_service(1) [OF assms(1)] this assms(2)]
  have answer': "snd (handle_data_stream X [(?id, ?address)] True dial True (Inr (OpenStream (UuidId fresh) ?id))) =
      [stream_answers fresh ?address (dial ?address)]"
    by (rule handle_data_stream_known) (simp add: bt_get_def, rule assms(3))
  show ?thesis
    unfolding Let_def dialogue_publishes [OF assms(1)] open' Dialogue.select_convs
    by (cases "dial ?address") (simp_all add: stream_answers_def answer')
qed

text \<open>a service that the control API created for a node is not served: the client knows only the
  identifier it published itself, so a visitor of any other service of the node is dropped, although
  the directory has the service and the node is connected.\<close>

theorem api_service_not_served:
  assumes "undisturbed X pf sc st pu" and "bt_get (st_services st') service_id = Some s"
    and "bt_get (st_sessions st') (sd_node_id s) = Some a" and "sendable X (OpenStream (UuidId fresh) service_id)"
    and "service_id \<noteq> sd_service_id (pu_accepted pu)"
  shows "visit X (cl_services (di_client (dialogue 7 X pf sc st))) dial fresh service_id st' =
    Inl ''failed to read control frame length''"
proof -
  have "snd (handle_data_stream X [(sd_service_id (pu_accepted pu), sd_local_address (pu_service pu))] True dial True
      (Inr (OpenStream (UuidId fresh) service_id))) = []"
    using assms(5) by (simp add: handle_data_stream_def bt_get_def)
  then show ?thesis
    unfolding dialogue_publishes [OF assms(1)] visit_session [OF assms(2-4)] by simp
qed

section \<open>A run with \<open>once\<close>\<close>

text \<open>a \<open>once\<close> run against a server that records its heartbeat completes on both sides: the client
  returns without an error and the server's handler ends as the clean-up of its session does.\<close>

theorem once_run_completes:
  assumes "undisturbed X pf sc st pu" and "pf_once pf" and "sendable X Goodbye"
    and "sendable X (HeartbeatAck 1 (now_unix_ms (e_clock (sc_env sc 4) 1)))"
    and "record_heartbeat X (sc_env sc 4) (ns_node_id (pf_state pf)) (first_heartbeat pf sc) (pu_published pu) = (Inr (), st1)"
    and "end_session X (sc_env sc 5) (principal_of pf sc pu) st1 = (r, st2)"
  shows "let d = dialogue 10 X pf sc st in
    session_result (di_client d) = Some (Inr ()) \<and> co_phase (di_connection d) = Ended r \<and> di_state d = st2 \<and>
    bt_get (st_sessions (di_state d)) (ns_node_id (pf_state pf)) = None"
proof -
  let ?c = "client_frames pf sc pu" and ?pr = "principal_of pf sc pu"
    and ?ack = "HeartbeatAck 1 (now_unix_ms (e_clock (sc_env sc 4) 1))"
    and ?services = "[(sd_service_id (pu_accepted pu), sd_local_address (pu_service pu))]"
  have seq: "hs_sequence (first_heartbeat pf sc) = 1" by (simp add: first_heartbeat_def heartbeat_snapshot_def)
  have node: "pr_node ?pr = ns_node_id (pf_state pf)" by (simp add: principal_of_def)
  have 8: "dialogue 8 X pf sc st =
    \<lparr>di_client = \<lparr>cl_phase = ExpectAck 1, cl_services = ?services, cl_sent = ?c\<rparr>,
     di_connection = \<lparr>co_phase = Serving ?pr True, co_sent = server_frames pu @ [?ack]\<rparr>,
     di_state = st1, di_read = 5, di_heard = 3\<rparr>"
    using dialogue_next [OF dialogue_publishes [OF assms(1)]] assms(4,5) seq node
    by (simp add: dialogue_step_def handler_step_heartbeat)
  have 9: "dialogue 9 X pf sc st =
    \<lparr>di_client = \<lparr>cl_phase = Finished (Inr ()), cl_services = ?services, cl_sent = ?c @ [Goodbye]\<rparr>,
     di_connection = \<lparr>co_phase = Serving ?pr True, co_sent = server_frames pu @ [?ack]\<rparr>,
     di_state = st1, di_read = 5, di_heard = 4\<rparr>"
    using dialogue_next [OF 8] assms(2,3) by (simp add: dialogue_step_def client_steps)
  have 10: "dialogue 10 X pf sc st =
    \<lparr>di_client = \<lparr>cl_phase = Finished (Inr ()), cl_services = ?services, cl_sent = ?c @ [Goodbye]\<rparr>,
     di_connection = \<lparr>co_phase = Ended r, co_sent = server_frames pu @ [?ack]\<rparr>,
     di_state = st2, di_read = 6, di_heard = 4\<rparr>"
    using dialogue_next [OF 9] assms(6) by (simp add: dialogue_step_def handler_step_goodbye)
  have "st_sessions st1 = st_sessions (pu_published pu)"
    using record_heartbeat_frame assms(5) by (metis snd_conv)
  then have "session_active ?pr st1"
    using published_session [OF assms(1)] by (simp add: session_active_def principal_of_def)
  then have "st_sessions st2 = bt_remove (ns_node_id (pf_state pf)) (st_sessions st1)"
    using end_session_state(1) [of X "sc_env sc 5" ?pr st1] assms(6) node by simp
  then show ?thesis unfolding Let_def 10 by (simp add: session_result_def)
qed

section \<open>Witnesses\<close>

lemma position_of_mem: "x \<in> set xs \<Longrightarrow> \<exists>i < length xs. position_of x xs = Some i"
  by (induction xs) auto

lemma sendable_listed:
  assumes "x_frame X = listed xs" and "frame \<in> set xs" and "length xs \<le> MAX_FRAME_SIZE"
  shows "sendable X frame"
proof -
  from position_of_mem [OF assms(2)] obtain i where "i < length xs" "position_of frame xs = Some i" by blast
  with assms(1,3) show ?thesis
    by (simp add: sendable_def send_frame_def write_control_frame_def encode_frame_def listed_def)
qed

definition sample_meters :: Meters where
  "sample_meters = \<lparr>sy_clock = Some 3, sy_cpu = 0, sy_total_memory = 0, sy_used_memory = 0, sy_load = 0,
     sy_received = [], sy_transmitted = []\<rparr>"

definition sample_scene :: Scene where
  "sample_scene = \<lparr>sc_quic = False,
     sc_peer = \<lparr>pe_ip = ''10.0.0.1'', pe_port = 4000, pe_session = YamuxConnection 1\<rparr>,
     sc_env = (\<lambda>_. sample_env), sc_meters = (\<lambda>_. sample_meters)\<rparr>"

definition sample_profile :: Profile where
  "sample_profile = \<lparr>pf_state = \<lparr>ns_node_id = sample_node, ns_private_key = [9]\<rparr>, pf_token = [CHR 0x02],
     pf_service = Some sample_request, pf_once = True, pf_metadata = nr_metadata sample_record,
     pf_verifying_key = id, pf_ratio = (\<lambda>_ _. 0)\<rparr>"

definition sample_heartbeat :: HeartbeatSnapshot where
  "sample_heartbeat = first_heartbeat sample_profile sample_scene"

definition arrived_node :: NodeRecord where
  "arrived_node = sample_record\<lparr>nr_transport := TcpTlsYamux, nr_connected_at := 5\<rparr>"

definition beaten_node :: NodeRecord where
  "beaten_node = arrived_node\<lparr>nr_status := NodeIsOnline, nr_last_heartbeat_at := Some 5, nr_rtt_ms := Some 2\<rparr>"

definition tunnel_frames :: "Frame list" where
  "tunnel_frames = [Hello 1, Auth [CHR 0x02] sample_node, AuthAccepted User, RegisterNode (nr_metadata sample_record) [9],
     RegisterService sample_request, RegisterServiceAccepted sample_service, Heartbeat sample_heartbeat,
     HeartbeatAck 1 5, Goodbye, OpenStream (UuidId 5) (UuidId 2), OpenStream (UuidId 5) (UuidId 4), OpenStreamAck (UuidId 5)]"

definition tunnel_externals :: Externals where
  "tunnel_externals = sample_externals\<lparr>x_frame := listed tunnel_frames, x_node := listed [arrived_node, beaten_node],
     x_metric := listed [\<lparr>me_node_id = sample_node, me_recorded_at = 5, me_rtt_ms = Some 2, me_snapshot = sample_heartbeat\<rparr>]\<rparr>"

lemma tunnel_sendable [simp]: "frame \<in> set tunnel_frames \<Longrightarrow> sendable tunnel_externals frame"
  by (rule sendable_listed [of _ tunnel_frames])
    (simp_all add: tunnel_externals_def tunnel_frames_def MAX_FRAME_SIZE_def)

definition sample_publication :: Publication where
  "sample_publication =
     (let registered = snd (register_node TcpTlsYamux tunnel_externals sample_env (sc_peer sample_scene)
            arrived_principal (nr_metadata sample_record) [9] arrival_state)
      in \<lparr>pu_service = sample_request, pu_kind = User, pu_registered = registered, pu_accepted = sample_service,
          pu_published = snd (register_service tunnel_externals sample_env sample_request sample_node registered)\<rparr>)"

lemma put_node_listed:
  assumes "x_node X = listed nodes" and "node \<in> set nodes"
  shows "\<exists>d'. put_node X None node d = (Inr (), d')"
proof -
  from position_of_mem [OF assms(2)] obtain i where "position_of node nodes = Some i" by blast
  with assms(1) show ?thesis by (simp add: put_node_def encode_with_def listed_def write_txn_def)
qed

lemma tunnel_put_node: "node \<in> {arrived_node, beaten_node} \<Longrightarrow> \<exists>d'. put_node tunnel_externals None node d = (Inr (), d')"
  by (rule put_node_listed [of _ "[arrived_node, beaten_node]"]) (auto simp: tunnel_externals_def)

lemma sample_env_simps [simp]:
  "e_db sample_env c = None" "e_clock sample_env k = Some 5" "e_fresh_id sample_env = 8" "e_bind sample_env q"
  by (simp_all add: sample_env_def)

lemma now_5 [simp]: "now_unix_ms (Some 5) = 5"
  by (simp add: now_unix_ms_def as_i64_def)

lemma tunnel_registers:
  "register_node TcpTlsYamux tunnel_externals sample_env (sc_peer sample_scene) arrived_principal
     (nr_metadata sample_record) [9] arrival_state = (Inr (), pu_registered sample_publication)"
  "st_services (pu_registered sample_publication) = []"
  "st_nodes (pu_registered sample_publication) = [(sample_node, arrived_node)]"
  "st_tcp_ingress_tasks (pu_registered sample_publication) = []"
  "st_tcp_port_start (pu_registered sample_publication) = 20000"
  "st_tcp_port_end (pu_registered sample_publication) = 20001"
  "st_public_host (pu_registered sample_publication) = ''relay''"
proof -
  have valid: "metadata_validate (nm_metadata (nr_metadata sample_record)) = Inr ()"
    by (simp add: sample_record_def) code_simp
  have identity: "validate_node_identity sample_node [9] arrival_state = Inr ()"
    by (simp add: validate_node_identity_def arrival_state_def sample_state_def bt_get_def sample_record_def)
  have node: "\<lparr>nr_node_id = sample_node, nr_public_key = Some [9], nr_metadata = nr_metadata sample_record,
      nr_public_ip = ''10.0.0.1'', nr_source_port = 4000, nr_transport = TcpTlsYamux, nr_status = NodeIsOnline,
      nr_connected_at = 5, nr_last_heartbeat_at = None, nr_rtt_ms = None\<rparr> = arrived_node"
    by (simp add: sample_record_def arrived_node_def)
  obtain d where put: "put_node tunnel_externals None arrived_node (st_store arrival_state) = (Inr (), d)"
    using tunnel_put_node by blast
  let ?r = "register_node TcpTlsYamux tunnel_externals sample_env (sc_peer sample_scene) arrived_principal
    (nr_metadata sample_record) [9] arrival_state"
  have r: "\<exists>st. ?r = (Inr (), st) \<and> st_services st = [] \<and> st_nodes st = [(sample_node, arrived_node)] \<and>
      st_tcp_ingress_tasks st = [] \<and> st_tcp_port_start st = 20000 \<and> st_tcp_port_end st = 20001 \<and> st_public_host st = ''relay''"
    using valid identity put
    by (simp add: register_node_def arrived_principal_def sample_scene_def node Let_def activate_session_def)
      (simp add: arrival_state_def sample_state_def bt_get_def)
  moreover have "pu_registered sample_publication = snd ?r"
    by (simp add: sample_publication_def Let_def)
  ultimately show "?r = (Inr (), pu_registered sample_publication)"
    "st_services (pu_registered sample_publication) = []"
    "st_nodes (pu_registered sample_publication) = [(sample_node, arrived_node)]"
    "st_tcp_ingress_tasks (pu_registered sample_publication) = []"
    "st_tcp_port_start (pu_registered sample_publication) = 20000"
    "st_tcp_port_end (pu_registered sample_publication) = 20001"
    "st_public_host (pu_registered sample_publication) = ''relay''"
    by auto
qed

lemma tunnel_publishes:
  "register_service tunnel_externals sample_env sample_request sample_node (pu_registered sample_publication) =
     (Inr sample_service, pu_published sample_publication)"
proof -
  let ?st = "pu_registered sample_publication"
  have name: "validate_service_name ''ssh'' = Inr ()" by code_simp
  have ports: "port_range 20000 20001 = [20000, 20001]" by (simp add: port_range_def upt_rec)
  have plan: "register_plan ?st sample_request sample_node = Inr sample_service"
    by (simp add: register_plan_def sample_request_def sample_service_def name ports tunnel_registers
      adopt_previous_def assign_tcp_def first_available_tcp_port_def bt_values_def metadata_validate_def)
  obtain d where "put_service tunnel_externals None sample_service (st_store ?st) = (Inr (), d)"
    by (simp add: put_service_def encode_with_def tunnel_externals_def sample_externals_def listed_def write_txn_def)
  then have "\<exists>st'. register_service tunnel_externals sample_env sample_request sample_node ?st = (Inr sample_service, st')"
    unfolding register_service_def plan
    by (simp add: Let_def ensure_tcp_ingress_def tunnel_registers bt_contains_key_def bt_get_def sample_service_def
        split: option.split)
  moreover have "pu_published sample_publication =
      snd (register_service tunnel_externals sample_env sample_request sample_node ?st)"
    by (simp add: sample_publication_def Let_def)
  ultimately show ?thesis by auto
qed

lemma sample_undisturbed: "undisturbed tunnel_externals sample_profile sample_scene arrival_state sample_publication"
proof -
  have auth: "authenticate_token tunnel_externals [CHR 0x02] arrival_state = Some User"
    by (simp add: authenticate_token_def arrival_state_def sample_state_def token_authenticate_def hash_token_def
        tunnel_externals_def sample_externals_def sample_tokens_def string_bytes_def)
  have pub: "pu_service sample_publication = sample_request" "pu_kind sample_publication = User"
      "pu_accepted sample_publication = sample_service"
    by (simp_all add: sample_publication_def Let_def)
  have pr: "principal_of sample_profile sample_scene sample_publication = arrived_principal"
    by (simp add: principal_of_def arrived_principal_def pub sample_profile_def sample_scene_def)
  have "\<forall>frame \<in> set tunnel_frames. sendable tunnel_externals frame" by simp
  then have sends: "sendable tunnel_externals (Auth [CHR 0x02] sample_node)"
    "sendable tunnel_externals (RegisterNode (nr_metadata sample_record) [9])"
    by (simp_all add: tunnel_frames_def)
  show ?thesis
    unfolding undisturbed_def pub pr
    using auth tunnel_registers(1) tunnel_publishes
    by (simp add: PROTOCOL_VERSION_def public_key_of_def node_public_key_def transport_of_def tunnel_frames_def
        sample_heartbeat_def [symmetric])
      (simp add: sample_profile_def sample_scene_def sample_request_def sample_service_def sends)
qed

lemmas sample_publication_parts =
  sample_publication_def [THEN arg_cong [of _ _ pu_service], unfolded Let_def Publication.select_convs]
  sample_publication_def [THEN arg_cong [of _ _ pu_kind], unfolded Let_def Publication.select_convs]
  sample_publication_def [THEN arg_cong [of _ _ pu_accepted], unfolded Let_def Publication.select_convs]

theorem client_publishes_witness:
  "cl_services (di_client (dialogue 7 tunnel_externals sample_profile sample_scene arrival_state)) =
     [(UuidId 2, ''127.0.0.1:22'')] \<and>
   bt_get (st_services (di_state (dialogue 7 tunnel_externals sample_profile sample_scene arrival_state))) (UuidId 2) =
     Some sample_service"
proof -
  have "sd_service_id sample_service = UuidId 2" "sd_local_address sample_request = ''127.0.0.1:22''"
    by (simp_all add: sample_request_def sample_service_def)
  with client_publishes [OF sample_undisturbed] show ?thesis
    unfolding Let_def sample_publication_parts by simp
qed

theorem visitor_reaches_client_witness:
  "visit tunnel_externals (cl_services (di_client (dialogue 7 tunnel_externals sample_profile sample_scene arrival_state)))
     (\<lambda>_. Dialled) 5 (UuidId 2) (di_state (dialogue 7 tunnel_externals sample_profile sample_scene arrival_state)) =
   Inr (YamuxConnection 1, UuidId 5)"
proof -
  have id: "sd_service_id sample_service = UuidId 2" by (simp add: sample_service_def)
  have "sendable tunnel_externals (OpenStream (UuidId 5) (sd_service_id (pu_accepted sample_publication)))"
    "sendable tunnel_externals (stream_answers 5 (sd_local_address (pu_service sample_publication)) Dialled)"
    unfolding sample_publication_parts id by (simp_all add: tunnel_frames_def stream_answers_def)
  from visitor_reaches_client [OF sample_undisturbed this(1), of "\<lambda>_. Dialled"] this(2) show ?thesis
    unfolding Let_def sample_publication_parts id by (simp add: sample_scene_def)
qed

definition api_service :: ServiceDefinition where
  "api_service = sample_service\<lparr>sd_service_id := UuidId 4, sd_service_name := ''web'', sd_protocol := Http,
     sd_public_host := Some ''web.d'', sd_public_port := None\<rparr>"

theorem api_service_not_served_witness:
  "visit tunnel_externals (cl_services (di_client (dialogue 7 tunnel_externals sample_profile sample_scene arrival_state)))
     (\<lambda>_. Dialled) 5 (UuidId 4) (sample_state\<lparr>st_services := [(UuidId 2, sample_service), (UuidId 4, api_service)]\<rparr>) =
   Inl ''failed to read control frame length''"
proof -
  let ?st = "sample_state\<lparr>st_services := [(UuidId 2, sample_service), (UuidId 4, api_service)]\<rparr>"
  have s: "bt_get (st_services ?st) (UuidId 4) = Some api_service" by (simp add: bt_get_def)
  have a: "bt_get (st_sessions ?st) (sd_node_id api_service) =
      Some \<lparr>as_id = UuidId 3, as_token_kind = User, as_connection = QuicConnection 1\<rparr>"
    by (simp add: bt_get_def sample_state_def api_service_def sample_service_def)
  have o: "sendable tunnel_externals (OpenStream (UuidId 5) (UuidId 4))" by (simp add: tunnel_frames_def)
  have "UuidId 4 \<noteq> sd_service_id (pu_accepted sample_publication)"
    unfolding sample_publication_parts by (simp add: sample_service_def)
  from api_service_not_served [OF sample_undisturbed s a o this] show ?thesis by simp
qed

lemma tunnel_heartbeat:
  "\<exists>st. record_heartbeat tunnel_externals sample_env sample_node sample_heartbeat (pu_published sample_publication) = (Inr (), st)"
proof -
  let ?st = "pu_published sample_publication"
  have "st_nodes ?st = st_nodes (pu_registered sample_publication)"
    using register_service_frame tunnel_publishes by (metis snd_conv)
  then have node: "bt_get (st_nodes ?st) sample_node = Some arrived_node" by (simp add: tunnel_registers bt_get_def)
  have rtt: "heartbeat_rtt 5 sample_heartbeat = 2"
    by (simp add: heartbeat_rtt_def sample_heartbeat_def first_heartbeat_def heartbeat_snapshot_def sample_scene_def
        sample_meters_def now_unix_ms_def as_i64_def saturating_sub_i64_def i64_min_def i64_max_def clamp_i64_def as_u32_def)
  obtain d where "put_node tunnel_externals None beaten_node (st_store ?st) = (Inr (), d)"
    using tunnel_put_node by blast
  moreover have "fst (put_metric tunnel_externals None
      \<lparr>me_node_id = sample_node, me_recorded_at = 5, me_rtt_ms = Some 2, me_snapshot = sample_heartbeat\<rparr> d) = Inr ()" for d
    by (simp add: put_metric_def encode_with_def tunnel_externals_def listed_def write_txn_def Let_def)
  ultimately show ?thesis
    using node by (simp add: record_heartbeat_def rtt Let_def beaten_node_def [symmetric] case_prod_beta prod_eq_iff)
qed

theorem once_run_completes_witness:
  "session_result (di_client (dialogue 10 tunnel_externals sample_profile sample_scene arrival_state)) = Some (Inr ()) \<and>
   bt_get (st_sessions (di_state (dialogue 10 tunnel_externals sample_profile sample_scene arrival_state))) sample_node = None"
proof -
  obtain st1 where beat: "record_heartbeat tunnel_externals (sc_env sample_scene 4) (ns_node_id (pf_state sample_profile))
      (first_heartbeat sample_profile sample_scene) (pu_published sample_publication) = (Inr (), st1)"
    using tunnel_heartbeat by (auto simp: sample_scene_def sample_profile_def sample_heartbeat_def)
  obtain r st2 where ended: "end_session tunnel_externals (sc_env sample_scene 5)
      (principal_of sample_profile sample_scene sample_publication) st1 = (r, st2)"
    by (cases "end_session tunnel_externals (sc_env sample_scene 5)
      (principal_of sample_profile sample_scene sample_publication) st1")
  have once: "pf_once sample_profile" and node: "ns_node_id (pf_state sample_profile) = sample_node"
    by (simp_all add: sample_profile_def)
  have "now_unix_ms (e_clock (sc_env sample_scene 4) 1) = 5" by (simp add: sample_scene_def)
  then have ack: "sendable tunnel_externals (HeartbeatAck 1 (now_unix_ms (e_clock (sc_env sample_scene 4) 1)))"
    by (simp add: tunnel_frames_def)
  have bye: "sendable tunnel_externals Goodbye" by (simp add: tunnel_frames_def)
  from once_run_completes [OF sample_undisturbed once bye ack beat ended, unfolded Let_def node] show ?thesis
    by (elim conjE) (intro conjI)
qed

text \<open>The client on its own, with the answers a server gives it.\<close>

definition hearing :: "Frame \<Rightarrow> ClientInput" where
  "hearing frame = \<lparr>ci_read = Inr frame, ci_io = (\<lambda>_. True), ci_meters = sample_meters\<rparr>"

definition sample_answers :: "ClientInput list" where
  "sample_answers = map hearing [Hello 1, AuthAccepted User, RegisterServiceAccepted sample_service]"

lemma sample_answers_session:
  "cl_phase (run_session tunnel_externals sample_profile True sample_answers) = ExpectAck 1"
  "cl_services (run_session tunnel_externals sample_profile True sample_answers) = [(UuidId 2, ''127.0.0.1:22'')]"
proof -
  have "heartbeat_snapshot (pf_ratio sample_profile) 1 sample_meters = sample_heartbeat"
    by (simp add: sample_heartbeat_def first_heartbeat_def sample_scene_def)
  then have beat: "sendable tunnel_externals (Heartbeat (heartbeat_snapshot (pf_ratio sample_profile) 1 sample_meters))"
    by (simp add: tunnel_frames_def)
  have sends: "sendable tunnel_externals (Hello PROTOCOL_VERSION)"
    "sendable tunnel_externals (Auth (pf_token sample_profile) (ns_node_id (pf_state sample_profile)))"
    "sendable tunnel_externals (RegisterNode (pf_metadata sample_profile)
      (node_public_key (pf_verifying_key sample_profile) (pf_state sample_profile)))"
    "sendable tunnel_externals (RegisterService sample_request)"
    using sample_undisturbed by (simp_all add: undisturbed_def public_key_of_def sample_publication_parts)
  have service: "pf_service sample_profile = Some sample_request" by (simp add: sample_profile_def)
  have "run_session tunnel_externals sample_profile True sample_answers =
    \<lparr>cl_phase = ExpectAck 1, cl_services = [(sd_service_id sample_service, sd_local_address sample_request)],
     cl_sent = opener sample_profile @ [Heartbeat (heartbeat_snapshot (pf_ratio sample_profile) 1 sample_meters)]\<rparr>"
    using beat sends service
    by (simp add: run_session_def sample_answers_def hearing_def client_start_def client_steps opener_def PROTOCOL_VERSION_def)
  then show "cl_phase (run_session tunnel_externals sample_profile True sample_answers) = ExpectAck 1"
    "cl_services (run_session tunnel_externals sample_profile True sample_answers) = [(UuidId 2, ''127.0.0.1:22'')]"
    by (simp_all add: sample_request_def sample_service_def)
qed

theorem client_dials_only_published_witness:
  "handle_data_stream tunnel_externals (cl_services (run_session tunnel_externals sample_profile True sample_answers)) True
     (\<lambda>_. Dialled) True (Inr (OpenStream (UuidId 5) (UuidId 2))) = (Inr (Bridged ''127.0.0.1:22''), [OpenStreamAck (UuidId 5)]) \<and>
   published sample_profile sample_answers (UuidId 2) ''127.0.0.1:22''"
proof -
  have "sendable tunnel_externals (OpenStreamAck (UuidId 5))" by (simp add: tunnel_frames_def)
  then have run: "handle_data_stream tunnel_externals (cl_services (run_session tunnel_externals sample_profile True sample_answers)) True
     (\<lambda>_. Dialled) True (Inr (OpenStream (UuidId 5) (UuidId 2))) = (Inr (Bridged ''127.0.0.1:22''), [OpenStreamAck (UuidId 5)])"
    by (simp add: handle_data_stream_def sample_answers_session bt_get_def)
  from client_dials_only_published [OF run] run show ?thesis by auto
qed

definition staying_profile :: Profile where
  "staying_profile = sample_profile\<lparr>pf_once := False\<rparr>"

definition sample_attempt :: Attempt where
  "sample_attempt = \<lparr>at_quic = (\<lambda>_. Some QuicOpen), at_quic_io = True, at_quic_reads = sample_answers,
     at_yamux = (\<lambda>_. YamuxNoAlpn), at_yamux_io = True, at_yamux_reads = []\<rparr>"

theorem client_always_falls_back_witness:
  "run_once_with_fallback tunnel_externals staying_profile \<lparr>re_quic = wildcard, re_tcp_tls = None\<rparr> sample_attempt =
     Some (Inl ''relay did not negotiate ongrok/1 over TCP/TLS'')"
proof -
  have "\<not> pf_once staying_profile" by (simp add: staying_profile_def)
  from client_always_falls_back [OF this] show ?thesis
    by (simp add: run_yamux_def sample_attempt_def)
qed

end
