(* ===== verification/Sections.thy ===== *)
theory Sections
  imports System_Props
begin

text \<open>
  Concurrency inside the server. The handlers of \<open>server.rs\<close> run as tasks of a
  multi-threaded runtime; each takes one mutex at a time and gives it back before the next, and
  every database call is one transaction. The operations are cut here at exactly those points: a
  job is an operation stopped between two critical sections, a step of it runs the next section,
  and the steps of different jobs interleave in any order. \<open>perform\<close> is the same operation
  uninterrupted, as the other theories define it.
\<close>

section \<open>Operations and jobs\<close>

text \<open>What a handler starts, with the arguments it passes.\<close>

datatype Operation =
    OpRegister ServiceDefinition NodeId
  | OpUnregister ServiceId NodeId
  | OpDelete ServiceId
  | OpPatch Decoders ServiceId Request
  | OpCreate Decoders Request
  | OpRegisterNode TransportKind Peer Principal NodeMetadata bytes
  | OpEndSession Principal
  | OpHeartbeat NodeId HeartbeatSnapshot
  | OpReplaceToken TokenKind "bytes option"

datatype Outcome =
    Registered "string + ServiceDefinition"
  | Completed "string + unit"
  | Answered Response

text \<open>A job names the section it runs next; the local variables still needed are its arguments.\<close>

datatype Job =
    Begin Operation
  | RegisterStore ServiceDefinition NodeId
  | RegisterListen ServiceDefinition NodeId
  | RegisterBind ServiceDefinition NodeId u16
  | RegisterUndo ServiceDefinition
  | RegisterUndoStore ServiceDefinition
  | RegisterEvent ServiceDefinition NodeId
  | UnregisterStore ServiceId NodeId
  | UnregisterEvent ServiceId NodeId
  | UnregisterListener ServiceId
  | DeleteListener ServiceDefinition ServiceId
  | DeleteStore ServiceDefinition ServiceId
  | DeleteEvent ServiceDefinition ServiceId
  | PatchStore ServiceDefinition
  | PatchView ServiceDefinition
  | CreateCheck ServiceCreateRequest
  | Creating Job
  | NodeActivate TransportKind Peer Principal NodeMetadata bytes
  | NodeInsert TransportKind Peer Principal NodeMetadata bytes
  | NodeStore NodeRecord Principal
  | NodeEvent Principal
  | EndRemove Principal
  | EndOffline Principal
  | EndStore NodeRecord Principal
  | EndEvent Principal
  | HeartbeatStore NodeRecord NodeId HeartbeatSnapshot int u32
  | HeartbeatMetric NodeId HeartbeatSnapshot int u32
  | ReplaceSessions TokenKind
  | ReplaceClose "(NodeId \<times> ActiveSession) list"
  | ReplaceNodes "(NodeId \<times> ActiveSession) list"
  | ReplaceStore nat "NodeRecord list"
  | ReplaceEvent nat NodeRecord "NodeRecord list"
  | Finished Outcome

fun outcome_of :: "Job \<Rightarrow> Outcome option" where
  "outcome_of (Finished outcome) = Some outcome"
| "outcome_of job = None"

section \<open>The sections of each operation\<close>

text \<open>The answer of the route that creates a service, given what the registration returned.\<close>

fun creation_answer :: "Outcome \<Rightarrow> Outcome" where
  "creation_answer (Registered (Inr service)) = Answered (json 201 (ServiceResponse service))"
| "creation_answer (Registered (Inl _)) = Answered (error_json 400 ''service could not be created'')"
| "creation_answer outcome = outcome"

definition node_record :: "TransportKind \<Rightarrow> Env \<Rightarrow> Peer \<Rightarrow> Principal \<Rightarrow> NodeMetadata \<Rightarrow> bytes \<Rightarrow> NodeRecord" where
  "node_record transport E peer pr metadata public_key =
     \<lparr>nr_node_id = pr_node pr, nr_public_key = Some public_key, nr_metadata = metadata,
      nr_public_ip = pe_ip peer, nr_source_port = pe_port peer, nr_transport = transport,
      nr_status = NodeIsOnline, nr_connected_at = now_unix_ms (e_clock E 0),
      nr_last_heartbeat_at = None, nr_rtt_ms = None\<rparr>"

text \<open>The first section: what runs up to the first lock given back.\<close>

fun begin_operation :: "Externals \<Rightarrow> Env \<Rightarrow> Operation \<Rightarrow> AppState \<Rightarrow> Job \<times> AppState" where
  "begin_operation X E (OpRegister service node_id) st =
     (case register_plan st service node_id of
        Inl e \<Rightarrow> (Finished (Registered (Inl e)), st)
      | Inr service \<Rightarrow>
          (RegisterStore service node_id,
           st\<lparr>st_services := bt_insert (sd_service_id service) service (st_services st)\<rparr>))"
| "begin_operation X E (OpUnregister service_id node_id) st =
     (case bt_get (st_services st) service_id of
        None \<Rightarrow> (Finished (Completed (Inr ())), st)
      | Some service \<Rightarrow>
          if sd_node_id service \<noteq> node_id then (Finished (Completed (Inr ())), st)
          else (UnregisterStore service_id node_id, st\<lparr>st_services := bt_remove service_id (st_services st)\<rparr>))"
| "begin_operation X E (OpDelete service_id) st =
     (case bt_get (st_services st) service_id of
        None \<Rightarrow> (Finished (Answered (error_json 404 ''service not found'')), st)
      | Some service \<Rightarrow>
          (DeleteListener service service_id, st\<lparr>st_services := bt_remove service_id (st_services st)\<rparr>))"
| "begin_operation X E (OpPatch J service_id request) st =
     (case rq_body request of
        Inl _ \<Rightarrow> (Finished (Answered (error_json 400 ''invalid service patch request'')), st)
      | Inr bytes \<Rightarrow>
          if length bytes > MAX_API_BODY_BYTES
          then (Finished (Answered (error_json 413 ''service patch request is too large'')), st)
          else case js_service_patch J bytes of
            Inl _ \<Rightarrow> (Finished (Answered (error_json 400 ''invalid service patch request'')), st)
          | Inr patch \<Rightarrow>
              (case pa_metadata patch of
                 None \<Rightarrow> (Finished (Answered (error_json 400 ''metadata is required'')), st)
               | Some metadata \<Rightarrow>
                   (case metadata_validate metadata of
                      Inl _ \<Rightarrow> (Finished (Answered (error_json 400 ''invalid service metadata'')), st)
                    | Inr _ \<Rightarrow>
                        (case bt_get (st_services st) service_id of
                           None \<Rightarrow> (Finished (Answered (error_json 404 ''service not found'')), st)
                         | Some service \<Rightarrow>
                             let updated = service\<lparr>sd_metadata := metadata\<rparr>
                             in (PatchStore updated,
                                 st\<lparr>st_services := bt_insert service_id updated (st_services st)\<rparr>)))))"
| "begin_operation X E (OpCreate J request) st =
     (if authenticate X (rq_authorization request) st = None
      then (Finished (Answered (error_json 401 ''invalid bearer token'')), st)
      else case rq_body request of
        Inl _ \<Rightarrow> (Finished (Answered (error_json 400 ''invalid service request'')), st)
      | Inr bytes \<Rightarrow>
          if length bytes > MAX_API_BODY_BYTES
          then (Finished (Answered (error_json 413 ''service request is too large'')), st)
          else case js_service_create J bytes of
            Inl _ \<Rightarrow> (Finished (Answered (error_json 400 ''invalid service request'')), st)
          | Inr create \<Rightarrow> (CreateCheck create, st))"
| "begin_operation X E (OpRegisterNode transport peer pr metadata public_key) st =
     (case metadata_validate (nm_metadata metadata) of
        Inl e \<Rightarrow> (Finished (Completed (Inl (validation_message e))), st)
      | Inr _ \<Rightarrow>
     (case validate_node_identity (pr_node pr) public_key st of
        Inl e \<Rightarrow> (Finished (Completed (Inl e)), st)
      | Inr _ \<Rightarrow> (NodeActivate transport peer pr metadata public_key, st)))"
| "begin_operation X E (OpEndSession pr) st =
     (if session_active pr st then (EndRemove pr, st) else (Finished (Completed (Inr ())), st))"
| "begin_operation X E (OpHeartbeat node_id snapshot) st =
     (let recorded_at = now_unix_ms (e_clock E 0);
          rtt_ms = heartbeat_rtt recorded_at snapshot
      in case bt_get (st_nodes st) node_id of
           None \<Rightarrow> (Finished (Completed (Inr ())), st)
         | Some node \<Rightarrow>
             let node = node\<lparr>nr_status := NodeIsOnline, nr_last_heartbeat_at := Some recorded_at,
                   nr_rtt_ms := Some rtt_ms\<rparr>
             in (HeartbeatStore node node_id snapshot recorded_at rtt_ms,
                 st\<lparr>st_nodes := bt_insert node_id node (st_nodes st)\<rparr>))"
| "begin_operation X E (OpReplaceToken kind hash) st =
     (if st_tokens_poisoned st then (Finished (Completed (Inl ''token state lock is poisoned'')), st)
      else
        let updated = token_set (st_tokens st) kind hash in
        case put_tokens X (e_db E CallPutTokens) updated (st_store st) of
          (Inl e, d) \<Rightarrow> (Finished (Completed (Inl e)), st\<lparr>st_store := d\<rparr>)
        | (Inr _, d) \<Rightarrow> (ReplaceSessions kind, st\<lparr>st_tokens := updated, st_store := d\<rparr>))"

text \<open>
  One section. The listener of a registration is bound between two sections of the task map:
  the check that there is none and the insertion, which aborts one that came in between. The
  teardown is cut as \<open>handle_quic_connection\<close> cuts it; \<open>handle_yamux_session\<close> keeps the
  node map locked from marking the node to its end, so its runs are among these.
\<close>

fun job_step :: "Externals \<Rightarrow> Env \<Rightarrow> Job \<Rightarrow> AppState \<Rightarrow> Job \<times> AppState" where
  "job_step X E (Begin operation) st = begin_operation X E operation st"
| "job_step X E (RegisterStore service node_id) st =
     (case put_service X (e_db E CallPutService) service (st_store st) of
        (Inl e, d) \<Rightarrow> (Finished (Registered (Inl e)), st\<lparr>st_store := d\<rparr>)
      | (Inr _, d) \<Rightarrow>
          (if sd_protocol service = Tcp then RegisterListen service node_id else RegisterEvent service node_id,
           st\<lparr>st_store := d\<rparr>))"
| "job_step X E (RegisterListen service node_id) st =
     (case sd_public_port service of
        None \<Rightarrow> (RegisterUndo service, st)
      | Some port \<Rightarrow>
          (if bt_contains_key (st_tcp_ingress_tasks st) (sd_service_id service) then RegisterEvent service node_id
           else if \<not> e_bind E port then RegisterUndo service
           else RegisterBind service node_id port, st))"
| "job_step X E (RegisterBind service node_id port) st =
     (let task = \<lparr>it_service = sd_service_id service, it_port = port\<rparr>;
          previous = bt_get (st_tcp_ingress_tasks st) (sd_service_id service);
          st = emit [SpawnIngress task]
            (st\<lparr>st_tcp_ingress_tasks := bt_insert (sd_service_id service) task (st_tcp_ingress_tasks st)\<rparr>)
      in (RegisterEvent service node_id, case previous of None \<Rightarrow> st | Some p \<Rightarrow> emit [AbortIngress p] st))"
| "job_step X E (RegisterUndo service) st =
     (RegisterUndoStore service, st\<lparr>st_services := bt_remove (sd_service_id service) (st_services st)\<rparr>)"
| "job_step X E (RegisterUndoStore service) st =
     (case delete_service X (e_db E CallDeleteService) (sd_service_id service) (st_store st) of
        (Inl e, d) \<Rightarrow> (Finished (Registered (Inl e)), st\<lparr>st_store := d\<rparr>)
      | (Inr _, d) \<Rightarrow> (Finished (Registered (Inl ''failed to activate TCP relay port'')), st\<lparr>st_store := d\<rparr>))"
| "job_step X E (RegisterEvent service node_id) st =
     (Finished (Registered (Inr service)),
      record_event X E 0 ServiceRegistered (Some node_id) (Some (sd_service_id service)) None st)"
| "job_step X E (UnregisterStore service_id node_id) st =
     (case delete_service X (e_db E CallDeleteService) service_id (st_store st) of
        (Inl e, d) \<Rightarrow> (Finished (Completed (Inl e)), st\<lparr>st_store := d\<rparr>)
      | (Inr _, d) \<Rightarrow> (UnregisterEvent service_id node_id, st\<lparr>st_store := d\<rparr>))"
| "job_step X E (UnregisterEvent service_id node_id) st =
     (UnregisterListener service_id, record_event X E 0 ServiceDeleted (Some node_id) (Some service_id) None st)"
| "job_step X E (UnregisterListener service_id) st =
     (Finished (Completed (Inr ())),
      case bt_get (st_tcp_ingress_tasks st) service_id of
        None \<Rightarrow> st
      | Some task \<Rightarrow> emit [AbortIngress task]
          (st\<lparr>st_tcp_ingress_tasks := bt_remove service_id (st_tcp_ingress_tasks st)\<rparr>))"
| "job_step X E (DeleteListener service service_id) st =
     (DeleteStore service service_id,
      case bt_get (st_tcp_ingress_tasks st) service_id of
        None \<Rightarrow> st
      | Some task \<Rightarrow> emit [AbortIngress task]
          (st\<lparr>st_tcp_ingress_tasks := bt_remove service_id (st_tcp_ingress_tasks st)\<rparr>))"
| "job_step X E (DeleteStore service service_id) st =
     (case delete_service X (e_db E CallDeleteService) service_id (st_store st) of
        (Inl e, d) \<Rightarrow> (Finished (Answered (error_json 500 ''failed to delete service'')), st\<lparr>st_store := d\<rparr>)
      | (Inr _, d) \<Rightarrow> (DeleteEvent service service_id, st\<lparr>st_store := d\<rparr>))"
| "job_step X E (DeleteEvent service service_id) st =
     (Finished (Answered (json 200 (DeletedResponse True service_id))),
      record_event X E 0 ServiceDeleted (Some (sd_node_id service)) (Some service_id) None st)"
| "job_step X E (PatchStore updated) st =
     (case put_service X (e_db E CallPutService) updated (st_store st) of
        (Inl _, d) \<Rightarrow> (Finished (Answered (error_json 500 ''failed to update service'')), st\<lparr>st_store := d\<rparr>)
      | (Inr _, d) \<Rightarrow> (PatchView updated, st\<lparr>st_store := d\<rparr>))"
| "job_step X E (PatchView updated) st =
     (Finished (Answered (json 200 (ServiceViewResponse (service_view (st_nodes st) updated)))), st)"
| "job_step X E (CreateCheck create) st =
     (case map_option nr_status (bt_get (st_nodes st) (cr_node_id create)) of
        None \<Rightarrow> (Finished (Answered (error_json 404 ''node not found'')), st)
      | Some node_status \<Rightarrow>
          (if node_status \<noteq> NodeIsOnline then Finished (Answered (error_json 409 ''node is offline''))
           else Creating (Begin (OpRegister (into_definition (e_fresh_id E) create) (cr_node_id create))), st))"
| "job_step X E (Creating job) st =
     (case job_step X E job st of
        (job, st) \<Rightarrow>
          (case outcome_of job of
             Some outcome \<Rightarrow> (Finished (creation_answer outcome), st)
           | None \<Rightarrow> (Creating job, st)))"
| "job_step X E (NodeActivate transport peer pr metadata public_key) st =
     (NodeInsert transport peer pr metadata public_key,
      activate_session (pr_node pr) (pr_session pr) (pr_kind pr) (pe_session peer) st)"
| "job_step X E (NodeInsert transport peer pr metadata public_key) st =
     (let node = node_record transport E peer pr metadata public_key
      in (NodeStore node pr, st\<lparr>st_nodes := bt_insert (pr_node pr) node (st_nodes st)\<rparr>))"
| "job_step X E (NodeStore node pr) st =
     (case put_node X (e_db E (CallPutNode 0)) node (st_store st) of
        (Inl e, d) \<Rightarrow> (Finished (Completed (Inl e)), st\<lparr>st_store := d\<rparr>)
      | (Inr _, d) \<Rightarrow> (NodeEvent pr, st\<lparr>st_store := d\<rparr>))"
| "job_step X E (NodeEvent pr) st =
     (Finished (Completed (Inr ())), record_event X E 0 NodeOnline (Some (pr_node pr)) None None st)"
| "job_step X E (EndRemove pr) st =
     (EndOffline pr, st\<lparr>st_sessions := bt_remove (pr_node pr) (st_sessions st)\<rparr>)"
| "job_step X E (EndOffline pr) st =
     (let st = st\<lparr>st_nodes := bt_adjust (pr_node pr) set_offline (st_nodes st)\<rparr>
      in case bt_get (st_nodes st) (pr_node pr) of
           None \<Rightarrow> (Finished (Completed (Inr ())), st)
         | Some node \<Rightarrow> (EndStore node pr, st))"
| "job_step X E (EndStore node pr) st =
     (case put_node X (e_db E (CallPutNode 1)) node (st_store st) of
        (Inl e, d) \<Rightarrow> (Finished (Completed (Inl e)), st\<lparr>st_store := d\<rparr>)
      | (Inr _, d) \<Rightarrow> (EndEvent pr, st\<lparr>st_store := d\<rparr>))"
| "job_step X E (EndEvent pr) st =
     (Finished (Completed (Inr ())), record_event X E 1 NodeOffline (Some (pr_node pr)) None None st)"
| "job_step X E (HeartbeatStore node node_id snapshot recorded_at rtt_ms) st =
     (case put_node X (e_db E (CallPutNode 0)) node (st_store st) of
        (Inl e, d) \<Rightarrow> (Finished (Completed (Inl e)), st\<lparr>st_store := d\<rparr>)
      | (Inr _, d) \<Rightarrow> (HeartbeatMetric node_id snapshot recorded_at rtt_ms, st\<lparr>st_store := d\<rparr>))"
| "job_step X E (HeartbeatMetric node_id snapshot recorded_at rtt_ms) st =
     (case put_metric X (e_db E CallPutMetric)
         \<lparr>me_node_id = node_id, me_recorded_at = recorded_at, me_rtt_ms = Some rtt_ms, me_snapshot = snapshot\<rparr>
         (st_store st) of
        (r, d) \<Rightarrow> (Finished (Completed r), st\<lparr>st_store := d\<rparr>))"
| "job_step X E (ReplaceSessions kind) st =
     (let disconnected = sessions_of_kind kind st
      in (ReplaceClose disconnected, st\<lparr>st_sessions := fold bt_remove (map fst disconnected) (st_sessions st)\<rparr>))"
| "job_step X E (ReplaceClose disconnected) st =
     (ReplaceNodes disconnected, emit (map (\<lambda>p. close_session (as_connection (snd p))) disconnected) st)"
| "job_step X E (ReplaceNodes disconnected) st =
     (let st = st\<lparr>st_nodes := mark_nodes_offline (map fst disconnected) (st_nodes st)\<rparr>
      in (ReplaceStore 1 (List.map_filter (bt_get (st_nodes st)) (map fst disconnected)), st))"
| "job_step X E (ReplaceStore k []) st = (Finished (Completed (Inr ())), st)"
| "job_step X E (ReplaceStore k (node # offline)) st =
     (case put_node X (e_db E (CallPutNode k)) node (st_store st) of
        (Inl e, d) \<Rightarrow> (Finished (Completed (Inl e)), st\<lparr>st_store := d\<rparr>)
      | (Inr _, d) \<Rightarrow> (ReplaceEvent k node offline, st\<lparr>st_store := d\<rparr>))"
| "job_step X E (ReplaceEvent k node offline) st =
     (ReplaceStore (Suc k) offline, record_event X E k NodeOffline (Some (nr_node_id node)) None None st)"
| "job_step X E (Finished outcome) st = (Finished outcome, st)"

section \<open>Jobs together\<close>

text \<open>A server's running jobs with its state; an event starts a job or runs a section of one.\<close>

record Pool =
  po_jobs :: "(Env \<times> Job) list"
  po_state :: AppState

datatype Turn = Start Env Operation | Run nat

fun pool_step :: "Externals \<Rightarrow> Pool \<Rightarrow> Turn \<Rightarrow> Pool" where
  "pool_step X p (Start E operation) = p\<lparr>po_jobs := po_jobs p @ [(E, Begin operation)]\<rparr>"
| "pool_step X p (Run k) =
     (if k < length (po_jobs p) then
        case po_jobs p ! k of (E, job) \<Rightarrow>
          (case job_step X E job (po_state p) of
             (job', st) \<Rightarrow> \<lparr>po_jobs = (po_jobs p)[k := (E, job')], po_state = st\<rparr>)
      else p)"

definition idle :: "AppState \<Rightarrow> Pool" where
  "idle st = \<lparr>po_jobs = [], po_state = st\<rparr>"

section \<open>The operations uninterrupted\<close>

fun perform :: "Externals \<Rightarrow> Env \<Rightarrow> Operation \<Rightarrow> AppState \<Rightarrow> Outcome \<times> AppState" where
  "perform X E (OpRegister service node_id) st = map_prod Registered id (register_service X E service node_id st)"
| "perform X E (OpUnregister service_id node_id) st = map_prod Completed id (unregister_service X E service_id node_id st)"
| "perform X E (OpDelete service_id) st = map_prod Answered id (service_delete X E service_id st)"
| "perform X E (OpPatch J service_id request) st = map_prod Answered id (service_patch X J E service_id request st)"
| "perform X E (OpCreate J request) st = map_prod Answered id (service_create_route X J E request st)"
| "perform X E (OpRegisterNode transport peer pr metadata public_key) st =
     map_prod Completed id (register_node transport X E peer pr metadata public_key st)"
| "perform X E (OpEndSession pr) st = map_prod Completed id (end_session X E pr st)"
| "perform X E (OpHeartbeat node_id snapshot) st = map_prod Completed id (record_heartbeat X E node_id snapshot st)"
| "perform X E (OpReplaceToken kind hash) st = map_prod Completed id (replace_token X E kind hash st)"

end
