(* ===== verification/Sections_Props.thy ===== *)
theory Sections_Props
  imports Sections
begin

text \<open>
  What holds of the operations cut into critical sections: every job ends, a job that is not
  interrupted does what the whole operation does, the directory invariant survives every
  interleaving, and three interleavings whose result no uninterrupted order has.
\<close>

section \<open>Every job ends\<close>

lemma outcome_of_Some: "outcome_of job = Some outcome \<longleftrightarrow> job = Finished outcome"
  by (cases job) simp_all

fun stage :: "Job \<Rightarrow> nat" where
  "stage (Begin (OpCreate J r)) = 12"
| "stage (CreateCheck c) = 11"
| "stage (Creating job) = Suc (stage job)"
| "stage (Begin operation) = 9"
| "stage (PatchStore s) = 4"
| "stage (RegisterStore s n) = 6"
| "stage (RegisterListen s n) = 5"
| "stage (RegisterBind s n p) = 4"
| "stage (RegisterUndo s) = 4"
| "stage (UnregisterStore i n) = 4"
| "stage (DeleteListener s i) = 4"
| "stage (NodeActivate t p pr m k) = 4"
| "stage (EndRemove pr) = 4"
| "stage (RegisterUndoStore s) = 3"
| "stage (UnregisterEvent i n) = 3"
| "stage (DeleteStore s i) = 3"
| "stage (NodeInsert t p pr m k) = 3"
| "stage (EndOffline pr) = 3"
| "stage (NodeStore r pr) = 2"
| "stage (EndStore r pr) = 2"
| "stage (HeartbeatStore r n s t m) = 2"
| "stage (ReplaceSessions k) = 2"
| "stage (Finished outcome) = 0"
| "stage job = 1"

fun pending :: "Job \<Rightarrow> nat" where
  "pending (ReplaceClose disconnected) = 2 * length disconnected + 3"
| "pending (ReplaceNodes disconnected) = 2 * length disconnected + 2"
| "pending (ReplaceStore k offline) = 2 * length offline + 1"
| "pending (ReplaceEvent k node offline) = 2 * length offline + 2"
| "pending (Creating job) = pending job"
| "pending job = 0"

lemma length_map_filter: "length (List.map_filter f (map g xs)) \<le> length xs"
  using length_filter_le [of _ "map g xs"] by (simp add: map_filter_def)

lemma begin_operation_stage: "stage (fst (begin_operation X E operation st)) < stage (Begin operation)"
  by (cases operation) (simp_all add: Let_def split: sum.split option.split prod.split)

lemma job_step_less:
  "outcome_of job = None \<Longrightarrow> (fst (job_step X E job st), job) \<in> measures [stage, pending]"
proof (induction job)
  case (Begin operation)
  show ?case using begin_operation_stage by (simp del: begin_operation.simps)
next
  case (Creating job)
  obtain job' st' where step: "job_step X E job st = (job', st')" by fastforce
  show ?case
  proof (cases "outcome_of job = None")
    case True
    with Creating.IH step have "(job', job) \<in> measures [stage, pending]" by simp
    with step show ?thesis by (auto split: option.split)
  next
    case False
    then obtain outcome where "job = Finished outcome" by (auto simp: outcome_of_Some)
    then show ?thesis by simp
  qed
next
  case (ReplaceStore k offline)
  show ?case by (cases offline) (auto split: sum.split prod.split)
qed (auto simp: Let_def less_Suc_eq_le length_map_filter split: sum.split option.split prod.split)

text \<open>So an operation is at an end after finitely many of its own sections, whatever other jobs do to
  the shared state in between.\<close>

section \<open>A job alone\<close>

function run_job :: "Externals \<Rightarrow> Env \<Rightarrow> Job \<Rightarrow> AppState \<Rightarrow> Job \<times> AppState" where
  "run_job X E job st =
     (if outcome_of job \<noteq> None then (job, st) else case job_step X E job st of (job, st) \<Rightarrow> run_job X E job st)"
  by auto

termination
proof (relation "inv_image (measures [stage, pending]) (\<lambda>(X, E, job, st). job)")
  show "wf (inv_image (measures [stage, pending]) (\<lambda>(X, E, job, st). job))" by (simp add: wf_inv_image)
next
  fix X E job st job' st'
  assume "\<not> outcome_of job \<noteq> None" and "(job', st') = job_step X E job st"
  then have "(job', job) \<in> measures [stage, pending]"
    using job_step_less [of job X E st] by (metis fst_conv)
  then show "((X, E, job', st'), (X, E, job, st)) \<in> inv_image (measures [stage, pending]) (\<lambda>(X, E, job, st). job)"
    by (simp add: in_inv_image del: in_measures)
qed

declare run_job.simps [simp del]

lemma run_job_Finished [simp]: "run_job X E (Finished outcome) st = (Finished outcome, st)"
  by (simp add: run_job.simps)

lemma run_job_step:
  "outcome_of job = None \<Longrightarrow> run_job X E job st = run_job X E (fst (job_step X E job st)) (snd (job_step X E job st))"
  by (simp add: run_job.simps [of X E job] case_prod_beta)

lemma run_replace_store:
  "run_job X E (ReplaceStore k offline) st = map_prod (Finished \<circ> Completed) id (persist_offline X E k offline st)"
  by (induction offline arbitrary: k st)
     (simp_all add: run_job_step split: prod.split sum.split)

lemma run_register:
  "run_job X E (Begin (OpRegister service n)) st = map_prod (Finished \<circ> Registered) id (register_service X E service n st)"
  by (simp add: run_job_step register_service_def ensure_tcp_ingress_def Let_def split: prod.split sum.split option.split)

lemma run_unregister:
  "run_job X E (Begin (OpUnregister i n)) st = map_prod (Finished \<circ> Completed) id (unregister_service X E i n st)"
  by (simp add: run_job_step unregister_service_def Let_def split: prod.split sum.split option.split)

lemma run_delete:
  "run_job X E (Begin (OpDelete i)) st = map_prod (Finished \<circ> Answered) id (service_delete X E i st)"
  by (simp add: run_job_step service_delete_def Let_def split: prod.split sum.split option.split)

lemma run_register_node:
  "run_job X E (Begin (OpRegisterNode t p pr m k)) st =
     map_prod (Finished \<circ> Completed) id (register_node t X E p pr m k st)"
  by (simp add: run_job_step register_node_def node_record_def Let_def split: prod.split sum.split)

lemma run_end_session:
  "run_job X E (Begin (OpEndSession pr)) st = map_prod (Finished \<circ> Completed) id (end_session X E pr st)"
  by (simp add: run_job_step end_session_def Let_def split: prod.split sum.split option.split)

lemma run_heartbeat:
  "run_job X E (Begin (OpHeartbeat n s)) st = map_prod (Finished \<circ> Completed) id (record_heartbeat X E n s st)"
  by (simp add: run_job_step record_heartbeat_def Let_def split: prod.split sum.split option.split)

lemma run_replace_token:
  "run_job X E (Begin (OpReplaceToken k h)) st = map_prod (Finished \<circ> Completed) id (replace_token X E k h st)"
  by (simp add: run_job_step replace_token_def run_replace_store Let_def sessions_of_kind_def
      split: prod.split sum.split)

lemma run_patch:
  "run_job X E (Begin (OpPatch J i r)) st = map_prod (Finished \<circ> Answered) id (service_patch X J E i r st)"
  by (simp add: run_job_step service_patch_def Let_def split: prod.split sum.split option.split)

lemma run_creating:
  "run_job X E job st = (Finished outcome, st') \<Longrightarrow> outcome_of job = None \<Longrightarrow>
     run_job X E (Creating job) st = (Finished (creation_answer outcome), st')"
proof (induction X E job st rule: run_job.induct)
  case (1 X E job st)
  obtain job' st1 where step: "job_step X E job st = (job', st1)" by fastforce
  show ?case
  proof (cases "outcome_of job' = None")
    case True
    with 1 step show ?thesis by (simp add: run_job_step)
  next
    case False
    then obtain o' where "job' = Finished o'" by (auto simp: outcome_of_Some)
    with 1 step show ?thesis by (simp add: run_job_step)
  qed
qed

lemma run_create:
  "run_job X E (Begin (OpCreate J r)) st = map_prod (Finished \<circ> Answered) id (service_create_route X J E r st)"
proof -
  have creating: "run_job X E (Creating (Begin (OpRegister service n))) st =
      (Finished (creation_answer (Registered (fst (register_service X E service n st)))),
       snd (register_service X E service n st))" for service n st
    by (rule run_creating) (simp_all add: run_register map_prod_def case_prod_beta)
  have start: "run_job X E (CreateCheck create) st =
      (case map_option nr_status (bt_get (st_nodes st) (cr_node_id create)) of
         None \<Rightarrow> (Finished (Answered (error_json 404 ''node not found'')), st)
       | Some node_status \<Rightarrow>
           if node_status \<noteq> NodeIsOnline then (Finished (Answered (error_json 409 ''node is offline'')), st)
           else (Finished (creation_answer (Registered (fst (register_service X E
                  (into_definition (e_fresh_id E) create) (cr_node_id create) st)))),
                 snd (register_service X E (into_definition (e_fresh_id E) create) (cr_node_id create) st)))" for create
    unfolding run_job_step [of "CreateCheck create", simplified] using creating
    by (auto split: option.split simp del: job_step.simps(4))
  show ?thesis
    by (simp add: run_job_step [of "Begin (OpCreate J r)"] start service_create_route_def case_prod_beta
        split: sum.split option.split)
qed

text \<open>the critical sections an operation is cut into compose to the operation: a job nobody
  interrupts ends with the result and the state the whole operation has.\<close>

theorem operations_are_their_sections:
  "run_job X E (Begin operation) st = map_prod Finished id (perform X E operation st)"
  by (cases operation)
     (simp_all add: run_register run_unregister run_delete run_patch run_create run_register_node run_end_session run_heartbeat
       run_replace_token map_prod.compositionality comp_def id_def)

section \<open>Every interleaving keeps the directory invariant\<close>

lemma begin_operation_inv:
  assumes "registry_inv st"
  shows "registry_inv (snd (begin_operation X E operation st))"
proof -
  have dir: "directory_ok (st_services st)" and maps: "maps_ok st"
    using assms by (simp_all add: registry_inv_def)
  have "directory_ok (st_services (snd (begin_operation X E operation st)))"
    using dir register_plan_directory [OF dir]
    by (cases operation) (auto simp: Let_def directory_ok_remove directory_ok_metadata
      split: sum.split option.split prod.split)
  moreover have "maps_ok (snd (begin_operation X E operation st))"
    using maps by (cases operation) (auto simp: maps_ok_def Let_def split: sum.split option.split prod.split)
  ultimately show ?thesis by (simp add: registry_inv_def)
qed

lemma nodes_of_offline:
  "(\<forall>i n. bt_get m i = Some n \<longrightarrow> nr_node_id n = i) \<Longrightarrow> bt_get (mark_nodes_offline ns m) i = Some n \<Longrightarrow> nr_node_id n = i"
  by (auto simp: mark_nodes_offline_get set_offline_def split: if_splits)

lemma job_step_inv: "registry_inv st \<Longrightarrow> registry_inv (snd (job_step X E job st))"
proof (induction job)
  case (Begin operation)
  then show ?case by (simp add: begin_operation_inv del: begin_operation.simps)
next
  case (Creating job)
  then show ?case by (simp add: case_prod_beta split: option.split)
next
  case (ReplaceStore k offline)
  then show ?case
    by (cases offline) (auto simp: registry_inv_def maps_ok_def split: sum.split prod.split)
qed (auto simp: registry_inv_def maps_ok_def Let_def node_record_def set_offline_def bt_wf_fold_remove
       mark_nodes_offline_wf directory_ok_remove dest: nodes_of_offline [rotated]
       split: sum.split option.split prod.split if_splits)

lemma pool_step_inv: "registry_inv (po_state p) \<Longrightarrow> registry_inv (po_state (pool_step X p turn))"
  by (cases turn) (auto simp: case_prod_beta job_step_inv)

interpretation pool: invariant_system "pool_step X" "\<lambda>p. registry_inv (po_state p)" for X
  by unfold_locales (rule pool_step_inv)

text \<open>C9: whatever operations are started and however their critical sections interleave, no two
  services of the directory share a name and no two TCP services a port.\<close>

theorem interleavings_keep_directory:
  assumes "registry_inv st"
  shows "directory_ok (st_services (po_state (run_events (pool_step X) (idle st) turns)))"
  using pool.run_inv [of "idle st" X turns] assms by (simp add: registry_inv_def idle_def)

section \<open>Interleavings no uninterrupted order has\<close>

lemma put_node_result: "fst (put_node X f n d) = fst (put_node X f n d')"
  by (simp add: put_node_def write_txn_def split: sum.split option.split db_fault.split)

lemma register_node_Inr:
  assumes "register_node t X E peer pr m k st = (Inr (), st')"
  shows "metadata_validate (nm_metadata m) = Inr ()" and "validate_node_identity (pr_node pr) k st = Inr ()"
    and "fst (put_node X (e_db E (CallPutNode 0)) (node_record t E peer pr m k) d) = Inr ()"
    and "bt_get (st_nodes st') (pr_node pr) = Some (node_record t E peer pr m k)"
    and "bt_get (st_sessions st') (pr_node pr) =
      Some \<lparr>as_id = pr_session pr, as_token_kind = pr_kind pr, as_connection = pe_session peer\<rparr>"
proof -
  show "metadata_validate (nm_metadata m) = Inr ()" and "validate_node_identity (pr_node pr) k st = Inr ()"
    using assms by (auto simp: register_node_def Let_def split: sum.splits)
  show "fst (put_node X (e_db E (CallPutNode 0)) (node_record t E peer pr m k) d) = Inr ()"
    using assms put_node_result [of X "e_db E (CallPutNode 0)" "node_record t E peer pr m k" d "st_store st"]
    by (auto simp: register_node_def node_record_def Let_def split: sum.splits prod.splits)
  show "bt_get (st_nodes st') (pr_node pr) = Some (node_record t E peer pr m k)"
    and "bt_get (st_sessions st') (pr_node pr) =
      Some \<lparr>as_id = pr_session pr, as_token_kind = pr_kind pr, as_connection = pe_session peer\<rparr>"
    using assms by (auto simp: register_node_def node_record_def Let_def split: sum.splits prod.splits)
qed

text \<open>
  The client's old connection ends while its new one registers: the check of the old session
  passes, the new connection registers, then the old one goes on.
\<close>

definition cleanup_race :: "Env \<Rightarrow> Principal \<Rightarrow> Env \<Rightarrow> TransportKind \<Rightarrow> Peer \<Rightarrow> Principal \<Rightarrow> NodeMetadata \<Rightarrow> bytes \<Rightarrow> Turn list" where
  "cleanup_race E1 old E2 t peer new m k =
     [Start E1 (OpEndSession old), Start E2 (OpRegisterNode t peer new m k), Run 0,
      Run 1, Run 1, Run 1, Run 1, Run 1, Run 0, Run 0, Run 0, Run 0]"

text \<open>C35: the cleanup of a client's old connection checks that the session is still its own and
  removes it under two separate locks. When the client's new connection registers in between,
  it is told nothing, but its session is gone and its node is marked offline; with the
  registration before the cleanup, the new session stays.\<close>

theorem cleanup_race_removes_successor:
  assumes "session_active old st" and "pr_node new = pr_node old" and "pr_session new \<noteq> pr_session old"
    and "register_node t X E2 peer new m k st = (Inr (), st1)"
    and "p = run_events (pool_step X) (idle st) (cleanup_race E1 old E2 t peer new m k)"
  shows "map snd (po_jobs p) ! 1 = Finished (Completed (Inr ())) \<and>
    bt_get (st_sessions (po_state p)) (pr_node new) = None \<and>
    map_option nr_status (bt_get (st_nodes (po_state p)) (pr_node new)) = Some NodeIsOffline \<and>
    map_option as_id (bt_get (st_sessions (snd (end_session X E1 old st1))) (pr_node new)) = Some (pr_session new)"
proof -
  note new = register_node_Inr [OF assms(4)]
  have put: "\<And>d. fst (put_node X (e_db E2 (CallPutNode 0)) (node_record t E2 peer new m k) d) = Inr ()"
    by (rule new(3))
  have stays: "\<not> session_active old st1"
    using new(5) assms(2,3) by (auto simp: session_active_iff)
  then have "snd (end_session X E1 old st1) = st1" by (simp add: end_session_def)
  moreover have "map snd (po_jobs p) ! 1 = Finished (Completed (Inr ())) \<and>
    bt_get (st_sessions (po_state p)) (pr_node new) = None \<and>
    map_option nr_status (bt_get (st_nodes (po_state p)) (pr_node new)) = Some NodeIsOffline"
    using assms(1,2) new(1,2) put unfolding assms(5)
    by (simp add: cleanup_race_def idle_def case_prod_beta Let_def set_offline_def node_record_def
        split: sum.split)
  ultimately show ?thesis using new(5) by simp
qed

text \<open>Two connections claim one node id that is not on record, both before either is recorded.\<close>

definition identity_race ::
  "Env \<Rightarrow> TransportKind \<Rightarrow> Peer \<Rightarrow> Principal \<Rightarrow> NodeMetadata \<Rightarrow> bytes \<Rightarrow>
   Env \<Rightarrow> TransportKind \<Rightarrow> Peer \<Rightarrow> Principal \<Rightarrow> NodeMetadata \<Rightarrow> bytes \<Rightarrow> Turn list" where
  "identity_race E1 t1 peer1 pr1 m1 k1 E2 t2 peer2 pr2 m2 k2 =
     [Start E1 (OpRegisterNode t1 peer1 pr1 m1 k1), Start E2 (OpRegisterNode t2 peer2 pr2 m2 k2), Run 0, Run 1,
      Run 0, Run 0, Run 0, Run 0, Run 1, Run 1, Run 1, Run 1]"

text \<open>C36: the node identity check releases the node map before the key is recorded. Two
  connections with different keys can both pass it for a new node id; both registrations
  succeed and the later one's key replaces the earlier one's, where one after the other the
  second is refused.\<close>

theorem identity_race_replaces_key:
  assumes "bt_get (st_nodes st) (pr_node pr1) = None" and "pr_node pr2 = pr_node pr1" and "k2 \<noteq> k1"
    and "register_node t1 X E1 peer1 pr1 m1 k1 st = (Inr (), st1)"
    and "register_node t2 X E2 peer2 pr2 m2 k2 st = (Inr (), st2)"
    and "p = run_events (pool_step X) (idle st) (identity_race E1 t1 peer1 pr1 m1 k1 E2 t2 peer2 pr2 m2 k2)"
  shows "map snd (po_jobs p) = [Finished (Completed (Inr ())), Finished (Completed (Inr ()))] \<and>
    Option.bind (bt_get (st_nodes (po_state p)) (pr_node pr1)) nr_public_key = Some k2 \<and>
    register_node t2 X E2 peer2 pr2 m2 k2 st1 = (Inl ''node public key does not match persisted identity'', st1)"
proof -
  note one = register_node_Inr [OF assms(4)] and two = register_node_Inr [OF assms(5)]
  have "validate_node_identity (pr_node pr2) k2 st1 = Inl ''node public key does not match persisted identity''"
    using one(4) assms(2,3) by (simp add: validate_node_identity_def node_record_def)
  then have "register_node t2 X E2 peer2 pr2 m2 k2 st1 = (Inl ''node public key does not match persisted identity'', st1)"
    using two(1) by (simp add: register_node_def)
  moreover have "map snd (po_jobs p) = [Finished (Completed (Inr ())), Finished (Completed (Inr ()))] \<and>
      Option.bind (bt_get (st_nodes (po_state p)) (pr_node pr1)) nr_public_key = Some k2"
    using assms(2) one(1,2,3) two(1,2,3) unfolding assms(6)
    by (simp add: identity_race_def idle_def case_prod_beta Let_def node_record_def split: sum.split)
  ultimately show ?thesis by simp
qed

text \<open>A service is deleted through the API after its registration has put it in the directory and
  before the registration stores it.\<close>

definition deletion_race :: "Env \<Rightarrow> ServiceDefinition \<Rightarrow> NodeId \<Rightarrow> Env \<Rightarrow> ServiceId \<Rightarrow> Turn list" where
  "deletion_race E1 service n E2 i =
     [Start E1 (OpRegister service n), Run 0, Start E2 (OpDelete i), Run 1, Run 1, Run 1, Run 1, Run 0, Run 0]"

text \<open>C37: a registration gives the directory back before it stores the service. A deletion in
  between answers that the service is deleted, and then the registration stores it: it is in
  no directory but in the services table, from which the next start restores it.\<close>

theorem deletion_race_resurrects:
  assumes "inj (x_uuid_string X)" and "services_durable X (st_store st) (st_services st)"
    and "register_plan st service n = Inr s" and "sd_protocol s \<noteq> Tcp"
    and "to_allocvec (x_service X) s = Inr b" and "reads_back (x_service X) s"
    and "e_db E1 CallPutService = None" and "e_db E2 CallDeleteService = None"
    and "p = run_events (pool_step X) (idle st) (deletion_race E1 service n E2 (sd_service_id s))"
  shows "map snd (po_jobs p) = [Finished (Registered (Inr s)),
      Finished (Answered (json 200 (DeletedResponse True (sd_service_id s))))] \<and>
    bt_get (st_services (po_state p)) (sd_service_id s) = None \<and>
    (\<exists>m. load_services X None (st_store (po_state p)) = Inr m \<and> bt_get m (sd_service_id s) = Some s)"
proof -
  let ?i = "sd_service_id s" and ?m = "bt_remove (sd_service_id s) (st_services st)"
  obtain d where d: "delete_service X None ?i (st_store st) = (Inr (), d)" "services_durable X d ?m"
    using delete_service_durable [OF assms(1,2)] by metis
  have keep: "services_durable X (st_store (record_event X E k ek nd sv tk st')) m = services_durable X (st_store st') m"
    for E k ek nd sv tk st' m
    by (simp add: services_durable_def table_defs)
  have "\<exists>d'. services_durable X D ?m \<longrightarrow>
      put_service X None s D = (Inr (), d') \<and> services_durable X d' (bt_insert ?i s ?m)" for D
    using put_service_durable [OF assms(1) _ assms(5,6)] by metis
  then obtain stored where put: "services_durable X D ?m \<Longrightarrow>
      put_service X None s D = (Inr (), stored D) \<and> services_durable X (stored D) (bt_insert ?i s ?m)" for D
    by metis
  have "map snd (po_jobs p) = [Finished (Registered (Inr s)),
      Finished (Answered (json 200 (DeletedResponse True ?i)))] \<and>
    bt_get (st_services (po_state p)) ?i = None \<and>
    services_durable X (st_store (po_state p)) (bt_insert ?i s ?m)"
    using assms(3,4,7,8) d put keep unfolding assms(9)
    by (simp add: deletion_race_def idle_def case_prod_beta split: option.split)
  then show ?thesis using services_durable_load by fastforce
qed

section \<open>Witnesses\<close>

lemma register_node_succeeds:
  assumes "metadata_validate (nm_metadata m) = Inr ()" and "validate_node_identity (pr_node pr) k st = Inr ()"
    and "e_db E (CallPutNode 0) = None" and "to_allocvec (x_node X) (node_record t E peer pr m k) = Inr b"
  shows "\<exists>st'. register_node t X E peer pr m k st = (Inr (), st')"
  using assms by (simp add: register_node_def node_record_def put_node_def encode_with_def write_txn_def Let_def)

definition returning :: Principal where
  "returning = sample_principal\<lparr>pr_session := UuidId 4\<rparr>"

definition stranger :: "nat \<Rightarrow> Principal" where
  "stranger s = \<lparr>pr_kind = User, pr_node = UuidId 77, pr_session = UuidId (of_nat s)\<rparr>"

definition sample_metadata :: NodeMetadata where
  "sample_metadata = nr_metadata sample_record"

definition racing :: Externals where
  "racing = sample_externals\<lparr>x_service := listed [http_service],
     x_node := listed [node_record Quic sample_env sample_peer returning sample_metadata [9],
       node_record Quic sample_env sample_peer (stranger 5) sample_metadata [1],
       node_record Quic sample_env sample_peer (stranger 6) sample_metadata [2]]\<rparr>"

lemma sample_metadata_valid: "metadata_validate (nm_metadata sample_metadata) = Inr ()"
proof -
  have "metadata_validate [] = Inr ()" by code_simp
  then show ?thesis by (simp add: sample_metadata_def sample_record_def)
qed

lemma racing_encodes:
  "\<exists>b. to_allocvec (x_node racing) (node_record Quic sample_env sample_peer returning sample_metadata [9]) = Inr b"
  "\<exists>b. to_allocvec (x_node racing) (node_record Quic sample_env sample_peer (stranger 5) sample_metadata [1]) = Inr b"
  "\<exists>b. to_allocvec (x_node racing) (node_record Quic sample_env sample_peer (stranger 6) sample_metadata [2]) = Inr b"
  by (simp_all add: racing_def listed_def)

lemma racing_registers:
  "\<exists>st'. register_node Quic racing sample_env sample_peer returning sample_metadata [9] sample_state = (Inr (), st')"
  "\<exists>st'. register_node Quic racing sample_env sample_peer (stranger 5) sample_metadata [1] sample_state = (Inr (), st')"
  "\<exists>st'. register_node Quic racing sample_env sample_peer (stranger 6) sample_metadata [2] sample_state = (Inr (), st')"
proof -
  have "e_db sample_env (CallPutNode 0) = None" by (simp add: sample_env_def)
  moreover have "validate_node_identity (pr_node returning) [9] sample_state = Inr ()"
      "validate_node_identity (pr_node (stranger 5)) [1] sample_state = Inr ()"
      "validate_node_identity (pr_node (stranger 6)) [2] sample_state = Inr ()"
    by (simp_all add: validate_node_identity_def sample_state_def bt_get_def sample_record_def returning_def
        sample_principal_def stranger_def sample_node_def)
  ultimately show
    "\<exists>st'. register_node Quic racing sample_env sample_peer returning sample_metadata [9] sample_state = (Inr (), st')"
    "\<exists>st'. register_node Quic racing sample_env sample_peer (stranger 5) sample_metadata [1] sample_state = (Inr (), st')"
    "\<exists>st'. register_node Quic racing sample_env sample_peer (stranger 6) sample_metadata [2] sample_state = (Inr (), st')"
    using racing_encodes sample_metadata_valid by (blast intro: register_node_succeeds)+
qed

theorem interleavings_keep_directory_witness:
  "directory_ok (st_services (po_state (run_events (pool_step racing) (idle sample_state)
     (deletion_race sample_env sample_request sample_node sample_env (UuidId 2)))))"
  by (rule interleavings_keep_directory [OF sample_state_inv])

theorem cleanup_race_removes_successor_witness:
  "bt_get (st_sessions (po_state (run_events (pool_step racing) (idle sample_state)
     (cleanup_race sample_env sample_principal sample_env Quic sample_peer returning sample_metadata [9])))) sample_node = None"
proof -
  obtain st' where r: "register_node Quic racing sample_env sample_peer returning sample_metadata [9] sample_state = (Inr (), st')"
    using racing_registers(1) by blast
  have pr: "pr_node returning = pr_node sample_principal" "pr_session returning \<noteq> pr_session sample_principal"
      "pr_node returning = sample_node"
    by (simp_all add: returning_def sample_principal_def)
  from cleanup_race_removes_successor [OF sample_session_active pr(1,2) r refl, of sample_env] pr(3)
  show ?thesis by simp
qed

theorem identity_race_replaces_key_witness:
  "Option.bind (bt_get (st_nodes (po_state (run_events (pool_step racing) (idle sample_state)
     (identity_race sample_env Quic sample_peer (stranger 5) sample_metadata [1]
        sample_env Quic sample_peer (stranger 6) sample_metadata [2])))) (UuidId 77)) nr_public_key = Some [2]"
proof -
  obtain st1 st2 where r:
    "register_node Quic racing sample_env sample_peer (stranger 5) sample_metadata [1] sample_state = (Inr (), st1)"
    "register_node Quic racing sample_env sample_peer (stranger 6) sample_metadata [2] sample_state = (Inr (), st2)"
    using racing_registers(2,3) by blast
  have "bt_get (st_nodes sample_state) (pr_node (stranger 5)) = None"
    by (simp add: sample_state_def bt_get_def stranger_def sample_node_def)
  from identity_race_replaces_key [OF this _ _ r refl] show ?thesis by (simp add: stranger_def)
qed

theorem deletion_race_resurrects_witness:
  "\<exists>m. load_services racing None (st_store (po_state (run_events (pool_step racing) (idle sample_state)
     (deletion_race sample_env http_service sample_node sample_env (UuidId 2))))) = Inr m \<and>
     bt_get m (UuidId 2) = Some http_service"
proof -
  have name: "validate_service_name ''ssh'' = Inr ()" by code_simp
  have "metadata_validate [] = Inr ()" by code_simp
  with name have plan: "register_plan sample_state http_service sample_node = Inr http_service"
    by (simp add: register_plan_def http_service_def sample_service_def sample_state_def assign_http_def
        adopt_previous_def bt_values_def)
  have parts: "sd_protocol http_service \<noteq> Tcp" "sd_service_id http_service = UuidId 2"
      "to_allocvec (x_service racing) http_service = Inr [1]" "reads_back (x_service racing) http_service"
      "inj (x_uuid_string racing)" "services_durable racing (st_store sample_state) (st_services sample_state)"
      "e_db sample_env c = None" for c
    by (simp_all add: http_service_def sample_service_def racing_def sample_externals_def sample_state_def
        empty_database_durable sample_env_def) (simp_all add: listed_def reads_back_def)
  from deletion_race_resurrects [OF parts(5,6) plan parts(1,3,4,7,7) refl] parts(2)
  show ?thesis by simp
qed

end
