(* ===== verification/Directory.thy ===== *)
theory Directory
  imports Sections_Props
begin

text \<open>
  What the server's directory promises, without its maps, locks and tables: a service name is
  taken by one service of one node. The abstract directory is a map from names to services with
  three changes, and every critical section of every operation makes one of them or none.
\<close>

section \<open>The specification\<close>

type_synonym directory = "string \<Rightarrow> ServiceDefinition option"

definition without :: "ServiceId \<Rightarrow> directory \<Rightarrow> directory" where
  "without i D name = (case D name of None \<Rightarrow> None | Some s \<Rightarrow> if sd_service_id s = i then None else Some s)"

text \<open>
  A service may be published under a name that is free or that the same node has under the same
  identifier, with an endpoint the configuration allows and on a port no other service has. The
  identifier is not protected: whatever service had it goes away.
\<close>

definition may_publish :: "(ServiceDefinition \<Rightarrow> bool) \<Rightarrow> directory \<Rightarrow> ServiceDefinition \<Rightarrow> bool" where
  "may_publish endpoint D s \<longleftrightarrow>
     validate_service_name (sd_service_name s) = Inr () \<and> metadata_validate (sd_metadata s) = Inr () \<and> endpoint s \<and>
     (\<forall>t. D (sd_service_name s) = Some t \<longrightarrow> sd_node_id t = sd_node_id s \<and> sd_service_id t = sd_service_id s) \<and>
     (\<forall>name t p. D name = Some t \<longrightarrow> leases_port p s \<longrightarrow> leases_port p t \<longrightarrow> sd_service_id t = sd_service_id s)"

inductive directory_step :: "(ServiceDefinition \<Rightarrow> bool) \<Rightarrow> directory \<Rightarrow> directory \<Rightarrow> bool"
  for endpoint where
  unchanged: "directory_step endpoint D D"
| publish: "may_publish endpoint D s \<Longrightarrow>
    directory_step endpoint D ((without (sd_service_id s) D)(sd_service_name s \<mapsto> s))"
| withdraw: "directory_step endpoint D (without i D)"
| relabel: "D name = Some s \<Longrightarrow> metadata_validate md = Inr () \<Longrightarrow>
    directory_step endpoint D (D(name \<mapsto> s\<lparr>sd_metadata := md\<rparr>))"

section \<open>The server's directory\<close>

definition directory_of :: "(ServiceId, ServiceDefinition) btree \<Rightarrow> directory" where
  "directory_of m name = find (\<lambda>s. sd_service_name s = name) (bt_values m)"

lemma directory_of_Some:
  assumes "directory_ok m"
  shows "directory_of m name = Some s \<longleftrightarrow> bt_get m (sd_service_id s) = Some s \<and> sd_service_name s = name"
proof
  assume "directory_of m name = Some s"
  then have "s \<in> set (bt_values m)" and name: "sd_service_name s = name"
    by (auto simp: directory_of_def find_Some_iff in_set_conv_nth)
  then obtain i where i: "bt_get m i = Some s"
    using directory_okD(1) [OF assms] by (auto simp: bt_values_iff)
  with directory_okD(2) [OF assms] name show "bt_get m (sd_service_id s) = Some s \<and> sd_service_name s = name"
    by blast
next
  assume s: "bt_get m (sd_service_id s) = Some s \<and> sd_service_name s = name"
  then have "s \<in> set (bt_values m)" by (blast intro: bt_get_in_values)
  with s have "directory_of m name \<noteq> None"
    unfolding directory_of_def by (auto simp: find_None_iff)
  then obtain t where t: "directory_of m name = Some t" by blast
  then have "t \<in> set (bt_values m)" and name: "sd_service_name t = name"
    by (auto simp: directory_of_def find_Some_iff in_set_conv_nth)
  then obtain j where "bt_get m j = Some t"
    using directory_okD(1) [OF assms] by (auto simp: bt_values_iff)
  with s name have "bt_get m (sd_service_id s) = Some t"
    using directory_okD(3) [OF assms, of j t "sd_service_id s" s] by metis
  with s t show "directory_of m name = Some s" by simp
qed

lemma directory_of_eqI:
  assumes "directory_ok m"
    and "\<And>name s. D name = Some s \<longleftrightarrow> bt_get m (sd_service_id s) = Some s \<and> sd_service_name s = name"
  shows "directory_of m = D"
proof
  fix name
  show "directory_of m name = D name"
    using directory_of_Some [OF assms(1), of name] assms(2) [of name] by (metis option.exhaust)
qed

lemma without_Some: "without i D name = Some s \<longleftrightarrow> D name = Some s \<and> sd_service_id s \<noteq> i"
  by (auto simp: without_def split: option.splits if_splits)

lemma directory_of_remove:
  assumes "directory_ok m"
  shows "directory_of (bt_remove i m) = without i (directory_of m)"
  by (rule directory_of_eqI [OF directory_ok_remove [OF assms]])
     (use assms in \<open>auto simp: without_Some directory_of_Some directory_okD(1)\<close>)

lemma directory_of_insert:
  assumes "directory_ok m" and "directory_ok (bt_insert (sd_service_id s) s m)"
  shows "directory_of (bt_insert (sd_service_id s) s m) =
    (without (sd_service_id s) (directory_of m))(sd_service_name s \<mapsto> s)"
proof (rule directory_of_eqI [OF assms(2)])
  fix name t
  have other: "sd_service_name t \<noteq> sd_service_name s"
    if "bt_get m (sd_service_id t) = Some t" "sd_service_id t \<noteq> sd_service_id s"
    using directory_okD(3) [OF assms(2), of "sd_service_id t" t "sd_service_id s" s] that directory_okD(1) [OF assms(1)]
    by auto
  show "((without (sd_service_id s) (directory_of m))(sd_service_name s \<mapsto> s)) name = Some t \<longleftrightarrow>
      bt_get (bt_insert (sd_service_id s) s m) (sd_service_id t) = Some t \<and> sd_service_name t = name"
    using other by (auto simp: without_Some directory_of_Some [OF assms(1)] directory_okD(1) [OF assms(1)])
qed

section \<open>Every section is a step of the specification\<close>

text \<open>
  Both callers of \<open>register_service\<close> pass the service's own node: the control handlers
  compare the two, the route that creates a service takes the one from the other.
\<close>

fun operation_ok :: "Operation \<Rightarrow> bool" where
  "operation_ok (OpRegister service node_id) = (sd_node_id service = node_id)"
| "operation_ok operation = True"

fun job_ok :: "Job \<Rightarrow> bool" where
  "job_ok (Begin operation) = operation_ok operation"
| "job_ok (Creating job) = job_ok job"
| "job_ok job = True"

fun turn_ok :: "Turn \<Rightarrow> bool" where
  "turn_ok (Start E operation) = operation_ok operation"
| "turn_ok (Run k) = True"

lemma begin_operation_ok: "job_ok (fst (begin_operation X E operation st))"
  by (cases operation) (auto simp: Let_def split: sum.split option.split prod.split)

lemma job_step_ok: "job_ok job \<Longrightarrow> job_ok (fst (job_step X E job st))"
proof (induction job)
  case (Begin operation)
  show ?case by (simp add: begin_operation_ok del: begin_operation.simps)
next
  case (Creating job)
  then show ?case by (auto simp: case_prod_beta split: option.split)
next
  case (ReplaceStore k offline)
  show ?case by (cases offline) (auto split: sum.split prod.split)
qed (auto simp: Let_def into_definition_def split: sum.split option.split prod.split)

lemma register_plan_may_publish:
  assumes ok: "directory_ok (st_services st)" and plan: "register_plan st service n = Inr s" and "sd_node_id service = n"
  shows "may_publish (endpoint_ok st) (directory_of (st_services st)) s"
  unfolding may_publish_def
proof (intro conjI allI impI)
  let ?D = "directory_of (st_services st)"
  note kept = register_plan_kept [OF plan]
  have valid: "validate_service_name (sd_service_name service) = Inr ()" "metadata_validate (sd_metadata service) = Inr ()"
    and owner: "\<And>e. e \<in> set (bt_values (st_services st)) \<Longrightarrow> sd_service_name e = sd_service_name service \<Longrightarrow> sd_node_id e = n"
    using plan by (auto elim: register_plan_Inr)
  show "validate_service_name (sd_service_name s) = Inr ()" and "metadata_validate (sd_metadata s) = Inr ()"
    using valid kept by simp_all
  show "endpoint_ok st s" using plan by (rule register_plan_endpoint)
  fix t
  assume "?D (sd_service_name s) = Some t"
  then have t: "bt_get (st_services st) (sd_service_id t) = Some t" "sd_service_name t = sd_service_name s"
    using directory_of_Some [OF ok] by blast+
  show "sd_node_id t = sd_node_id s"
    using owner [OF bt_get_in_values [OF t(1)]] t(2) kept assms(3) by simp
  show "sd_service_id t = sd_service_id s"
    using register_plan_name [OF ok plan t] .
next
  fix name t p
  assume "directory_of (st_services st) name = Some t" and "leases_port p s" and "leases_port p t"
  then show "sd_service_id t = sd_service_id s"
    using register_plan_lease [OF ok plan] directory_of_Some [OF ok] by blast
qed

lemma begin_operation_refines:
  assumes ok: "directory_ok (st_services st)" and "operation_ok operation"
  shows "directory_step (endpoint_ok st) (directory_of (st_services st))
    (directory_of (st_services (snd (begin_operation X E operation st))))"
proof (cases operation)
  case (OpRegister service n)
  show ?thesis
  proof (cases "register_plan st service n")
    case (Inr s)
    have "may_publish (endpoint_ok st) (directory_of (st_services st)) s"
      using register_plan_may_publish [OF ok Inr] assms(2) OpRegister by simp
    then show ?thesis
      using OpRegister Inr directory_of_insert [OF ok register_plan_directory [OF ok Inr]]
      by (simp add: directory_step.publish)
  qed (simp add: OpRegister directory_step.unchanged)
next
  case (OpPatch J i r)
  have "directory_step (endpoint_ok st) (directory_of (st_services st))
      (directory_of (bt_insert i (s\<lparr>sd_metadata := md\<rparr>) (st_services st)))"
    if s: "bt_get (st_services st) i = Some s" and md: "metadata_validate md = Inr ()" for s md
  proof -
    let ?D = "directory_of (st_services st)"
    have id: "sd_service_id s = i" using directory_okD(2) [OF ok s] .
    then have here: "?D (sd_service_name s) = Some s" using s directory_of_Some [OF ok] by simp
    have "without i ?D name = ?D name" if "name \<noteq> sd_service_name s" for name
    proof -
      have "sd_service_id t \<noteq> i" if "?D name = Some t" for t
        using that \<open>name \<noteq> sd_service_name s\<close> s directory_of_Some [OF ok] by auto
      then show ?thesis by (auto simp: without_def split: option.split)
    qed
    then have "(without i ?D)(sd_service_name s \<mapsto> r) = ?D(sd_service_name s \<mapsto> r)" for r
      by (simp add: fun_eq_iff)
    moreover have "directory_of (bt_insert i (s\<lparr>sd_metadata := md\<rparr>) (st_services st)) =
        (without i ?D)(sd_service_name s \<mapsto> s\<lparr>sd_metadata := md\<rparr>)"
      using directory_of_insert [OF ok, of "s\<lparr>sd_metadata := md\<rparr>"] directory_ok_metadata [OF ok s, of md] id by simp
    ultimately show ?thesis using directory_step.relabel [where D = ?D, OF here md] by simp
  qed
  with OpPatch show ?thesis
    by (auto simp: Let_def directory_step.unchanged split: sum.split option.split)
qed (auto simp: Let_def directory_of_remove [OF ok] intro: directory_step.unchanged directory_step.withdraw
       split: sum.split option.split prod.split)

lemma job_step_refines:
  assumes "directory_ok (st_services st)"
  shows "job_ok job \<Longrightarrow> directory_step (endpoint_ok st) (directory_of (st_services st))
    (directory_of (st_services (snd (job_step X E job st))))"
proof (induction job)
  case (Begin operation)
  then show ?case using begin_operation_refines [OF assms] by (simp del: begin_operation.simps)
next
  case (Creating job)
  then show ?case by (simp add: case_prod_beta split: option.split)
next
  case (ReplaceStore k offline)
  show ?case by (cases offline) (auto intro: directory_step.unchanged split: sum.split prod.split)
qed (auto simp: Let_def directory_of_remove [OF assms] intro: directory_step.unchanged directory_step.withdraw
       split: sum.split option.split prod.split)

lemma job_step_config: "config_of (snd (job_step X E job st)) = config_of st"
proof (induction job)
  case (Begin operation)
  show ?case by (cases operation) (auto simp: config_of_def Let_def split: sum.split option.split prod.split)
next
  case (Creating job)
  then show ?case by (simp add: case_prod_beta split: option.split)
next
  case (ReplaceStore k offline)
  show ?case by (cases offline) (auto simp: config_of_def split: sum.split prod.split)
qed (auto simp: config_of_def Let_def split: sum.split option.split prod.split)

text \<open>What holds of a pool whose jobs were started by the handlers.\<close>

definition pool_ok :: "AppState \<Rightarrow> Pool \<Rightarrow> bool" where
  "pool_ok st p \<longleftrightarrow> registry_inv (po_state p) \<and> config_of (po_state p) = config_of st \<and>
     list_all (\<lambda>(E, job). job_ok job) (po_jobs p)"

lemma pool_ok_step: "pool_ok st p \<Longrightarrow> turn_ok turn \<Longrightarrow> pool_ok st (pool_step X p turn)"
proof (cases turn)
  case (Run k)
  assume p: "pool_ok st p"
  show ?thesis
  proof (cases "k < length (po_jobs p)")
    case True
    obtain E job where job: "po_jobs p ! k = (E, job)" by fastforce
    with p True have ok: "job_ok job" by (auto simp: pool_ok_def list_all_length)
    with p True job show ?thesis
      by (auto simp: Run pool_ok_def case_prod_beta job_step_inv job_step_config list_all_length nth_list_update
          job_step_ok)
  qed (use p Run in simp)
qed (auto simp: pool_ok_def)

lemma pool_ok_run: "pool_ok st p \<Longrightarrow> list_all turn_ok turns \<Longrightarrow> pool_ok st (run_events (pool_step X) p turns)"
  by (induction turns arbitrary: p) (simp_all add: pool_ok_step)

lemma pool_step_refines:
  assumes "pool_ok st p" and "turn_ok turn"
  shows "directory_step (endpoint_ok st) (directory_of (st_services (po_state p)))
    (directory_of (st_services (po_state (pool_step X p turn))))"
proof (cases "\<exists>k. turn = Run k \<and> k < length (po_jobs p)")
  case True
  then obtain k E job where turn: "turn = Run k" "k < length (po_jobs p)" and job: "po_jobs p ! k = (E, job)"
    by fastforce
  with assms(1) have "job_ok job" and dir: "directory_ok (st_services (po_state p))"
      and config: "config_of (po_state p) = config_of st"
    by (auto simp: pool_ok_def registry_inv_def list_all_length)
  have "endpoint_ok (po_state p) = endpoint_ok st"
    by (rule ext) (rule endpoint_ok_cong [OF config])
  with job_step_refines [OF dir \<open>job_ok job\<close>, of X E] show ?thesis
    using turn job by (simp add: case_prod_beta)
next
  case False
  then have "po_state (pool_step X p turn) = po_state p" by (cases turn) auto
  then show ?thesis by (simp add: directory_step.unchanged)
qed

lemma pool_ok_idle: "registry_inv st \<Longrightarrow> pool_ok st (idle st)"
  by (simp add: pool_ok_def idle_def)

text \<open>C2: the server refines the abstract directory: after any interleaving of operations, the
  next critical section publishes one service under the specification's conditions, withdraws
  one, changes one's metadata, or leaves the directory alone.\<close>

theorem sections_refine_directory:
  assumes "registry_inv st" and "list_all turn_ok turns" and "turn_ok turn"
  shows "directory_step (endpoint_ok st)
    (directory_of (st_services (po_state (run_events (pool_step X) (idle st) turns))))
    (directory_of (st_services (po_state (pool_step X (run_events (pool_step X) (idle st) turns) turn))))"
  using pool_ok_run [OF pool_ok_idle [OF assms(1)] assms(2)] assms(3) by (rule pool_step_refines)

lemma directory_step_keeps:
  assumes "directory_step endpoint D D'" and "D name = Some s" and "D' name = Some t"
  shows "sd_node_id t = sd_node_id s \<and> sd_service_id t = sd_service_id s"
  using assms(1)
proof cases
  case (publish r)
  show ?thesis
  proof (cases "sd_service_name r = name")
    case True
    with publish assms(2,3) show ?thesis by (auto simp: may_publish_def)
  next
    case False
    with publish(1) assms(3) have "without (sd_service_id r) D name = Some t" by simp
    with assms(2) show ?thesis by (simp add: without_Some)
  qed
next
  case (withdraw i)
  with assms(2,3) show ?thesis by (simp add: without_Some)
next
  case (relabel n r md)
  with assms(2,3) show ?thesis by (cases "n = name") auto
qed (use assms(2,3) in simp)

text \<open>C8: however the operations interleave, a taken name stays with its node and its service: no
  critical section gives it to another node or another identifier without the name having been
  free in between.\<close>

theorem taken_names_keep_owner:
  assumes "registry_inv st" and "list_all turn_ok turns" and "turn_ok turn"
    and "p = run_events (pool_step X) (idle st) turns"
    and "directory_of (st_services (po_state p)) name = Some s"
    and "directory_of (st_services (po_state (pool_step X p turn))) name = Some t"
  shows "sd_node_id t = sd_node_id s \<and> sd_service_id t = sd_service_id s"
  using pool_step_refines [OF pool_ok_run [OF pool_ok_idle [OF assms(1)] assms(2)] assms(3)] assms(5,6)
  unfolding assms(4) by (rule directory_step_keeps)

section \<open>Witnesses\<close>

definition publishing_state :: AppState where
  "publishing_state = sample_state\<lparr>st_services := [(UuidId 2, http_service)]\<rparr>"

lemma publishing_state_inv: "registry_inv publishing_state"
  using sample_state_inv
  by (simp add: registry_inv_def maps_ok_def publishing_state_def directory_ok_def bt_wf_def bt_get_def
      http_service_def sample_service_def leases_port_def)

lemma publishing_again: "register_plan publishing_state http_service sample_node = Inr http_service"
proof -
  have "validate_service_name ''ssh'' = Inr ()" "metadata_validate [] = Inr ()" by code_simp+
  then show ?thesis
    by (simp add: register_plan_def http_service_def sample_service_def publishing_state_def sample_state_def
        assign_http_def adopt_previous_def bt_values_def)
qed

definition publishing :: "Turn list" where
  "publishing = [Start sample_env (OpRegister http_service sample_node)]"

lemma publishing_ok: "list_all turn_ok publishing"
  by (simp add: publishing_def http_service_def sample_service_def)

theorem sections_refine_directory_witness:
  "directory_step (endpoint_ok publishing_state)
     (directory_of (st_services (po_state (run_events (pool_step racing) (idle publishing_state) publishing))))
     (directory_of (st_services (po_state (pool_step racing
       (run_events (pool_step racing) (idle publishing_state) publishing) (Run 0)))))"
  by (rule sections_refine_directory [OF publishing_state_inv publishing_ok]) simp

theorem taken_names_keep_owner_witness:
  "\<exists>t. directory_of (st_services (po_state (pool_step racing
       (run_events (pool_step racing) (idle publishing_state) publishing) (Run 0)))) ''ssh'' = Some t \<and>
     sd_node_id t = sample_node \<and> sd_service_id t = UuidId 2"
proof -
  let ?p = "run_events (pool_step racing) (idle publishing_state) publishing"
  have service: "sd_service_name http_service = ''ssh''" "sd_node_id http_service = sample_node"
      "sd_service_id http_service = UuidId 2"
    by (simp_all add: http_service_def sample_service_def)
  have before: "directory_of (st_services (po_state ?p)) ''ssh'' = Some http_service"
    by (simp add: publishing_def idle_def publishing_state_def directory_of_def bt_values_def service)
  have "\<exists>t. directory_of (st_services (po_state (pool_step racing ?p (Run 0)))) ''ssh'' = Some t"
    by (simp add: publishing_def idle_def publishing_again) (simp add: directory_of_def publishing_state_def
        bt_values_def service)
  then obtain t where after: "directory_of (st_services (po_state (pool_step racing ?p (Run 0)))) ''ssh'' = Some t" ..
  from taken_names_keep_owner [OF publishing_state_inv publishing_ok _ refl before after] after service
  show ?thesis by simp
qed

end
