(* ===== verification/Pump.thy ===== *)
theory Pump
  imports Prelude "HOL-Library.Sublist" "HOL-Library.Multiset"
begin

text \<open>
  \<open>YamuxSession\<close> of \<open>crates/libongrok/src/lib.rs\<close>: the task that owns a Yamux connection
  and the handles that ask it for outbound streams, take its inbound streams and close it. The
  task awaits at four places; an event is one of them becoming ready or a call on a handle. What
  the \<open>yamux\<close> crate returns is an argument of the events. Requests and streams are numbers.
\<close>

section \<open>The task and its channels\<close>

text \<open>
  Where the task is: in \<open>select!\<close>, awaiting \<open>poll_new_outbound\<close> for a request, awaiting room
  in the inbound channel for a stream, or past the loop.
\<close>

datatype PumpPhase = Selecting | Opening nat | Delivering nat | Stopped

definition CHANNEL_CAPACITY :: nat where
  "CHANNEL_CAPACITY = 128"

text \<open>
  The channels and the watch; \<open>ys_waiting\<close> holds the callers blocked in \<open>send\<close>, first come
  first served. The last five fields are history: the requests made, those given up before they
  were in the channel, the answers, the streams the connection accepted and those
  \<open>next_inbound\<close> returned.
\<close>

record YamuxSession =
  ys_phase :: PumpPhase
  ys_outbound :: "nat list"
  ys_waiting :: "nat list"
  ys_inbound :: "nat list"
  ys_shutdown :: bool
  ys_handles :: bool
  ys_requested :: "nat list"
  ys_withdrawn :: "nat list"
  ys_answered :: "(nat \<times> (string + nat)) list"
  ys_accepted :: "nat list"
  ys_returned :: "nat list"

definition spawn_session :: YamuxSession where
  "spawn_session = \<lparr>ys_phase = Selecting, ys_outbound = [], ys_waiting = [], ys_inbound = [],
     ys_shutdown = False, ys_handles = True, ys_requested = [], ys_withdrawn = [], ys_answered = [],
     ys_accepted = [], ys_returned = []\<rparr>"

definition session_closed :: "string + nat" where
  "session_closed = Inl ''Yamux session is closed''"

text \<open>Leaving the loop drops the receivers: queued and blocked requests fail.\<close>

definition stop_task :: "YamuxSession \<Rightarrow> YamuxSession" where
  "stop_task p = p\<lparr>ys_phase := Stopped, ys_outbound := [], ys_waiting := [],
     ys_answered := ys_answered p @ map (\<lambda>r. (r, session_closed)) (ys_outbound p @ ys_waiting p)\<rparr>"

section \<open>The branches of the loop\<close>

text \<open>\<open>outbound_rx.recv()\<close>; the slot it frees goes to the caller that waits longest.\<close>

definition take_request :: "YamuxSession \<Rightarrow> YamuxSession" where
  "take_request p =
     (case ys_outbound p of
        r # queued \<Rightarrow> p\<lparr>ys_phase := Opening r, ys_outbound := queued @ take 1 (ys_waiting p),
                         ys_waiting := drop 1 (ys_waiting p)\<rparr>
      | [] \<Rightarrow> if ys_handles p then p else stop_task p)"

definition answer_request :: "string + nat \<Rightarrow> nat \<Rightarrow> YamuxSession \<Rightarrow> YamuxSession" where
  "answer_request result r p = p\<lparr>ys_phase := Selecting, ys_answered := ys_answered p @ [(r, result)]\<rparr>"

definition accept_inbound :: "(string + nat) option \<Rightarrow> YamuxSession \<Rightarrow> YamuxSession" where
  "accept_inbound next_stream p =
     (case next_stream of
        Some (Inr s) \<Rightarrow> p\<lparr>ys_phase := Delivering s, ys_accepted := ys_accepted p @ [s]\<rparr>
      | Some (Inl _) \<Rightarrow> stop_task p
      | None \<Rightarrow> stop_task p)"

definition deliver :: "nat \<Rightarrow> YamuxSession \<Rightarrow> YamuxSession" where
  "deliver s p =
     (if \<not> ys_handles p then stop_task p
      else if length (ys_inbound p) < CHANNEL_CAPACITY
      then p\<lparr>ys_phase := Selecting, ys_inbound := ys_inbound p @ [s]\<rparr>
      else p)"

section \<open>Calls on a handle\<close>

definition open_stream :: "nat \<Rightarrow> YamuxSession \<Rightarrow> YamuxSession" where
  "open_stream r p =
     (let p = p\<lparr>ys_requested := ys_requested p @ [r]\<rparr> in
      if ys_phase p = Stopped then p\<lparr>ys_answered := ys_answered p @ [(r, session_closed)]\<rparr>
      else if length (ys_outbound p) < CHANNEL_CAPACITY then p\<lparr>ys_outbound := ys_outbound p @ [r]\<rparr>
      else p\<lparr>ys_waiting := ys_waiting p @ [r]\<rparr>)"

text \<open>
  The server waits ten seconds for a stream and then drops the call. A caller blocked in \<open>send\<close>
  leaves the line; a request in the channel or in the task's hand stays, and its answer,
  \<open>response.send\<close>, goes nowhere.
\<close>

definition give_up :: "nat \<Rightarrow> YamuxSession \<Rightarrow> YamuxSession" where
  "give_up r p =
     (if r \<in> set (ys_waiting p)
      then p\<lparr>ys_waiting := remove1 r (ys_waiting p), ys_withdrawn := ys_withdrawn p @ [r]\<rparr>
      else p)"

text \<open>The returned value is \<open>None\<close> for a call that still waits.\<close>

definition next_inbound :: "YamuxSession \<Rightarrow> nat option option \<times> YamuxSession" where
  "next_inbound p =
     (case ys_inbound p of
        s # rest \<Rightarrow> (Some (Some s), p\<lparr>ys_inbound := rest, ys_returned := ys_returned p @ [s]\<rparr>)
      | [] \<Rightarrow> (if ys_phase p = Stopped then Some None else None, p))"

definition close_yamux :: "YamuxSession \<Rightarrow> YamuxSession" where
  "close_yamux p = p\<lparr>ys_shutdown := True\<rparr>"

section \<open>Events\<close>

datatype PumpEvent =
    RequestReady
  | OutboundReady "string + nat"
  | InboundReady "(string + nat) option"
  | InboundRoom
  | ShutdownReady
  | CallOpen nat
  | CallGivesUp nat
  | CallNext
  | CallClose
  | HandlesDropped

text \<open>
  A branch can only run where the task awaits it. Dropping the last handle closes the
  channels and the watch, so \<open>changed\<close> is ready then too.
\<close>

definition pump_step :: "YamuxSession \<Rightarrow> PumpEvent \<Rightarrow> YamuxSession" where
  "pump_step p e =
     (case e of
        RequestReady \<Rightarrow> if ys_phase p = Selecting then take_request p else p
      | OutboundReady result \<Rightarrow> (case ys_phase p of Opening r \<Rightarrow> answer_request result r p | _ \<Rightarrow> p)
      | InboundReady next_stream \<Rightarrow> if ys_phase p = Selecting then accept_inbound next_stream p else p
      | InboundRoom \<Rightarrow> (case ys_phase p of Delivering s \<Rightarrow> deliver s p | _ \<Rightarrow> p)
      | ShutdownReady \<Rightarrow>
          if ys_phase p = Selecting \<and> (ys_shutdown p \<or> \<not> ys_handles p) then stop_task p else p
      | CallOpen r \<Rightarrow> if ys_handles p then open_stream r p else p
      | CallGivesUp r \<Rightarrow> give_up r p
      | CallNext \<Rightarrow> if ys_handles p then snd (next_inbound p) else p
      | CallClose \<Rightarrow> if ys_handles p then close_yamux p else p
      | HandlesDropped \<Rightarrow> p\<lparr>ys_handles := False\<rparr>)"

lemmas pump_defs = pump_step_def take_request_def answer_request_def accept_inbound_def deliver_def
  open_stream_def give_up_def next_inbound_def close_yamux_def stop_task_def Let_def

section \<open>The channels are bounded, ordered and lose nothing\<close>

text \<open>The request or the stream the task holds between two awaits.\<close>

definition request_in_hand :: "YamuxSession \<Rightarrow> nat list" where
  "request_in_hand p = (case ys_phase p of Opening r \<Rightarrow> [r] | _ \<Rightarrow> [])"

definition stream_in_hand :: "YamuxSession \<Rightarrow> nat list" where
  "stream_in_hand p = (case ys_phase p of Delivering s \<Rightarrow> [s] | _ \<Rightarrow> [])"

definition bounded :: "YamuxSession \<Rightarrow> bool" where
  "bounded p \<longleftrightarrow> length (ys_outbound p) \<le> CHANNEL_CAPACITY \<and> length (ys_inbound p) \<le> CHANNEL_CAPACITY \<and>
     (ys_waiting p = [] \<or> length (ys_outbound p) = CHANNEL_CAPACITY)"

text \<open>The requests that were not given up in time, answered or still to be answered.\<close>

definition in_line :: "YamuxSession \<Rightarrow> nat list" where
  "in_line p = map fst (ys_answered p) @ request_in_hand p @ ys_outbound p @ ys_waiting p"

definition requests_in_order :: "YamuxSession \<Rightarrow> bool" where
  "requests_in_order p \<longleftrightarrow>
     subseq (in_line p) (ys_requested p) \<and>
     mset (ys_requested p) = mset (in_line p) + mset (ys_withdrawn p) \<and>
     (ys_phase p = Stopped \<longrightarrow> ys_outbound p = [] \<and> ys_waiting p = [])"

definition streams_in_order :: "YamuxSession \<Rightarrow> bool" where
  "streams_in_order p \<longleftrightarrow>
     (\<exists>lost. ys_accepted p = ys_returned p @ ys_inbound p @ stream_in_hand p @ lost \<and>
        (lost = [] \<or> \<not> ys_handles p \<and> ys_phase p = Stopped))"

definition pump_inv :: "YamuxSession \<Rightarrow> bool" where
  "pump_inv p \<longleftrightarrow> bounded p \<and> requests_in_order p \<and> streams_in_order p"

lemma bounded_step: "bounded p \<Longrightarrow> bounded (pump_step p e)"
  by (cases e)
     (auto simp: bounded_def pump_defs CHANNEL_CAPACITY_def neq_Nil_conv split: PumpPhase.split list.split option.split sum.split)

text \<open>What an event adds at the end of the line, when nobody leaves it.\<close>

fun newly_requested :: "YamuxSession \<Rightarrow> PumpEvent \<Rightarrow> nat list" where
  "newly_requested p (CallOpen r) = (if ys_handles p then [r] else [])"
| "newly_requested p e = []"

lemma line_grows:
  assumes "bounded p" and "requests_in_order p" and "\<forall>r. e \<noteq> CallGivesUp r"
  shows "in_line (pump_step p e) = in_line p @ newly_requested p e \<and>
    ys_requested (pump_step p e) = ys_requested p @ newly_requested p e \<and>
    ys_withdrawn (pump_step p e) = ys_withdrawn p"
  using assms
  by (cases e; cases "ys_phase p"; cases "ys_waiting p")
     (auto simp: bounded_def requests_in_order_def in_line_def request_in_hand_def pump_defs CHANNEL_CAPACITY_def comp_def
       split: list.split option.split sum.split)

lemma stopped_is_empty:
  assumes "requests_in_order p" and "ys_phase (pump_step p e) = Stopped"
  shows "ys_outbound (pump_step p e) = [] \<and> ys_waiting (pump_step p e) = []"
  using assms
  by (cases e; cases "ys_phase p")
     (auto simp: requests_in_order_def pump_defs split: list.splits option.splits sum.splits if_splits)

lemma subseq_remove1: "subseq (remove1 x xs) xs"
  by (induction xs) auto

lemma leaving_keeps_order:
  assumes "requests_in_order p" and "r \<in> set (ys_waiting p)"
  shows "subseq (in_line (give_up r p)) (ys_requested p) \<and>
    mset (ys_requested p) = mset (in_line (give_up r p)) + mset (ys_withdrawn (give_up r p))"
proof -
  have "subseq (in_line (give_up r p)) (in_line p)"
    using assms(2) by (simp add: give_up_def in_line_def request_in_hand_def subseq_append' subseq_remove1)
  moreover have "mset (ys_waiting p) = add_mset r (mset (remove1 r (ys_waiting p)))"
    using assms(2) by simp
  ultimately show ?thesis
    using assms by (auto simp: requests_in_order_def give_up_def in_line_def request_in_hand_def
        intro: subseq_order.order_trans)
qed

lemma requests_step:
  assumes "bounded p" and ordered: "requests_in_order p"
  shows "requests_in_order (pump_step p e)"
proof (cases "\<exists>r. e = CallGivesUp r \<and> r \<in> set (ys_waiting p)")
  case True
  then obtain r where "pump_step p e = give_up r p" "r \<in> set (ys_waiting p)"
    by (auto simp: pump_step_def)
  with leaving_keeps_order [OF ordered] stopped_is_empty [OF ordered, of e] show ?thesis
    by (simp add: requests_in_order_def give_up_def)
next
  case False
  show ?thesis
  proof (cases "\<forall>r. e \<noteq> CallGivesUp r")
    case True
    from line_grows [OF assms True] stopped_is_empty [OF ordered, of e] ordered show ?thesis
      by (simp add: requests_in_order_def)
  next
    case nobody: False
    with False have "pump_step p e = p" by (auto simp: pump_step_def give_up_def)
    with ordered show ?thesis by simp
  qed
qed

lemma streams_step: "streams_in_order p \<Longrightarrow> streams_in_order (pump_step p e)"
  by (cases e; cases "ys_phase p")
     (auto simp: streams_in_order_def stream_in_hand_def pump_defs split: list.split option.split sum.split)

interpretation session_pump: invariant_system pump_step pump_inv
  by unfold_locales (simp add: pump_inv_def bounded_step requests_step streams_step)

lemma pump_inv_spawn: "pump_inv spawn_session"
  by (simp add: pump_inv_def bounded_def requests_in_order_def in_line_def streams_in_order_def
      request_in_hand_def stream_in_hand_def spawn_session_def)

lemma reached_in_order: "requests_in_order (run_events pump_step spawn_session es)"
  using session_pump.run_inv [OF pump_inv_spawn] by (simp add: pump_inv_def)

text \<open>Events in which no caller gives up.\<close>

fun patient :: "PumpEvent \<Rightarrow> bool" where
  "patient (CallGivesUp r) = False"
| "patient e = True"

lemma nobody_withdraws:
  "list_all patient es \<Longrightarrow>
     ys_withdrawn (run_events pump_step p es) = ys_withdrawn p"
proof (induction es arbitrary: p)
  case (Cons e es)
  then have "ys_withdrawn (pump_step p e) = ys_withdrawn p"
    by (cases e) (auto simp: pump_defs split: PumpPhase.split list.split option.split sum.split)
  with Cons show ?case by simp
qed simp

text \<open>C15: whatever the callers, the peer and the scheduler do, the channels of a Yamux session hold
  at most 128 entries each, the requests are answered in the order made, and every request is
  answered, held, queued, or was given up by a caller that still waited for room in the channel.
  Where nobody gave up, the line is the requests as they were made; a stopped session has no
  request left without an answer.\<close>

theorem session_answers_in_order:
  "let p = run_events pump_step spawn_session es;
       line = map fst (ys_answered p) @ request_in_hand p @ ys_outbound p @ ys_waiting p
   in length (ys_outbound p) \<le> 128 \<and> length (ys_inbound p) \<le> 128 \<and>
      subseq line (ys_requested p) \<and> mset (ys_requested p) = mset line + mset (ys_withdrawn p) \<and>
      (if list_all patient es then ys_requested p = line else True) \<and>
      (if ys_phase p = Stopped then line = map fst (ys_answered p) else True)"
proof -
  let ?p = "run_events pump_step spawn_session es"
  have "pump_inv ?p" by (rule session_pump.run_inv [OF pump_inv_spawn])
  moreover have "ys_requested ?p = in_line ?p" if "list_all patient es"
  proof -
    from that have "ys_withdrawn ?p = []" by (simp add: nobody_withdraws spawn_session_def)
    with reached_in_order [of es]
    have "subseq (in_line ?p) (ys_requested ?p)" and "mset (in_line ?p) = mset (ys_requested ?p)"
      by (simp_all add: requests_in_order_def)
    then show ?thesis by (metis subseq_same_length mset_eq_length)
  qed
  ultimately show ?thesis
    by (auto simp: pump_inv_def bounded_def requests_in_order_def CHANNEL_CAPACITY_def request_in_hand_def in_line_def
        Let_def)
qed

text \<open>C16: while a handle of a Yamux session lives, the streams the peer opened come out of
  \<open>next_inbound\<close> in the order the connection accepted them, none lost and none twice.\<close>

theorem session_delivers_in_order:
  "let p = run_events pump_step spawn_session es in
     if ys_handles p then ys_accepted p = ys_returned p @ ys_inbound p @ stream_in_hand p
     else (\<exists>lost. ys_accepted p = ys_returned p @ ys_inbound p @ stream_in_hand p @ lost)"
proof -
  have "pump_inv (run_events pump_step spawn_session es)"
    by (rule session_pump.run_inv [OF pump_inv_spawn])
  then show ?thesis by (auto simp: pump_inv_def streams_in_order_def Let_def)
qed

section \<open>Closing\<close>

text \<open>C17: after \<open>close\<close>, once the request in hand is answered, one inbound stream is taken and
  the task is scheduled, the task has stopped and every request that was not given up has its answer, in
  whatever state the session was.\<close>

theorem close_stops_task:
  "let p = run_events pump_step spawn_session es;
       q = run_events pump_step p [CallClose, OutboundReady result, CallNext, InboundRoom, ShutdownReady]
   in if ys_handles p
      then ys_phase q = Stopped \<and> mset (ys_requested q) = mset (map fst (ys_answered q)) + mset (ys_withdrawn q)
      else True"
proof -
  let ?p = "run_events pump_step spawn_session es"
  let ?q = "run_events pump_step ?p [CallClose, OutboundReady result, CallNext, InboundRoom, ShutdownReady]"
  have p: "pump_inv ?p" by (rule session_pump.run_inv [OF pump_inv_spawn])
  then have "pump_inv ?q" by (rule session_pump.run_inv)
  then have q: "requests_in_order ?q" by (simp add: pump_inv_def)
  have "length (ys_inbound ?p) \<le> 128"
    using p by (simp add: pump_inv_def bounded_def CHANNEL_CAPACITY_def)
  then have "ys_handles ?p \<Longrightarrow> ys_phase ?q = Stopped"
    by (cases "ys_phase ?p"; cases "ys_inbound ?p") (auto simp: pump_defs CHANNEL_CAPACITY_def)
  with q show ?thesis by (auto simp: Let_def requests_in_order_def in_line_def request_in_hand_def)
qed

text \<open>Events in which nobody takes an inbound stream or drops the last handle.\<close>

fun undrained :: "PumpEvent \<Rightarrow> bool" where
  "undrained CallNext = False"
| "undrained HandlesDropped = False"
| "undrained e = True"

text \<open>C38: a session whose inbound channel is full and whose peer opens one more stream does not
  see \<open>close\<close>, nor any request, until someone takes a stream: the await of the full channel is
  inside the branch, outside the \<open>select!\<close>. The server takes one stream of a session, the
  control stream, and never another.\<close>

theorem full_session_ignores_close:
  assumes "ys_phase p = Delivering s" and "length (ys_inbound p) = 128" and "ys_handles p"
    and "list_all undrained es"
  shows "ys_phase (run_events pump_step p es) = Delivering s \<and>
    ys_answered (run_events pump_step p es) = ys_answered p"
  using assms
proof (induction es arbitrary: p)
  case (Cons e es)
  have "ys_phase (pump_step p e) = Delivering s \<and> length (ys_inbound (pump_step p e)) = 128 \<and>
      ys_handles (pump_step p e) \<and> ys_answered (pump_step p e) = ys_answered p"
    using Cons.prems by (cases e) (auto simp: pump_defs CHANNEL_CAPACITY_def)
  with Cons.IH [of "pump_step p e"] Cons.prems(4) show ?case by simp
qed simp

lemma flooded:
  "n + length (ys_inbound p) \<le> 128 \<Longrightarrow> ys_phase p = Selecting \<Longrightarrow> ys_handles p \<Longrightarrow>
     ys_phase (run_events pump_step p (concat (replicate n [InboundReady (Some (Inr 7)), InboundRoom]))) = Selecting \<and>
     ys_handles (run_events pump_step p (concat (replicate n [InboundReady (Some (Inr 7)), InboundRoom]))) \<and>
     length (ys_inbound (run_events pump_step p (concat (replicate n [InboundReady (Some (Inr 7)), InboundRoom])))) =
       n + length (ys_inbound p)"
proof (induction n arbitrary: p)
  case (Suc n)
  let ?p = "pump_step (pump_step p (InboundReady (Some (Inr 7)))) InboundRoom"
  have "length (ys_inbound ?p) = Suc (length (ys_inbound p)) \<and> ys_phase ?p = Selecting \<and> ys_handles ?p"
    using Suc.prems by (simp add: pump_defs CHANNEL_CAPACITY_def)
  with Suc.IH [of ?p] Suc.prems show ?case by simp
qed simp

theorem full_session_ignores_close_witness:
  "ys_phase (run_events pump_step spawn_session
     (concat (replicate 128 [InboundReady (Some (Inr 7)), InboundRoom]) @
      [InboundReady (Some (Inr 8)), CallClose, ShutdownReady, CallOpen 1, RequestReady])) = Delivering 8"
proof -
  let ?p = "run_events pump_step spawn_session (concat (replicate 128 [InboundReady (Some (Inr 7)), InboundRoom]))"
  have full: "ys_phase ?p = Selecting" "ys_handles ?p" "length (ys_inbound ?p) = 128"
    using flooded [of 128 spawn_session] by (simp_all add: spawn_session_def)
  let ?q = "pump_step ?p (InboundReady (Some (Inr 8)))"
  have "ys_phase ?q = Delivering 8" "length (ys_inbound ?q) = 128" "ys_handles ?q"
    using full by (simp_all add: pump_defs)
  from full_session_ignores_close [OF this, of "[CallClose, ShutdownReady, CallOpen 1, RequestReady]"]
  show ?thesis by (simp add: run_events_append)
qed

end
