(* ===== verification/Relay.thy ===== *)
theory Relay
  imports Control
begin

text \<open>
  Byte forwarding: the tail of \<open>forward_tcp_connection\<close> in
  \<open>crates/ongrok-relay-server/src/relay.rs\<close> and of \<open>handle_data_stream\<close> in the client, two
  copies joined by \<open>try_join!\<close>, and the path of a visitor's bytes through both.
\<close>

section \<open>One direction\<close>

text \<open>
  \<open>copy\<close> reads a chunk and writes it whole; at the end of the source the destination is
  shut down. A failed write has written some of the chunk.
\<close>

datatype CopyEvent =
    Chunk bytes
  | WriteFailed bytes nat string
  | SourceEnd
  | ShutdownFailed string
  | ReadFailed string

datatype CopyPhase = Copying | CopyDone | CopyFailed string

record Half =
  hf_phase :: CopyPhase
  hf_written :: bytes
  hf_shut :: bool

definition new_half :: Half where
  "new_half = \<lparr>hf_phase = Copying, hf_written = [], hf_shut = False\<rparr>"

definition copy_step :: "Half \<Rightarrow> CopyEvent \<Rightarrow> Half" where
  "copy_step h e =
     (if hf_phase h \<noteq> Copying then h
      else case e of
        Chunk data \<Rightarrow> h\<lparr>hf_written := hf_written h @ data\<rparr>
      | WriteFailed data k m \<Rightarrow> h\<lparr>hf_phase := CopyFailed m, hf_written := hf_written h @ take k data\<rparr>
      | SourceEnd \<Rightarrow> h\<lparr>hf_phase := CopyDone, hf_shut := True\<rparr>
      | ShutdownFailed m \<Rightarrow> h\<lparr>hf_phase := CopyFailed m\<rparr>
      | ReadFailed m \<Rightarrow> h\<lparr>hf_phase := CopyFailed m\<rparr>)"

section \<open>Both directions\<close>

text \<open>
  The first failure ends the join and cancels the other copy; when both are done the result is
  the two byte counts.
\<close>

record CopyJoin =
  cj_there :: Half
  cj_back :: Half
  cj_result :: "(string + nat \<times> nat) option"

definition new_join :: CopyJoin where
  "new_join = \<lparr>cj_there = new_half, cj_back = new_half, cj_result = None\<rparr>"

datatype JoinEvent = There CopyEvent | Back CopyEvent

definition join_result :: "string \<Rightarrow> Half \<Rightarrow> Half \<Rightarrow> (string + nat \<times> nat) option" where
  "join_result failure there back =
     (case (hf_phase there, hf_phase back) of
        (CopyFailed _, _) \<Rightarrow> Some (Inl failure)
      | (_, CopyFailed _) \<Rightarrow> Some (Inl failure)
      | (CopyDone, CopyDone) \<Rightarrow> Some (Inr (length (hf_written there), length (hf_written back)))
      | _ \<Rightarrow> None)"

definition join_step :: "string \<Rightarrow> CopyJoin \<Rightarrow> JoinEvent \<Rightarrow> CopyJoin" where
  "join_step failure j e =
     (if cj_result j \<noteq> None then j
      else
        let there = (case e of There c \<Rightarrow> copy_step (cj_there j) c | Back _ \<Rightarrow> cj_there j);
            back = (case e of There _ \<Rightarrow> cj_back j | Back c \<Rightarrow> copy_step (cj_back j) c)
        in \<lparr>cj_there = there, cj_back = back, cj_result = join_result failure there back\<rparr>)"

text \<open>A visitor's connection: \<open>There\<close> is from the visitor to the client.\<close>

definition forward_tcp_connection ::
  "Externals \<Rightarrow> ServiceId \<Rightarrow> uuid \<Rightarrow> OpenOutcome \<Rightarrow> bool \<Rightarrow> AckOutcome \<Rightarrow> AppState \<Rightarrow> JoinEvent list \<Rightarrow> CopyJoin" where
  "forward_tcp_connection X service_id fresh opened io ack st events =
     (case open_client_stream X service_id fresh opened io ack st of
        Inl e \<Rightarrow> new_join\<lparr>cj_result := Some (Inl e)\<rparr>
      | Inr _ \<Rightarrow> run_events (join_step ''TCP relay copy failed'') new_join events)"

text \<open>The client's side, once the stream is acknowledged: \<open>There\<close> is from the relay to the local
  service.\<close>

definition local_relay :: "JoinEvent list \<Rightarrow> CopyJoin" where
  "local_relay events = run_events (join_step ''local TCP relay copy failed'') new_join events"

section \<open>What a copy has read\<close>

text \<open>The bytes the events of one direction deliver before its first end or failure.\<close>

fun source_bytes :: "CopyEvent list \<Rightarrow> bytes" where
  "source_bytes (Chunk data # es) = data @ source_bytes es"
| "source_bytes (WriteFailed data k m # es) = data"
| "source_bytes es = []"

fun there_events :: "JoinEvent list \<Rightarrow> CopyEvent list" where
  "there_events [] = []"
| "there_events (There c # es) = c # there_events es"
| "there_events (Back c # es) = there_events es"

fun back_events :: "JoinEvent list \<Rightarrow> CopyEvent list" where
  "back_events [] = []"
| "back_events (There c # es) = back_events es"
| "back_events (Back c # es) = c # back_events es"

lemma copy_step_simps:
  "hf_phase h \<noteq> Copying \<Longrightarrow> copy_step h e = h"
  "hf_phase h = Copying \<Longrightarrow> copy_step h (Chunk data) = h\<lparr>hf_written := hf_written h @ data\<rparr>"
  "hf_phase h = Copying \<Longrightarrow> copy_step h (WriteFailed data k m) =
     h\<lparr>hf_phase := CopyFailed m, hf_written := hf_written h @ take k data\<rparr>"
  "hf_phase h = Copying \<Longrightarrow> copy_step h SourceEnd = h\<lparr>hf_phase := CopyDone, hf_shut := True\<rparr>"
  "hf_phase h = Copying \<Longrightarrow> copy_step h (ShutdownFailed m) = h\<lparr>hf_phase := CopyFailed m\<rparr>"
  "hf_phase h = Copying \<Longrightarrow> copy_step h (ReadFailed m) = h\<lparr>hf_phase := CopyFailed m\<rparr>"
  by (simp_all add: copy_step_def)

lemma copy_stopped: "hf_phase h \<noteq> Copying \<Longrightarrow> run_events copy_step h es = h"
  by (induction es) (simp_all add: copy_step_simps)

lemma join_step_simps:
  "cj_result j \<noteq> None \<Longrightarrow> join_step f j e = j"
  "cj_result j = None \<Longrightarrow> cj_there (join_step f j (There c)) = copy_step (cj_there j) c"
  "cj_result j = None \<Longrightarrow> cj_back (join_step f j (There c)) = cj_back j"
  "cj_result j = None \<Longrightarrow> cj_there (join_step f j (Back c)) = cj_there j"
  "cj_result j = None \<Longrightarrow> cj_back (join_step f j (Back c)) = copy_step (cj_back j) c"
  "cj_result j = None \<Longrightarrow> cj_result (join_step f j e) = join_result f (cj_there (join_step f j e)) (cj_back (join_step f j e))"
  by (simp_all add: join_step_def Let_def)

text \<open>A copy writes what it reads, in order; one that ends well has written all of it.\<close>

lemma copy_exact:
  assumes "hf_phase h = Copying" and "\<not> hf_shut h"
  shows "\<exists>rest. hf_written h @ source_bytes es = hf_written (run_events copy_step h es) @ rest \<and>
    (hf_phase (run_events copy_step h es) = CopyDone \<longrightarrow> rest = [] \<and> hf_shut (run_events copy_step h es)) \<and>
    (hf_shut (run_events copy_step h es) \<longrightarrow> hf_phase (run_events copy_step h es) = CopyDone)"
  using assms
proof (induction es arbitrary: h)
  case (Cons e es)
  show ?case
  proof (cases e)
    case (Chunk data)
    then show ?thesis
      using Cons.IH [of "h\<lparr>hf_written := hf_written h @ data\<rparr>"] Cons.prems by (simp add: copy_step_simps)
  next
    case (WriteFailed data k m)
    then show ?thesis
      using Cons.prems by (intro exI [of _ "drop k data"]) (simp add: copy_step_simps copy_stopped)
  qed (use Cons.prems in \<open>simp_all add: copy_step_simps copy_stopped\<close>)
qed simp

text \<open>The halves of a join run as if alone until the join has its result.\<close>

lemma join_halves:
  "\<exists>es1 es2. cj_there (run_events (join_step f) j es) = run_events copy_step (cj_there j) es1 \<and>
     cj_back (run_events (join_step f) j es) = run_events copy_step (cj_back j) es2 \<and>
     (\<exists>r1 r2. there_events es = es1 @ r1 \<and> back_events es = es2 @ r2)"
proof (induction es arbitrary: j)
  case (Cons e es)
  show ?case
  proof (cases "cj_result j = None")
    case True
    from Cons.IH [of "join_step f j e"] obtain es1 es2 r1 r2 where IH:
      "cj_there (run_events (join_step f) (join_step f j e) es) = run_events copy_step (cj_there (join_step f j e)) es1"
      "cj_back (run_events (join_step f) (join_step f j e) es) = run_events copy_step (cj_back (join_step f j e)) es2"
      "there_events es = es1 @ r1" "back_events es = es2 @ r2"
      by blast
    show ?thesis
    proof (cases e)
      case (There c)
      with IH True show ?thesis
        by (intro exI [of _ "c # es1"] exI [of _ es2]) (simp add: join_step_simps)
    next
      case (Back c)
      with IH True show ?thesis
        by (intro exI [of _ es1] exI [of _ "c # es2"]) (simp add: join_step_simps)
    qed
  next
    case False
    then have "join_step f j e = j" for e by (simp add: join_step_simps)
    then have "run_events (join_step f) j es = j" for es by (induction es) simp_all
    from this [of "e # es"] show ?thesis by (intro exI [of _ "[]"]) simp
  qed
qed (intro exI [of _ "[]"], simp)

lemma source_bytes_prefix: "\<exists>rest. source_bytes (es @ extra) = source_bytes es @ rest"
  by (induction es rule: source_bytes.induct) auto

lemma source_bytes_ended:
  "hf_phase h = Copying \<Longrightarrow> hf_phase (run_events copy_step h es) = CopyDone \<Longrightarrow>
     source_bytes (es @ extra) = source_bytes es"
proof (induction es arbitrary: h)
  case (Cons e es)
  show ?case
  proof (cases e)
    case (Chunk data)
    with Cons.IH [of "copy_step h e"] Cons.prems show ?thesis by (simp add: copy_step_simps)
  qed (use Cons.prems in \<open>simp_all add: copy_step_simps copy_stopped\<close>)
qed simp

definition copied :: "CopyEvent list \<Rightarrow> Half \<Rightarrow> bool" where
  "copied es h \<longleftrightarrow>
     (\<exists>rest. source_bytes es = hf_written h @ rest \<and> (hf_phase h = CopyDone \<longrightarrow> rest = [] \<and> hf_shut h))"

lemma copied_run: "copied (es @ extra) (run_events copy_step new_half es)"
proof -
  let ?h = "run_events copy_step new_half es"
  obtain rest where rest: "source_bytes es = hf_written ?h @ rest" "hf_phase ?h = CopyDone \<longrightarrow> rest = [] \<and> hf_shut ?h"
    using copy_exact [of new_half es] by (auto simp: new_half_def)
  obtain rest' where "source_bytes (es @ extra) = source_bytes es @ rest'"
    using source_bytes_prefix by blast
  with rest source_bytes_ended [of new_half es extra] show ?thesis
    unfolding copied_def by (intro exI [of _ "rest @ rest'"]) (auto simp: new_half_def)
qed

lemma join_copied:
  "copied (there_events es) (cj_there (run_events (join_step f) new_join es)) \<and>
   copied (back_events es) (cj_back (run_events (join_step f) new_join es))"
proof -
  obtain es1 es2 r1 r2 where "cj_there (run_events (join_step f) new_join es) = run_events copy_step new_half es1"
      "cj_back (run_events (join_step f) new_join es) = run_events copy_step new_half es2"
      "there_events es = es1 @ r1" "back_events es = es2 @ r2"
    using join_halves [of f new_join es] by (auto simp: new_join_def)
  then show ?thesis using copied_run by metis
qed

lemma join_result_kept:
  "cj_result j = join_result f (cj_there j) (cj_back j) \<Longrightarrow>
     cj_result (run_events (join_step f) j es) =
       join_result f (cj_there (run_events (join_step f) j es)) (cj_back (run_events (join_step f) j es))"
proof (induction es arbitrary: j)
  case (Cons e es)
  then show ?case by (cases "cj_result j = None") (simp_all add: join_step_simps)
qed simp

lemma join_result_Inr:
  "join_result f t b = Some (Inr (n, m)) \<longleftrightarrow> hf_phase t = CopyDone \<and> hf_phase b = CopyDone \<and>
     n = length (hf_written t) \<and> m = length (hf_written b)"
  by (auto simp: join_result_def split: CopyPhase.split)

text \<open>Each side has a prefix of what the other sent; all of it, and the end, if the join ended well.\<close>

definition faithful :: "JoinEvent list \<Rightarrow> CopyJoin \<Rightarrow> bool" where
  "faithful es j \<longleftrightarrow>
     (\<exists>rest. source_bytes (there_events es) = hf_written (cj_there j) @ rest) \<and>
     (\<exists>rest. source_bytes (back_events es) = hf_written (cj_back j) @ rest) \<and>
     (case cj_result j of
        Some (Inr (n, m)) \<Rightarrow>
          hf_written (cj_there j) = source_bytes (there_events es) \<and> hf_shut (cj_there j) \<and>
          hf_written (cj_back j) = source_bytes (back_events es) \<and> hf_shut (cj_back j) \<and>
          n = length (source_bytes (there_events es)) \<and> m = length (source_bytes (back_events es))
      | _ \<Rightarrow> True)"


lemma join_faithful: "faithful es (run_events (join_step f) new_join es)"
proof -
  let ?j = "run_events (join_step f) new_join es"
  have "join_result f new_half new_half = None"
    by (simp add: join_result_def new_half_def)
  then have "cj_result ?j = join_result f (cj_there ?j) (cj_back ?j)"
    by (intro join_result_kept) (simp add: new_join_def)
  with join_copied [of es f] show ?thesis
    by (auto simp: faithful_def copied_def join_result_Inr split: option.split sum.split)
qed

text \<open>C18: both ends of a tunnel forward bytes faithfully: what reaches one side is a prefix of what
  the other sent, in order, and when the forwarding ends without an error both sides got
  everything, both were told of the end, and the two counts are the bytes forwarded. A visitor
  whose stream cannot be opened gets nothing.\<close>

theorem relay_copies_exactly:
  "faithful es (local_relay es) \<and>
   faithful es (forward_tcp_connection X service_id fresh opened io ack st es) \<and>
   (case open_client_stream X service_id fresh opened io ack st of
      Inl e \<Rightarrow> forward_tcp_connection X service_id fresh opened io ack st es = new_join\<lparr>cj_result := Some (Inl e)\<rparr>
    | Inr _ \<Rightarrow> True)"
proof -
  have "faithful es (new_join\<lparr>cj_result := Some (Inl e)\<rparr>)" for e
    by (simp add: faithful_def new_join_def new_half_def)
  then show ?thesis
    by (simp add: local_relay_def forward_tcp_connection_def join_faithful split: sum.split)
qed

section \<open>From the visitor to the local service and back\<close>







text \<open>The bytes a step of a copy has put on the stream.\<close>

definition put_on :: "Half \<Rightarrow> Half \<Rightarrow> bytes \<Rightarrow> bytes" where
  "put_on w w' flight = flight @ drop (length (hf_written w)) (hf_written w')"




















lemma put_on_same [simp]: "put_on w w flight = flight"
  by (simp add: put_on_def)









end
