(* ===== verification/Listeners.thy ===== *)
theory Listeners
  imports Relay Config
begin

text \<open>
  The server's listeners: the accept loops of \<open>crates/ongrok-relay-server/src/transport.rs\<close>,
  \<open>ingress.rs\<close>, \<open>relay.rs\<close> and \<open>run_api\<close>, what a connection does before its handler, the
  supervision and the shutdown in \<open>run\<close>. Sockets and TLS are the results they give.
\<close>

section \<open>Accept loops\<close>

text \<open>
  The loop of \<open>run_tcp_tls\<close>, \<open>run_http_ingress\<close> and \<open>run_https_ingress\<close>: a task for every
  connection, and \<open>?\<close> on a failed accept. The first component are the connections served, the
  second the end of the loop, \<open>None\<close> while it waits.
\<close>

fun accept_loop :: "string \<Rightarrow> (string + 'c) list \<Rightarrow> 'c list \<times> (string + unit) option" where
  "accept_loop failure [] = ([], None)"
| "accept_loop failure (Inl e # results) = ([], Some (Inl failure))"
| "accept_loop failure (Inr connection # results) =
     (case accept_loop failure results of (served, end_result) \<Rightarrow> (connection # served, end_result))"

definition listen :: "string \<Rightarrow> string \<Rightarrow> bool \<Rightarrow> (string + 'c) list \<Rightarrow> 'c list \<times> (string + unit) option" where
  "listen bind_failure accept_failure bound results =
     (if \<not> bound then ([], Some (Inl bind_failure)) else accept_loop accept_failure results)"

definition run_tcp_tls :: "string \<Rightarrow> bool \<Rightarrow> (string + 'c) list \<Rightarrow> 'c list \<times> (string + unit) option" where
  "run_tcp_tls address bound results =
     listen (''failed to bind TCP/TLS listener at '' @ address) ''TCP/TLS accept failed'' bound results"

definition run_http_ingress :: "string \<Rightarrow> bool \<Rightarrow> (string + 'c) list \<Rightarrow> 'c list \<times> (string + unit) option" where
  "run_http_ingress address bound results =
     listen (''failed to bind HTTP ingress at '' @ address) ''HTTP ingress accept failed'' bound results"

definition run_https_ingress :: "string \<Rightarrow> bool \<Rightarrow> (string + 'c) list \<Rightarrow> 'c list \<times> (string + unit) option" where
  "run_https_ingress address bound results =
     listen (''failed to bind HTTPS ingress at '' @ address) ''HTTPS ingress accept failed'' bound results"

text \<open>QUIC: \<open>accept\<close> returns \<open>None\<close> when the endpoint is closed. \<open>setup\<close> is the error of its
  configuration, if any.\<close>

fun quic_accept_loop :: "'c option list \<Rightarrow> 'c list \<times> (string + unit) option" where
  "quic_accept_loop [] = ([], None)"
| "quic_accept_loop (None # results) = ([], Some (Inr ()))"
| "quic_accept_loop (Some connection # results) =
     (case quic_accept_loop results of (served, end_result) \<Rightarrow> (connection # served, end_result))"

definition run_quic_listener ::
  "string \<Rightarrow> string option \<Rightarrow> bool \<Rightarrow> 'c option list \<Rightarrow> 'c list \<times> (string + unit) option" where
  "run_quic_listener address setup bound results =
     (case setup of
        Some e \<Rightarrow> ([], Some (Inl e))
      | None \<Rightarrow>
          if \<not> bound then ([], Some (Inl (''failed to bind QUIC listener at '' @ address)))
          else quic_accept_loop results)"

text \<open>The loop of one TCP service's listener task: it breaks on a failed accept.\<close>

fun ingress_accept_loop :: "(string + 'c) list \<Rightarrow> 'c list \<times> bool" where
  "ingress_accept_loop [] = ([], False)"
| "ingress_accept_loop (Inl e # results) = ([], True)"
| "ingress_accept_loop (Inr stream # results) =
     (case ingress_accept_loop results of (served, ended) \<Rightarrow> (stream # served, ended))"

section \<open>A client connection before its handler\<close>

datatype TlsAccept = TlsTimedOut | TlsFailed string | TlsOtherProtocol | TlsAccepted
datatype ControlAccept = ControlTimedOut | ControlNever | ControlOpened

definition tcp_tls_error :: "TlsAccept \<Rightarrow> ControlAccept \<Rightarrow> string option" where
  "tcp_tls_error tls control =
     (case tls of
        TlsTimedOut \<Rightarrow> Some ''TCP/TLS handshake timed out''
      | TlsFailed e \<Rightarrow> Some e
      | TlsOtherProtocol \<Rightarrow> Some ''TCP/TLS client did not negotiate ongrok/1''
      | TlsAccepted \<Rightarrow>
          (case control of
             ControlTimedOut \<Rightarrow> Some ''client did not open a Yamux control stream''
           | ControlNever \<Rightarrow> Some ''Yamux session ended before opening a control stream''
           | ControlOpened \<Rightarrow> None))"

text \<open>A web connection over TLS: its handshake, and what serving HTTP on it comes to.\<close>

datatype HttpsAccept = HttpsTimedOut | HttpsFailed string | HttpsServed "string option"

definition https_connection :: "HttpsAccept \<Rightarrow> string + unit" where
  "https_connection accepted =
     (case accepted of
        HttpsTimedOut \<Rightarrow> Inl ''HTTPS ingress handshake timed out''
      | HttpsFailed e \<Rightarrow> Inl e
      | HttpsServed (Some e) \<Rightarrow> Inl (''HTTPS ingress connection failed: '' @ e)
      | HttpsServed None \<Rightarrow> Inr ())"

definition quic_incoming_error :: "bool \<Rightarrow> bool \<Rightarrow> string option" where
  "quic_incoming_error handshake opened =
     (if \<not> handshake then Some ''QUIC handshake failed''
      else if \<not> opened then Some ''client did not open a control stream'' else None)"

text \<open>The connection's task: the result that is logged, \<open>None\<close> while the handler waits.\<close>

definition handle_connection ::
  "bool \<Rightarrow> Externals \<Rightarrow> Peer \<Rightarrow> string option \<Rightarrow> ControlInput list \<Rightarrow> AppState \<Rightarrow>
     (string + unit) option \<times> AppState" where
  "handle_connection quic X peer early inputs st =
     (case early of
        Some e \<Rightarrow> (Some (Inl e), st)
      | None \<Rightarrow>
          (case run_events (\<lambda>(co, st) i. handler_step quic X peer i co st) (new_connection, st) inputs of
             (co, st) \<Rightarrow> (case co_phase co of Ended r \<Rightarrow> Some r | _ \<Rightarrow> None, st)))"

section \<open>The control API's listener and its shutdown\<close>

datatype ApiSelect = ApiAccept "string + nat" | CtrlC

text \<open>The loop: the connections whose tasks were spawned, and the end of the loop.\<close>

fun api_loop :: "ApiSelect list \<Rightarrow> nat list \<times> (string + unit) option" where
  "api_loop [] = ([], None)"
| "api_loop (ApiAccept (Inl e) # selects) = ([], Some (Inl ''control API accept failed''))"
| "api_loop (ApiAccept (Inr connection) # selects) =
     (case api_loop selects of (tasks, end_result) \<Rightarrow> (connection # tasks, end_result))"
| "api_loop (CtrlC # selects) = ([], Some (Inr ()))"

definition DRAIN_TIMEOUT_MS :: nat where
  "DRAIN_TIMEOUT_MS = 5000"

text \<open>
  The drain: \<open>join_next\<close> under the timeout, until no task is left. \<open>ends\<close> are the tasks in the
  order in which they end, each with its milliseconds after the start of the drain; a task that
  is not among them never ends. A task is a connection: one that is kept alive without a
  request ends only when the visitor closes it. The value is the time the drain takes and the
  tasks it aborts.
\<close>

fun drain :: "nat \<Rightarrow> nat list \<Rightarrow> (nat \<times> nat) list \<Rightarrow> nat \<times> nat list" where
  "drain elapsed [] ends = (elapsed, [])"
| "drain elapsed tasks [] = (DRAIN_TIMEOUT_MS, tasks)"
| "drain elapsed tasks ((connection, ended_at) # ends) =
     (if ended_at > DRAIN_TIMEOUT_MS then (DRAIN_TIMEOUT_MS, tasks)
      else drain (max elapsed ended_at) (remove1 connection tasks) ends)"

record ApiRun =
  ar_result :: "string + unit"
  ar_served :: "nat list"
  ar_drain_ms :: nat
  ar_aborted :: "nat list"

text \<open>A failed accept leaves the function at once; its tasks are dropped with the join set.\<close>

definition run_api :: "string \<Rightarrow> bool \<Rightarrow> (nat \<times> nat) list \<Rightarrow> ApiSelect list \<Rightarrow> ApiRun option" where
  "run_api address bound ends selects =
     (if \<not> bound then
        Some \<lparr>ar_result = Inl (''failed to bind control API at '' @ address), ar_served = [], ar_drain_ms = 0, ar_aborted = []\<rparr>
      else case api_loop selects of
        (tasks, None) \<Rightarrow> None
      | (tasks, Some (Inl e)) \<Rightarrow> Some \<lparr>ar_result = Inl e, ar_served = tasks, ar_drain_ms = 0,
            ar_aborted = filter (\<lambda>c. (c, 0) \<notin> set ends) tasks\<rparr>
      | (tasks, Some (Inr _)) \<Rightarrow>
          (case drain 0 tasks ends of
             (elapsed, dropped) \<Rightarrow>
               Some \<lparr>ar_result = Inr (), ar_served = tasks, ar_drain_ms = elapsed, ar_aborted = dropped\<rparr>))"

section \<open>Supervision\<close>

text \<open>What a listener task had come to when it was aborted: nothing yet, or its result.\<close>

definition listener_warning :: "string \<Rightarrow> (string + unit) option \<Rightarrow> string list" where
  "listener_warning name end_result = (case end_result of Some (Inl e) \<Rightarrow> [name @ '' listener stopped''] | _ \<Rightarrow> [])"

record ListenerEnds =
  le_quic :: "(string + unit) option"
  le_tcp_tls :: "(string + unit) option"
  le_http :: "(string + unit) option option"
  le_https :: "(string + unit) option option"

text \<open>
  \<open>run\<close>: the listeners of persisted leases first, then the tasks, then the API until it
  returns, then the others are aborted and their errors logged. \<open>api\<close> is what \<open>run_api\<close> does.
  The value is the result and the warnings, \<open>None\<close> while the API runs.
\<close>

definition run_server ::
  "Externals \<Rightarrow> Env \<Rightarrow> ListenerEnds \<Rightarrow> ApiRun option \<Rightarrow> AppState \<Rightarrow> ((string + unit) \<times> string list) option" where
  "run_server X E ends api st =
     (case start_server X E st of
        (Inl e, _) \<Rightarrow> Some (Inl e, [])
      | (Inr _, _) \<Rightarrow>
          (case api of
             None \<Rightarrow> None
           | Some a \<Rightarrow>
               Some (ar_result a,
                 listener_warning ''QUIC'' (le_quic ends) @ listener_warning ''TCP/TLS'' (le_tcp_tls ends) @
                 (case le_http ends of None \<Rightarrow> [] | Some r \<Rightarrow> listener_warning ''HTTP ingress'' r) @
                 (case le_https ends of None \<Rightarrow> [] | Some r \<Rightarrow> listener_warning ''HTTPS ingress'' r))))"

end
