(* ===== verification/Launch.thy ===== *)
theory Launch
  imports Listeners
begin

text \<open>
  The server's command line, \<open>run_cli\<close> of \<open>crates/ongrok-relay-server/src/server.rs\<close> with
  \<open>validate_tls_material\<close> of \<open>config.rs\<close>: the commands \<open>init\<close>, \<open>doctor\<close>, \<open>token create\<close>
  and \<open>run\<close>. Files, PEM parsing, rustls and the random bytes are arguments.
\<close>

section \<open>TLS material\<close>

text \<open>
  What reading and using a path's file comes to: the contents, the certificates and the key the
  PEM parser finds (\<open>None\<close>: it fails), and whether rustls takes them.
\<close>

record TlsFiles =
  tm_open :: "string \<Rightarrow> bytes option"
  tm_certs :: "bytes \<Rightarrow> bytes list option"
  tm_key :: "bytes \<Rightarrow> bytes option option"
  tm_versions :: bool
  tm_matches :: "bytes list \<Rightarrow> bytes \<Rightarrow> bool"
  tm_quic :: "bytes list \<Rightarrow> bytes \<Rightarrow> bool"

definition validate_tls_material :: "TlsFiles \<Rightarrow> string \<Rightarrow> string \<Rightarrow> string + bytes list \<times> bytes" where
  "validate_tls_material T cert_path key_path =
     result_bind (ok_or (''failed to open '' @ cert_path) (tm_open T cert_path)) (\<lambda>cert_file.
     result_bind (ok_or ''failed to parse TLS certificate chain'' (tm_certs T cert_file)) (\<lambda>certificates.
     if certificates = [] then Inl ''TLS certificate chain is empty''
     else
       result_bind (ok_or (''failed to open '' @ key_path) (tm_open T key_path)) (\<lambda>key_file.
       result_bind (ok_or ''failed to parse TLS private key'' (tm_key T key_file)) (\<lambda>parsed.
       result_bind (ok_or ''TLS private key is missing'' parsed) (\<lambda>key.
       if \<not> tm_versions T then Inl ''failed to configure TLS protocol versions''
       else if \<not> tm_matches T certificates key then Inl ''TLS certificate and private key do not match''
       else if \<not> tm_quic T certificates key then Inl ''failed to configure QUIC TLS''
       else Inr (certificates, key))))))"

section \<open>Commands\<close>

datatype ServerCommand =
    ServerInit string
  | ServerDoctor string string string
  | TokenCreate TokenKind
  | ServerRun RunOptions

text \<open>The configuration errors as \<open>bail!\<close> words them; \<open>show_address\<close> prints an address.\<close>

fun config_message :: "(SocketAddr \<Rightarrow> string) \<Rightarrow> ConfigError \<Rightarrow> string" where
  "config_message show_address PortRangeReversed = ''tcp port start must not exceed tcp port end''"
| "config_message show_address DomainRequired =
     ''--http-domain is required when --http-listen or --https-listen is configured''"
| "config_message show_address InvalidDomain = ''--http-domain must be a non-empty hostname without whitespace''"
| "config_message show_address (SameAddress left right address) =
     left @ '' and '' @ right @ '' listeners use the same TCP address '' @ show_address address"

text \<open>
  What a command meets. The database file of \<open>init\<close> and \<open>run\<close> starts as \<open>ma_database\<close>;
  \<open>ma_exists\<close> and \<open>ma_openable\<close> are \<open>doctor\<close>'s two checks of it.
\<close>

record Machine =
  ma_tls :: TlsFiles
  ma_exists :: "string \<Rightarrow> bool"
  ma_openable :: "string \<Rightarrow> bool"
  ma_database :: Database
  ma_open_fault :: "open_fault option"
  ma_db_fault :: "nat \<Rightarrow> db_fault option"
  ma_random :: "nat \<Rightarrow> bytes"
  ma_env :: Env
  ma_show_address :: "SocketAddr \<Rightarrow> string"
  ma_listeners :: ListenerEnds
  ma_api :: "ApiRun option"

text \<open>The end of a command and what it printed; \<open>None\<close>: the server is running.\<close>

type_synonym CommandEnd = "(string + unit) option \<times> string list"

definition run_config :: "RunOptions \<Rightarrow> RunConfig" where
  "run_config options =
     \<lparr>rc_public_host = ro_public_host options, rc_http_domain = ro_http_domain options,
      rc_tcp_port_start = ro_tcp_port_start options, rc_tcp_port_end = ro_tcp_port_end options,
      rc_admin_token = ro_admin_token options, rc_user_token = ro_user_token options\<rparr>"

definition open_and_load :: "Externals \<Rightarrow> Machine \<Rightarrow> RunOptions \<Rightarrow> string + AppState" where
  "open_and_load X m options =
     result_bind (store_open (ro_db_path options) (ma_open_fault m) (ma_database m)) (\<lambda>d.
       load_state X (run_config options) (ma_db_fault m 0) (ma_db_fault m 1) (ma_db_fault m 2) (ma_db_fault m 3) d)"

fun run_cli :: "Externals \<Rightarrow> Machine \<Rightarrow> ServerCommand \<Rightarrow> CommandEnd" where
  "run_cli X m (ServerInit db_path) =
     (case store_open db_path (ma_open_fault m) (ma_database m) of
        Inl e \<Rightarrow> (Some (Inl e), [])
      | Inr _ \<Rightarrow>
          (Some (Inr ()),
           [''database='' @ db_path,
            ''admin_token='' @ fst (generate_token (x_blake3 X) (ma_random m 0) Admin),
            ''user_token='' @ fst (generate_token (x_blake3 X) (ma_random m 1) User)]))"
| "run_cli X m (ServerDoctor tls_cert tls_key db_path) =
     (case validate_tls_material (ma_tls m) tls_cert tls_key of
        Inl e \<Rightarrow> (Some (Inl e), [])
      | Inr _ \<Rightarrow>
          if \<not> ma_exists m db_path then (Some (Inl (''database does not exist: '' @ db_path)), [])
          else if \<not> ma_openable m db_path then (Some (Inl (''failed to open database '' @ db_path)), [])
          else (Some (Inr ()), [''tls=ok'', ''database=ok'']))"
| "run_cli X m (TokenCreate kind) =
     (Some (Inr ()), [fst (generate_token (x_blake3 X) (ma_random m 0) kind)])"
| "run_cli X m (ServerRun options) =
     (case validate_run_options options of
        Inl e \<Rightarrow> (Some (Inl (config_message (ma_show_address m) e)), [])
      | Inr _ \<Rightarrow>
     (case validate_tls_material (ma_tls m) (ro_tls_cert options) (ro_tls_key options) of
        Inl e \<Rightarrow> (Some (Inl e), [])
      | Inr _ \<Rightarrow>
     (case open_and_load X m options of
        Inl e \<Rightarrow> (Some (Inl e), [])
      | Inr st \<Rightarrow> (map_option fst (run_server X (ma_env m) (ma_listeners m) (ma_api m) st), []))))"

section \<open>What a running server rests on\<close>

lemma validate_tls_material_Inr:
  "validate_tls_material T cert_path key_path = Inr (certificates, key) \<longleftrightarrow>
     (\<exists>cert_file key_file. tm_open T cert_path = Some cert_file \<and> tm_certs T cert_file = Some certificates \<and>
        certificates \<noteq> [] \<and> tm_open T key_path = Some key_file \<and> tm_key T key_file = Some (Some key) \<and>
        tm_versions T \<and> tm_matches T certificates key \<and> tm_quic T certificates key)"
  by (auto simp: validate_tls_material_def result_bind_def ok_or_def split: option.splits if_splits)

text \<open>the command \<open>run\<close> serves only with consistent options, a certificate chain and a key
  that match and a readable database, and only after every persisted TCP lease has its listener
  back; whatever fails first is the result, and no listener is started.\<close>

theorem run_serves_only_when_ready:
  assumes "run_cli X m (ServerRun options) = (None, out)"
  shows "validate_run_options options = Inr () \<and>
    (\<exists>tls. validate_tls_material (ma_tls m) (ro_tls_cert options) (ro_tls_key options) = Inr tls) \<and>
    (\<exists>st st'. open_and_load X m options = Inr st \<and> start_server X (ma_env m) st = (Inr (), st') \<and> ma_api m = None)"
  using assms
  by (auto simp: run_server_def split: sum.splits prod.splits option.splits)

text \<open>a listener that cannot be bound or that stops, whichever and however many, neither stops
  the server nor changes its result: the result is the control API's, and the failures are
  warnings after the API has returned.\<close>

theorem listener_failures_unnoticed:
  assumes "start_server X E st = (Inr (), st')"
  shows "map_option fst (run_server X E ends api st) = map_option ar_result api \<and>
    (if api = None then run_server X E ends api st = None else True)"
  using assms by (cases api) (simp_all add: run_server_def)

section \<open>Accepting and shutting down\<close>

fun until_error :: "(string + 'c) list \<Rightarrow> 'c list" where
  "until_error (Inr c # results) = c # until_error results"
| "until_error results = []"

lemma accept_loop_serves:
  "accept_loop failure results =
     (until_error results, if \<exists>e. Inl e \<in> set results then Some (Inl failure) else None)"
  by (induction failure results rule: accept_loop.induct) auto

text \<open>a listener serves every connection accepted before the first failed accept and none
  after it: one failed accept, for instance when the process is out of file descriptors, ends
  the TCP/TLS and the web listeners for good.\<close>

theorem accept_failure_ends_listener:
  "run_tcp_tls address True results =
     (until_error results, if \<exists>e. Inl e \<in> set results then Some (Inl ''TCP/TLS accept failed'') else None) \<and>
   fst (run_tcp_tls address True (results @ [Inl e] @ later)) = until_error results \<and>
   snd (run_tcp_tls address True (results @ [Inl e] @ later)) = Some (Inl ''TCP/TLS accept failed'') \<and>
   fst (run_http_ingress address True (results @ [Inl e] @ later)) = until_error results \<and>
   fst (run_https_ingress address True (results @ [Inl e] @ later)) = until_error results"
proof -
  have "until_error (results @ Inl e # later) = until_error results"
    by (induction results rule: until_error.induct) auto
  then show ?thesis
    by (auto simp: run_tcp_tls_def run_http_ingress_def run_https_ingress_def listen_def accept_loop_serves)
qed

lemma drain_spec:
  assumes "drain elapsed tasks ends = (ms, dropped)" and "sorted (map snd ends)" and "distinct tasks" and "elapsed \<le> 5000"
  shows "elapsed \<le> ms \<and> ms \<le> 5000 \<and>
    (\<forall>c. c \<in> set dropped \<longleftrightarrow> c \<in> set tasks \<and> \<not> (\<exists>t \<le> 5000. (c, t) \<in> set ends)) \<and>
    (if dropped = [] then \<forall>c \<in> set tasks. \<exists>t \<le> ms. (c, t) \<in> set ends else ms = 5000)"
  using assms
proof (induction elapsed tasks ends rule: drain.induct)
  case (3 elapsed task tasks c t ends)
  show ?case
  proof (cases "t > DRAIN_TIMEOUT_MS")
    case True
    with 3 have "ms = 5000" "dropped = task # tasks" "\<forall>p \<in> set ((c, t) # ends). 5000 < snd p"
      by (auto simp: DRAIN_TIMEOUT_MS_def)
    with 3 show ?thesis by fastforce
  next
    case False
    let ?tasks = "remove1 c (task # tasks)"
    have t: "t \<le> 5000" using False by (simp add: DRAIN_TIMEOUT_MS_def)
    have "drain (max elapsed t) ?tasks ends = (ms, dropped)" using 3(2) False by simp
    with 3 False t have IH: "max elapsed t \<le> ms \<and> ms \<le> 5000 \<and>
        (\<forall>d. d \<in> set dropped \<longleftrightarrow> d \<in> set ?tasks \<and> \<not> (\<exists>u \<le> 5000. (d, u) \<in> set ends)) \<and>
        (if dropped = [] then \<forall>d \<in> set ?tasks. \<exists>u \<le> ms. (d, u) \<in> set ends else ms = 5000)"
      by (intro "3.IH") (simp_all add: distinct_remove1 del: remove1.simps)
    have rest: "set ?tasks = set (task # tasks) - {c}" using 3(4) by (rule set_remove1_eq)
    have ended: "(\<exists>u \<le> b. (d, u) \<in> set ((c, t) # ends)) \<longleftrightarrow> d = c \<or> (\<exists>u \<le> b. (d, u) \<in> set ends)" if "t \<le> b" for d b
      using that by auto
    show ?thesis
    proof (intro conjI allI)
      show "elapsed \<le> ms" "ms \<le> 5000" using IH by simp_all
      show "d \<in> set dropped \<longleftrightarrow> d \<in> set (task # tasks) \<and> \<not> (\<exists>u \<le> 5000. (d, u) \<in> set ((c, t) # ends))" for d
        unfolding ended [OF t] using IH rest by blast
      have le: "t \<le> ms" using IH by simp
      show "if dropped = [] then \<forall>d \<in> set (task # tasks). \<exists>u \<le> ms. (d, u) \<in> set ((c, t) # ends) else ms = 5000"
        unfolding ended [OF le] using IH rest by (simp only: simp_thms split: if_splits) blast+
    qed
  qed
qed (auto simp: DRAIN_TIMEOUT_MS_def)

text \<open>a control API asked to stop is gone within five seconds. The connections it cuts off are
  those that had not ended by then, idle or not: it waits the five seconds for one that is kept
  open without a request, and without such a one it is gone when the last has ended.\<close>

theorem shutdown_is_bounded:
  assumes "run_api address True ends selects = Some a" and "ar_result a = Inr ()"
    and "distinct (ar_served a)" and "sorted (map snd ends)"
  shows "ar_drain_ms a \<le> 5000 \<and>
    (\<forall>c. c \<in> set (ar_aborted a) \<longleftrightarrow> c \<in> set (ar_served a) \<and> \<not> (\<exists>t \<le> 5000. (c, t) \<in> set ends)) \<and>
    (if ar_aborted a = [] then \<forall>c \<in> set (ar_served a). \<exists>t \<le> ar_drain_ms a. (c, t) \<in> set ends
     else ar_drain_ms a = 5000)"
proof -
  have "drain 0 (ar_served a) ends = (ar_drain_ms a, ar_aborted a)"
    using assms(1,2) by (auto simp: run_api_def split: prod.splits option.splits sum.splits)
  from drain_spec [OF this assms(4,3)] show ?thesis by simp
qed

section \<open>The tokens of later starts\<close>

text \<open>C29: the tokens on the command line or in the environment count on the first start with a
  database only. From then on every start has the stored ones, so changing the configured tokens
  neither admits the new ones nor shuts out the old.\<close>

theorem first_tokens_stay:
  assumes "load_or_initialize_tokens X None None admin user d = (Inr tokens, d')"
    and "reads_back (x_tokens X) tokens"
  shows "load_or_initialize_tokens X None None admin' user' d' = (Inr tokens, d')"
proof (cases "\<exists>t v. d TOKENS_TABLE = Some t \<and> bt_get t TOKEN_STATE_KEY = Some v")
  case True
  then show ?thesis
    using assms(1) by (auto simp: load_or_initialize_tokens_def read_table_def)
next
  case False
  then obtain t where t: "d TOKENS_TABLE = Some t" "bt_get t TOKEN_STATE_KEY = None"
      "put_tokens X None \<lparr>ts_admin_hash = Some admin, ts_user_hash = Some user\<rparr> d = (Inr (), d')"
      "tokens = \<lparr>ts_admin_hash = Some admin, ts_user_hash = Some user\<rparr>"
    using assms(1) by (auto simp: load_or_initialize_tokens_def read_table_def Let_def split: option.splits prod.splits sum.splits)
  then obtain p where p: "to_allocvec (x_tokens X) tokens = Inr p"
      "d' = d(TOKENS_TABLE \<mapsto> bt_insert TOKEN_STATE_KEY p t)"
    by (auto simp: put_tokens_def encode_with_def map_error_Inr_iff write_txn_def table_for_write_def split: sum.splits)
  with assms(2) have "from_bytes (x_tokens X) p = Inr tokens" by (simp add: reads_back_def)
  with p show ?thesis
    by (simp add: load_or_initialize_tokens_def read_table_def decode_with_def)
qed

section \<open>Witnesses\<close>

definition sample_tls :: TlsFiles where
  "sample_tls = \<lparr>tm_open = (\<lambda>path. Some [1]), tm_certs = (\<lambda>_. Some [[2]]), tm_key = (\<lambda>_. Some (Some [3])),
     tm_versions = True, tm_matches = (\<lambda>_ _. True), tm_quic = (\<lambda>_ _. True)\<rparr>"

definition sample_options :: RunOptions where
  "sample_options = \<lparr>ro_tls_cert = ''c'', ro_tls_key = ''k'', ro_api_listen = SocketV4 1 8080,
     ro_quic_listen = SocketV4 0 443, ro_tcp_tls_listen = SocketV4 0 443, ro_http_listen = None,
     ro_https_listen = None, ro_http_domain = None, ro_public_host = ''relay'', ro_tcp_port_start = 20000,
     ro_tcp_port_end = 20001, ro_admin_token = [CHR 0x01], ro_user_token = [CHR 0x02], ro_db_path = ''db''\<rparr>"

definition sample_machine :: Machine where
  "sample_machine = \<lparr>ma_tls = sample_tls, ma_exists = (\<lambda>_. True), ma_openable = (\<lambda>_. True),
     ma_database = empty_database, ma_open_fault = None, ma_db_fault = (\<lambda>_. None), ma_random = (\<lambda>_. []),
     ma_env = sample_env, ma_show_address = (\<lambda>_. []),
     ma_listeners = \<lparr>le_quic = Some (Inl ''in use''), le_tcp_tls = None, le_http = None, le_https = None\<rparr>,
     ma_api = None\<rparr>"

lemma sample_tokens_first:
  "\<exists>d. load_or_initialize_tokens sample_externals None None [1] [2] empty_database = (Inr sample_tokens, d)"
  by (simp add: load_or_initialize_tokens_def read_table_def empty_database_def table_names_def table_defs
      put_tokens_def encode_with_def sample_externals_def listed_def sample_tokens_def write_txn_def Let_def)

lemma sample_load:
  "\<exists>st. open_and_load sample_externals sample_machine sample_options = Inr st \<and> st_services st = []"
proof -
  have "store_open ''db'' None empty_database = Inr empty_database"
    by (auto simp: store_open_def empty_database_def table_for_write_def fun_eq_iff)
  moreover have "load_services X None empty_database = Inr []" "load_nodes X None empty_database = Inr []" for X
    using services_durable_load [OF empty_database_durable]
    by (simp_all add: load_nodes_def read_table_def empty_database_def table_names_def table_defs bt_from_list_def)
  moreover have "hash_token (x_blake3 sample_externals) [CHR 0x01] = [1]" "hash_token (x_blake3 sample_externals) [CHR 0x02] = [2]"
    by (simp_all add: hash_token_def sample_externals_def string_bytes_def)
  ultimately show ?thesis
    using sample_tokens_first
    by (auto simp: open_and_load_def sample_machine_def sample_options_def run_config_def load_state_def initial_state_def)
qed

lemma sample_run: "run_cli sample_externals sample_machine (ServerRun sample_options) = (None, [])"
proof -
  have "validate_run_options sample_options = Inr ()"
    by (simp add: validate_run_options_def sample_options_def tcp_listeners_def wildcard_def)
  moreover have "\<exists>tls. validate_tls_material (ma_tls sample_machine) (ro_tls_cert sample_options) (ro_tls_key sample_options) = Inr tls"
    by (simp add: validate_tls_material_def sample_machine_def sample_tls_def)
  ultimately show ?thesis
    using sample_load
    by (auto simp: run_server_def start_server_def persisted_tcp_services_def bt_values_def sample_machine_def)
qed

theorem run_serves_only_when_ready_witness:
  "validate_run_options sample_options = Inr () \<and>
   (\<exists>st st'. open_and_load sample_externals sample_machine sample_options = Inr st \<and>
      start_server sample_externals sample_env st = (Inr (), st'))"
  using run_serves_only_when_ready [OF sample_run] by (auto simp: sample_machine_def)

theorem listener_failures_unnoticed_witness:
  "map_option fst (run_server sample_externals sample_env (ma_listeners sample_machine)
     (Some \<lparr>ar_result = Inr (), ar_served = [], ar_drain_ms = 0, ar_aborted = []\<rparr>) sample_state) = Some (Inr ())"
proof -
  have "start_server sample_externals sample_env sample_state = (Inr (), sample_state)"
    by (simp add: start_server_def persisted_tcp_services_def sample_state_def bt_values_def)
  from listener_failures_unnoticed [OF this] show ?thesis by simp
qed

theorem shutdown_is_bounded_witness:
  "\<exists>a. run_api ''a'' True [(1, 30)] [ApiAccept (Inr 1), ApiAccept (Inr 2), CtrlC] = Some a \<and>
     ar_drain_ms a = 5000 \<and> set (ar_aborted a) = {2}"
proof -
  let ?r = "run_api ''a'' True [(1, 30)] [ApiAccept (Inr 1), ApiAccept (Inr 2), CtrlC]"
  obtain a where a: "?r = Some a" "ar_result a = Inr ()" "ar_served a = [1, 2]"
    by (simp add: run_api_def case_prod_beta)
  then have "distinct (ar_served a)" "sorted (map snd [(1::nat, 30::nat)])" by simp_all
  note bounded = shutdown_is_bounded [OF a(1,2) this]
  have "(\<exists>t \<le> 5000. (c, t) \<in> set [(1::nat, 30::nat)]) \<longleftrightarrow> c = 1" for c by auto
  with bounded a(3) have set: "set (ar_aborted a) = {2}" by (auto simp only: set_simps)
  then have "ar_aborted a \<noteq> []" by force
  with bounded have "ar_drain_ms a = 5000" by presburger
  with a(1) set show ?thesis by blast
qed

theorem first_tokens_stay_witness:
  "\<exists>d. load_or_initialize_tokens sample_externals None None [7] [8] d = (Inr sample_tokens, d)"
proof -
  obtain d where d: "load_or_initialize_tokens sample_externals None None [1] [2] empty_database = (Inr sample_tokens, d)"
    using sample_tokens_first by blast
  have "reads_back (x_tokens sample_externals) sample_tokens"
    unfolding sample_externals_def by (simp add: listed_reads_back)
  from first_tokens_stay [OF d this] show ?thesis by blast
qed

end
