(* ===== verification/Lifetimes.thy ===== *)
theory Lifetimes
  imports Launch System_Props
begin

text \<open>
  A database over several lives of the server: the command \<open>run\<close> of \<open>server.rs\<close> on a fresh
  database, the events of that life, and again \<open>run\<close> on what it left. What the directory keeps
  through restarts, which rests on the services table holding what the map holds, and what it
  loses when a write of that table has failed.
\<close>

section \<open>Starting, stopping, starting again\<close>

text \<open>The way \<open>run_cli\<close> and \<open>run\<close> come to a state that serves.\<close>

definition start_up :: "Externals \<Rightarrow> Machine \<Rightarrow> RunOptions \<Rightarrow> string + AppState" where
  "start_up X m options =
     result_bind (open_and_load X m options) (\<lambda>st.
       case start_server X (ma_env m) st of (Inl e, _) \<Rightarrow> Inl e | (Inr _, st) \<Rightarrow> Inr st)"

text \<open>An event whose handler has its writes of the services table succeed.\<close>

definition services_written :: "Env \<Rightarrow> bool" where
  "services_written E \<longleftrightarrow> e_db E CallPutService = None \<and> e_db E CallDeleteService = None"

fun event_written :: "Event \<Rightarrow> bool" where
  "event_written (Accepted c quic ip port) = True"
| "event_written (ControlRead c i) = services_written (in_env i)"
| "event_written (ApiCall J E raw request) = services_written E"
| "event_written (IngressCall J E raw parse_name F r protocol) = services_written E"

text \<open>
  The servers of all lives of one database, under options that \<open>allowed\<close> admits. The flag tells
  whether every write of the services table has succeeded; a next life is followed only then.
  A life may end after any event.
\<close>

inductive lives :: "Externals \<Rightarrow> (RunOptions \<Rightarrow> bool) \<Rightarrow> bool \<Rightarrow> Server \<Rightarrow> bool" for X allowed where
  first: "allowed options \<Longrightarrow> ma_database m = (\<lambda>_. None) \<Longrightarrow> start_up X m options = Inr st \<Longrightarrow>
    lives X allowed True (boot st)"
| event: "lives X allowed written s \<Longrightarrow> lives X allowed (written \<and> event_written e) (server_step X s e)"
| again: "lives X allowed True s \<Longrightarrow> allowed options \<Longrightarrow> ma_database m = st_store (se_state s) \<Longrightarrow>
    start_up X m options = Inr st \<Longrightarrow> lives X allowed True (boot st)"

text \<open>What the libraries promise: distinct identifiers print differently, and a service is written
  and read back.\<close>

definition services_encode :: "Externals \<Rightarrow> bool" where
  "services_encode X \<longleftrightarrow> inj (x_uuid_string X) \<and>
     (\<forall>s. \<exists>p. to_allocvec (x_service X) s = Inr p \<and> from_bytes (x_service X) p = Inr s)"

section \<open>The table holds what the map holds\<close>

definition stored :: "Externals \<Rightarrow> AppState \<Rightarrow> bool" where
  "stored X st \<longleftrightarrow> services_durable X (st_store st) (st_services st)"

definition same_services :: "AppState \<Rightarrow> AppState \<Rightarrow> bool" where
  "same_services st st' \<longleftrightarrow> st_services st' = st_services st \<and>
     st_store st' SERVICES_TABLE = st_store st SERVICES_TABLE"

lemma stored_same: "stored X st \<Longrightarrow> same_services st st' \<Longrightarrow> stored X st'"
  by (simp add: stored_def same_services_def services_durable_def)

lemma same_services_refl [simp]: "same_services st st"
  by (simp add: same_services_def)

lemma same_services_trans: "same_services st st' \<Longrightarrow> same_services st' st'' \<Longrightarrow> same_services st st''"
  by (simp add: same_services_def)

lemma other_tables [simp]:
  "snd (put_node X f n d) SERVICES_TABLE = d SERVICES_TABLE"
  "snd (put_metric X f me d) SERVICES_TABLE = d SERVICES_TABLE"
  "snd (put_tokens X f ts d) SERVICES_TABLE = d SERVICES_TABLE"
  by (simp_all add: table_defs atomic_other [OF store_atomic(3)] atomic_other [OF store_atomic(4)]
      atomic_other [OF store_atomic(5)])

lemma services_not_events [simp]: "SERVICES_TABLE \<noteq> EVENTS_TABLE"
  by (simp add: table_defs)

lemma event_keeps_services [simp]: "same_services st (record_event X E k ek n s t st') = same_services st st'"
  by (simp add: same_services_def)

lemma record_heartbeat_services: "same_services st (snd (record_heartbeat X E n h st))"
  by (simp add: same_services_def record_heartbeat_def Let_def case_prod_beta split: option.split sum.split)

lemma register_node_services: "same_services st (snd (register_node tr X E peer pr m k st))"
  by (simp add: same_services_def register_node_def Let_def case_prod_beta split: sum.split)

lemma end_session_services: "same_services st (snd (end_session X E pr st))"
  by (simp add: same_services_def end_session_def Let_def case_prod_beta split: sum.split option.split)

lemma persist_offline_services: "same_services st (snd (persist_offline X E k ns st))"
proof (induction ns arbitrary: k st)
  case (Cons n ns)
  obtain r d where put: "put_node X (e_db E (CallPutNode k)) n (st_store st) = (r, d)" by fastforce
  then have "d SERVICES_TABLE = st_store st SERVICES_TABLE" using other_tables(1) by (metis snd_conv)
  then have d: "same_services st (st\<lparr>st_store := d\<rparr>)" by (simp add: same_services_def)
  show ?case
  proof (cases r)
    case (Inl e)
    with put d show ?thesis by simp
  next
    case (Inr u)
    from d have "same_services st (record_event X E k NodeOffline (Some (nr_node_id n)) None None (st\<lparr>st_store := d\<rparr>))"
      by simp
    from same_services_trans [OF this Cons.IH] put Inr show ?thesis by simp
  qed
qed simp

lemma replace_token_services: "same_services st (snd (replace_token X E k h st))"
proof -
  obtain r d where put: "put_tokens X (e_db E CallPutTokens) (token_set (st_tokens st) k h) (st_store st) = (r, d)" by fastforce
  then have d: "d SERVICES_TABLE = st_store st SERVICES_TABLE" using other_tables(3) by (metis snd_conv)
  have "same_services st st' \<Longrightarrow> same_services st (snd (persist_offline X E 1 ns st'))" for st' ns
    by (rule same_services_trans [OF _ persist_offline_services])
  with put d show ?thesis
    by (cases r) (simp_all add: replace_token_def Let_def same_services_def)
qed

section \<open>The operations on services\<close>

lemma stored_put:
  assumes "services_encode X" and "services_durable X d m"
  shows "\<exists>d'. put_service X None s d = (Inr (), d') \<and> services_durable X d' (bt_insert (sd_service_id s) s m)"
proof -
  from assms(1) obtain p where p: "to_allocvec (x_service X) s = Inr p" "from_bytes (x_service X) p = Inr s"
    unfolding services_encode_def by blast
  then have "reads_back (x_service X) s" by (simp add: reads_back_def)
  with put_service_durable [OF _ assms(2) p(1)] assms(1) show ?thesis
    unfolding services_encode_def by metis
qed

lemma stored_delete:
  assumes "services_encode X" and "services_durable X d m"
  shows "\<exists>d'. delete_service X None i d = (Inr (), d') \<and> services_durable X d' (bt_remove i m)"
  using delete_service_durable [OF _ assms(2)] assms(1) unfolding services_encode_def by metis

lemma stored_after:
  assumes "services_durable X d (st_services st')" and "st_store st' SERVICES_TABLE = d SERVICES_TABLE"
  shows "stored X st'"
  using assms by (simp add: stored_def services_durable_def)

lemma register_service_stored:
  assumes "services_encode X" and "services_written E" and "stored X st"
  shows "stored X (snd (register_service X E service n st))"
proof (cases rule: register_service_cases [of st service n X E])
  case (rejected e)
  with assms(3) show ?thesis by simp
next
  case (unstored s e d)
  have False
    using stored_put [OF assms(1) assms(3) [unfolded stored_def], of s] unstored(2) assms(2)
    by (simp add: services_written_def)
  then show ?thesis ..
next
  case (unbound s d e st')
  let ?st = "st\<lparr>st_services := bt_insert (sd_service_id s) s (st_services st), st_store := d\<rparr>"
  have d: "services_durable X d (bt_insert (sd_service_id s) s (st_services st))"
    using stored_put [OF assms(1) assms(3) [unfolded stored_def], of s] unbound(2) assms(2)
    by (auto simp: services_written_def)
  have st': "st_services st' = bt_insert (sd_service_id s) s (st_services st)" "st_store st' = d"
    using ensure_tcp_ingress_frame(3,10) [of E s ?st] unfolding unbound(4) by simp_all
  obtain d' where "delete_service X None (sd_service_id s) d = (Inr (), d')"
      "services_durable X d' (bt_remove (sd_service_id s) (bt_insert (sd_service_id s) s (st_services st)))"
    using stored_delete [OF assms(1) d] by blast
  with unbound(5) st'(1) assms(2) show ?thesis
    by (simp add: services_written_def stored_def)
next
  case (registered s d st')
  let ?st = "st\<lparr>st_services := bt_insert (sd_service_id s) s (st_services st), st_store := d\<rparr>"
  have d: "services_durable X d (bt_insert (sd_service_id s) s (st_services st))"
    using stored_put [OF assms(1) assms(3) [unfolded stored_def], of s] registered(2) assms(2)
    by (auto simp: services_written_def)
  have "st' = (if sd_protocol s = Tcp then snd (ensure_tcp_ingress E s ?st) else ?st)"
    using registered(3) by (auto split: if_splits)
  then have st': "st_services st' = bt_insert (sd_service_id s) s (st_services st)" "st_store st' = d" by simp_all
  show ?thesis
    unfolding registered(4) snd_conv
    by (rule stored_after [of X d]) (use d st' in simp_all)
qed

lemma unregister_service_stored:
  assumes "services_encode X" and "services_written E" and "stored X st"
  shows "stored X (snd (unregister_service X E i n st))"
proof -
  obtain d where "delete_service X None i (st_store st) = (Inr (), d)" "services_durable X d (bt_remove i (st_services st))"
    using stored_delete [OF assms(1) assms(3) [unfolded stored_def]] by blast
  with assms(2,3) show ?thesis
    by (auto simp: unregister_service_def services_written_def Let_def split: option.split
        intro!: stored_after [of X d])
qed

lemma service_delete_stored:
  assumes "services_encode X" and "services_written E" and "stored X st"
  shows "stored X (snd (service_delete X E i st))"
proof -
  obtain d where "delete_service X None i (st_store st) = (Inr (), d)" "services_durable X d (bt_remove i (st_services st))"
    using stored_delete [OF assms(1) assms(3) [unfolded stored_def]] by blast
  with assms(2,3) show ?thesis
    by (auto simp: service_delete_def services_written_def Let_def split: option.split
        intro!: stored_after [of X d])
qed

lemma service_patch_stored:
  assumes "services_encode X" and "services_written E" and "stored X st"
  shows "stored X (snd (service_patch X J E i request st))"
proof (cases "bt_get (st_services st) i")
  case None
  with assms(3) show ?thesis
    by (simp add: service_patch_def split: sum.split option.split)
next
  case (Some s)
  have id: "sd_service_id s = i"
    using assms(3) Some by (auto simp: stored_def services_durable_def table_mirrors_def)
  have "\<exists>D. \<forall>md. put_service X None (s\<lparr>sd_metadata := md\<rparr>) (st_store st) = (Inr (), D md) \<and>
      services_durable X (D md) (bt_insert i (s\<lparr>sd_metadata := md\<rparr>) (st_services st))"
    using stored_put [OF assms(1) assms(3) [unfolded stored_def]] id
    by (intro choice allI) (metis ServiceDefinition.select_convs(1) ServiceDefinition.surjective ServiceDefinition.update_convs(8))
  then obtain D where D: "\<And>md. put_service X None (s\<lparr>sd_metadata := md\<rparr>) (st_store st) = (Inr (), D md)"
      "\<And>md. services_durable X (D md) (bt_insert i (s\<lparr>sd_metadata := md\<rparr>) (st_services st))"
    by blast
  with Some assms(2,3) show ?thesis
    by (auto simp: service_patch_def services_written_def stored_def Let_def split: sum.split option.split)
qed

section \<open>Every event keeps the table\<close>

text \<open>A frame of the loop, a handler's step, an API call, an event.\<close>

lemma yamux_frame_stored:
  assumes "services_encode X" and "services_written E" and "stored X st"
  shows "stored X (snd (snd (snd (yamux_frame X E io peer pr f registered sent st))))"
  using register_service_stored [OF assms] unregister_service_stored [OF assms] assms(3)
    stored_same [OF assms(3) register_node_services] stored_same [OF assms(3) record_heartbeat_services]
  by (cases f) (simp_all add: yamux_frame_def case_prod_beta split: sum.split)

lemma quic_frame_stored:
  assumes "services_encode X" and "services_written E" and "stored X st"
  shows "stored X (snd (snd (snd (quic_frame X E io peer pr f registered sent st))))"
proof (cases "\<exists>m k. f = RegisterNode m k")
  case True
  with stored_same [OF assms(3) register_node_services] show ?thesis
    by (auto simp: quic_frame_def case_prod_beta split: sum.split)
next
  case False
  then show ?thesis using yamux_frame_stored [OF assms] quic_frame_yamux by metis
qed

lemma handler_step_stored:
  assumes "services_encode X" and "services_written (in_env i)" and "stored X st"
  shows "stored X (snd (handler_step q X peer i co st))"
proof (cases "co_phase co")
  case (Serving pr registered)
  note ended = stored_same [OF _ end_session_services]
  note served = yamux_frame_stored [OF assms] quic_frame_stored [OF assms]
  have "stored X (snd (yamux_step X peer i co st))" "stored X (snd (quic_step X peer i co st))"
    using Serving
    by (simp_all add: yamux_step_def quic_step_def yamux_finish_def quic_finish_def case_prod_beta ended
        served assms(3) split: sum.split LoopOutcome.split)
  then show ?thesis by (simp add: handler_step_def)
qed (simp_all add: handler_step_handshake assms(3))

lemma api_handler_stored:
  assumes "services_encode X" and "services_written E" and "stored X st"
  shows "stored X (snd (api_handler X J E raw request st))"
proof (cases rule: api_handler_cases [of request X J E raw st])
  case tokens
  then show ?thesis
    using assms(3) stored_same [OF assms(3) replace_token_services]
      stored_same [OF assms(3), of "record_event X E 0 ek None None (Some k) (snd (replace_token X E k h st))" for ek k h]
    by (simp add: token_route_def case_prod_beta generate_token_def Let_def replace_token_services split: sum.split)
next
  case create
  with register_service_stored [OF assms] assms(3) show ?thesis
    by (simp add: service_create_route_def case_prod_beta split: sum.split option.split)
next
  case (item key r)
  have "stored X (snd r)"
    using item(2) service_delete_stored [OF assms] service_patch_stored [OF assms] assms(3)
    by (auto simp: service_item_route_def split: option.splits if_splits Method.splits)
  with item(3) show ?thesis by simp
qed (simp add: assms(3))

lemma server_step_stored:
  assumes "services_encode X" and "stored X (se_state s)" and "event_written e"
  shows "stored X (se_state (server_step X s e))"
proof (cases e)
  case (IngressCall J E raw parse_name F r protocol)
  with assms api_handler_stored [OF assms(1) _ assms(2)] show ?thesis
    by (simp add: server_step_def http_ingress_handler_def case_prod_beta split: sum.split)
qed (use assms api_handler_stored handler_step_stored in
    \<open>simp_all add: server_step_def case_prod_beta split: option.split\<close>)

section \<open>What a start finds\<close>

lemma read_items_bad:
  "read_items wanted dec msg bad t = Inr rs \<Longrightarrow> read_items wanted dec msg None t = Inr rs"
  by (induction t arbitrary: bad rs)
     (auto simp: result_bind_Inr_iff split: if_splits)

lemma load_services_durable:
  assumes "services_durable X d m" and "load_services X fault d = Inr m'"
  shows "m' = m"
proof -
  from assms(2) have "load_services X None d = Inr m'"
    by (auto simp: load_services_def result_bind_Inr_iff read_table_def bad_item_def
        split: if_splits option.splits dest: read_items_bad)
  with services_durable_load [OF assms(1)] show ?thesis by simp
qed

lemma restore_ingress_frame:
  "st_services (snd (restore_ingress X E ss st)) = st_services st \<and> st_nodes (snd (restore_ingress X E ss st)) = st_nodes st \<and>
   st_sessions (snd (restore_ingress X E ss st)) = st_sessions st \<and> st_store (snd (restore_ingress X E ss st)) = st_store st \<and>
   config_of (snd (restore_ingress X E ss st)) = config_of st \<and>
   (bt_wf (st_tcp_ingress_tasks st) \<longrightarrow> bt_wf (st_tcp_ingress_tasks (snd (restore_ingress X E ss st))))"
proof (induction ss arbitrary: st)
  case (Cons s ss)
  let ?st = "snd (ensure_tcp_ingress E s st)"
  have "restore_ingress X E (s # ss) st =
      (if is_ok (fst (ensure_tcp_ingress E s st)) then restore_ingress X E ss ?st
       else (Inl (''failed to restore TCP ingress for persisted service '' @ id_string X (sd_service_id s)), ?st))"
    by (simp add: case_prod_beta split: sum.split)
  with Cons.IH [of ?st] show ?case
    by (simp add: config_of_def ensure_tcp_ingress_wf)
qed simp

text \<open>A start: the services of the table and nothing else of an earlier life but nodes and tokens.\<close>

definition config_of_options :: "RunOptions \<Rightarrow> string \<times> string option \<times> u16 \<times> u16" where
  "config_of_options options =
     (ro_public_host options, ro_http_domain options, ro_tcp_port_start options, ro_tcp_port_end options)"

lemma load_nodes_keyed: "load_nodes X fault d = Inr nodes \<Longrightarrow>
    bt_wf nodes \<and> (\<forall>i n. bt_get nodes i = Some n \<longrightarrow> nr_node_id n = i)"
  by (auto simp: load_nodes_def result_bind_Inr_iff bt_get_from_list dest!: map_of_SomeD)

lemma tokens_leave_services:
  "snd (load_or_initialize_tokens X f g a u d) SERVICES_TABLE = d SERVICES_TABLE"
  by (simp add: load_or_initialize_tokens_def Let_def case_prod_beta split: sum.split option.split)

lemma start_up_state:
  assumes "start_up X m options = Inr st" and "services_durable X (ma_database m) services \<or> ma_database m = (\<lambda>_. None) \<and> services = []"
  shows "st_services st = services" and "stored X st" and "st_sessions st = []" and "config_of st = config_of_options options"
    and "directory_ok services \<Longrightarrow> registry_inv st"
proof -
  obtain st0 where st0: "open_and_load X m options = Inr st0"
    using assms(1) by (auto simp: start_up_def result_bind_Inr_iff)
  then have st: "restore_ingress X (ma_env m) (persisted_tcp_services st0) st0 = (Inr (), st)"
    using assms(1) by (simp add: start_up_def start_server_def split: prod.splits sum.splits)
  obtain d where d: "store_open (ro_db_path options) (ma_open_fault m) (ma_database m) = Inr d"
    and load: "load_state X (run_config options) (ma_db_fault m 0) (ma_db_fault m 1) (ma_db_fault m 2) (ma_db_fault m 3) d = Inr st0"
    using st0 by (auto simp: open_and_load_def result_bind_Inr_iff)
  have d_services: "services_durable X d services"
    using assms(2) d
    by (auto simp: store_open_def services_durable_def table_for_write_def table_names_def table_mirrors_def split: option.splits open_fault.splits)
  let ?hash = "\<lambda>token. hash_token (x_blake3 X) (token (run_config options))"
  obtain r d1 where found: "load_or_initialize_tokens X (ma_db_fault m 2) (ma_db_fault m 3) (?hash rc_admin_token) (?hash rc_user_token) d = (r, d1)"
    by fastforce
  then obtain svc nodes tokens where parts: "load_services X (ma_db_fault m 0) d = Inr svc" "load_nodes X (ma_db_fault m 1) d = Inr nodes"
      "r = Inr tokens" "st0 = initial_state (run_config options) tokens svc nodes d1"
    using load by (cases r) (auto simp: load_state_def result_bind_Inr_iff)
  have svc: "svc = services" using load_services_durable [OF d_services parts(1)] .
  have d1: "d1 SERVICES_TABLE = d SERVICES_TABLE" using tokens_leave_services found by (metis snd_conv)
  have frame: "st_services st = st_services st0" "st_nodes st = st_nodes st0" "st_sessions st = st_sessions st0"
      "st_store st = st_store st0" "config_of st = config_of st0"
      "bt_wf (st_tcp_ingress_tasks st0) \<longrightarrow> bt_wf (st_tcp_ingress_tasks st)"
    using restore_ingress_frame [of X "ma_env m" "persisted_tcp_services st0" st0] st by simp_all
  show "st_services st = services" using frame(1) parts(4) svc by (simp add: initial_state_def)
  then show "stored X st"
    using d_services d1 frame(4) parts(4) by (simp add: stored_def services_durable_def initial_state_def)
  show "st_sessions st = []" using frame(3) parts(4) by (simp add: initial_state_def)
  show "config_of st = config_of_options options"
    using frame(5) parts(4) by (simp add: config_of_def config_of_options_def initial_state_def run_config_def)
  show "registry_inv st" if "directory_ok services"
    using that frame parts(4) svc load_nodes_keyed [OF parts(2)]
    by (simp add: registry_inv_def maps_ok_def initial_state_def)
qed


section \<open>Every life of a database\<close>

lemma lives_inv:
  assumes "lives X allowed written s" and "services_encode X"
  shows "registry_inv (se_state s) \<and> (written \<longrightarrow> stored X (se_state s))"
  using assms(1)
proof induction
  case (first options m st)
  with start_up_state [of X m options st "[]"] show ?case by (simp add: boot_def)
next
  case (event written s e)
  with server_step_directory [of s X e] server_step_stored [OF assms(2), of s e] show ?case
    by (simp add: directory_inv_def)
next
  case (again s options m st)
  with start_up_state [of X m options st "st_services (se_state s)"] show ?case
    by (simp add: boot_def stored_def registry_inv_def)
qed





section \<open>What a failed write of the table leaves behind\<close>

lemma register_service_table:
  assumes "services_encode X" and "services_written E" and "services_durable X (st_store st) m"
    and "register_service X E service n st = (Inr b, st')"
  shows "register_plan st service n = Inr b \<and> services_durable X (st_store st') (bt_insert (sd_service_id b) b m)"
  using assms(4)
proof (cases rule: register_service_cases [of st service n X E])
  case (registered s d st1)
  let ?st = "st\<lparr>st_services := bt_insert (sd_service_id s) s (st_services st), st_store := d\<rparr>"
  have b: "s = b" and st': "st' = record_event X E 0 ServiceRegistered (Some n) (Some (sd_service_id s)) None st1"
    using registered(4) assms(4) by simp_all
  have "st1 = (if sd_protocol s = Tcp then snd (ensure_tcp_ingress E s ?st) else ?st)"
    using registered(3) by (auto split: if_splits)
  then have "st_store st' SERVICES_TABLE = d SERVICES_TABLE" by (simp add: st')
  moreover have "services_durable X d (bt_insert (sd_service_id s) s m)"
    using stored_put [OF assms(1,3), of s] registered(2) assms(2) by (auto simp: services_written_def)
  ultimately show ?thesis using registered(1) b by (simp add: services_durable_def)
qed (auto split: prod.splits sum.splits)

text \<open>C22: a \<open>DELETE\<close> whose database write fails answers 500, takes the service out of the directory
  all the same and leaves its row. Its name is then free, and when another service has taken it,
  the next start has both: two services of one name, which no check of the start sees.\<close>

theorem failed_delete_revives_name:
  assumes "services_encode X" and "lives X allowed True s"
    and "bt_get (st_services (se_state s)) i = Some a"
    and "e_db E CallDeleteService = Some AtCommit" and "service_delete X E i (se_state s) = (answered, st1)"
    and "services_written E'" and "register_service X E' service n st1 = (Inr b, st2)"
    and "sd_service_name service = sd_service_name a" and "sd_service_id service \<noteq> i"
    and "ma_database m = st_store st2" and "start_up X m options = Inr st3"
  shows "rs_status answered = 500 \<and> bt_get (st_services st1) i = None \<and>
    bt_get (st_services st3) i = Some a \<and> bt_get (st_services st3) (sd_service_id b) = Some b \<and>
    sd_service_id b \<noteq> i \<and> sd_service_name b = sd_service_name a"
proof -
  have dir: "directory_ok (st_services (se_state s))" and stored: "services_durable X (st_store (se_state s)) (st_services (se_state s))"
    using lives_inv [OF assms(2,1)] by (simp_all add: registry_inv_def stored_def)
  have deleted: "rs_status answered = 500" "st_services st1 = bt_remove i (st_services (se_state s))"
      "st_store st1 = st_store (se_state s)"
    using assms(3-5) by (auto simp: service_delete_def Let_def delete_service_def write_txn_def error_json_def json_def
        split: option.splits)
  with stored have "services_durable X (st_store st1) (st_services (se_state s))" by simp
  from register_service_table [OF assms(1,6) this assms(7)]
  have plan: "register_plan st1 service n = Inr b"
    and table: "services_durable X (st_store st2) (bt_insert (sd_service_id b) b (st_services (se_state s)))" by simp_all
  have st3: "st_services st3 = bt_insert (sd_service_id b) b (st_services (se_state s))"
    using start_up_state(1) [OF assms(11)] table assms(10) by simp
  have dir1: "directory_ok (st_services st1)" unfolding deleted(2) using dir by (rule directory_ok_remove)
  have "sd_service_id b \<noteq> i"
  proof (cases "previous_registration st1 service n")
    case None
    with register_plan_kept(6) [OF plan] assms(9) show ?thesis by simp
  next
    case (Some p)
    from previous_registration_Some [OF this] obtain j where "bt_get (st_services st1) j = Some p"
      using directory_okD(1) [OF dir1] by (auto simp: bt_values_iff)
    moreover from this have "sd_service_id p = j" using dir1 directory_okD(2) by blast
    ultimately show ?thesis using register_plan_kept(6) [OF plan] Some deleted(2) by (auto split: if_splits)
  qed
  with deleted st3 assms(3,8) register_plan_kept(1) [OF plan] show ?thesis by simp
qed

section \<open>Visitors of web services\<close>




section \<open>Witnesses\<close>

text \<open>A serializer of services that writes and reads every one.\<close>

type_synonym 'a reader = "bytes \<Rightarrow> 'a \<times> bytes"

definition put_nat :: "nat \<Rightarrow> bytes" where
  "put_nat n = replicate n 1 @ [0]"

fun get_nat :: "nat reader" where
  "get_nat [] = (0, [])"
| "get_nat (b # bs) = (if b = 0 then (0, bs) else case get_nat bs of (n, bs) \<Rightarrow> (Suc n, bs))"

lemma get_put_nat [simp]: "get_nat (put_nat n @ bs) = (n, bs)"
  by (induction n) (simp_all add: put_nat_def)

definition put_list :: "('a \<Rightarrow> bytes) \<Rightarrow> 'a list \<Rightarrow> bytes" where
  "put_list put xs = put_nat (length xs) @ concat (map put xs)"

fun get_many :: "'a reader \<Rightarrow> nat \<Rightarrow> 'a list reader" where
  "get_many get 0 bs = ([], bs)"
| "get_many get (Suc n) bs =
     (case get bs of (x, bs) \<Rightarrow> case get_many get n bs of (xs, bs) \<Rightarrow> (x # xs, bs))"

definition get_list :: "'a reader \<Rightarrow> 'a list reader" where
  "get_list get bs = (case get_nat bs of (n, bs) \<Rightarrow> get_many get n bs)"

lemma get_put_list [simp]:
  assumes "\<And>x bs. get (put x @ bs) = (x, bs)"
  shows "get_list get (put_list put xs @ bs) = (xs, bs)"
proof -
  have "get_many get (length xs) (concat (map put xs) @ bs) = (xs, bs)"
    by (induction xs) (simp_all add: assms)
  then show ?thesis by (simp add: get_list_def put_list_def)
qed

definition put_string :: "string \<Rightarrow> bytes" where
  "put_string = put_list (\<lambda>c. put_nat (of_char c))"

definition get_string :: "string reader" where
  "get_string = get_list (\<lambda>bs. case get_nat bs of (n, bs) \<Rightarrow> (char_of n, bs))"

lemma get_put_string [simp]: "get_string (put_string s @ bs) = (s, bs)"
  unfolding get_string_def put_string_def by (rule get_put_list) simp

definition put_option :: "('a \<Rightarrow> bytes) \<Rightarrow> 'a option \<Rightarrow> bytes" where
  "put_option put a = put_list put (case a of None \<Rightarrow> [] | Some x \<Rightarrow> [x])"

definition get_option :: "'a reader \<Rightarrow> 'a option reader" where
  "get_option get bs = (case get_list get bs of (xs, bs) \<Rightarrow> (case xs of [] \<Rightarrow> None | x # _ \<Rightarrow> Some x, bs))"

lemma get_put_option [simp]:
  "(\<And>x bs. get (put x @ bs) = (x, bs)) \<Longrightarrow> get_option get (put_option put a @ bs) = (a, bs)"
  by (cases a) (simp_all add: get_option_def put_option_def)

definition put_pair :: "string \<times> string \<Rightarrow> bytes" where
  "put_pair p = put_string (fst p) @ put_string (snd p)"

definition get_pair :: "(string \<times> string) reader" where
  "get_pair bs = (case get_string bs of (k, bs) \<Rightarrow> case get_string bs of (v, bs) \<Rightarrow> ((k, v), bs))"

lemma get_put_pair [simp]: "get_pair (put_pair p @ bs) = (p, bs)"
  by (simp add: get_pair_def put_pair_def)

definition protocol_number :: "Protocol \<Rightarrow> nat" where
  "protocol_number p = (case p of Tcp \<Rightarrow> 0 | Http \<Rightarrow> 1 | Https \<Rightarrow> 2)"

definition protocol_of :: "nat \<Rightarrow> Protocol" where
  "protocol_of n = (if n = 0 then Tcp else if n = 1 then Http else Https)"

lemma protocol_of_number [simp]: "protocol_of (protocol_number p) = p"
  by (cases p) (simp_all add: protocol_of_def protocol_number_def)

definition put_definition :: "ServiceDefinition \<Rightarrow> bytes" where
  "put_definition s =
     put_nat (unat (id_uuid (sd_service_id s))) @ put_string (sd_service_name s) @
     put_nat (unat (id_uuid (sd_node_id s))) @ put_nat (protocol_number (sd_protocol s)) @
     put_string (sd_local_address s) @ put_option put_string (sd_public_host s) @
     put_option (\<lambda>p. put_nat (unat p)) (sd_public_port s) @ put_list put_pair (sd_metadata s)"

definition get_definition :: "ServiceDefinition reader" where
  "get_definition bs =
     (case get_nat bs of (i, bs) \<Rightarrow> case get_string bs of (name, bs) \<Rightarrow> case get_nat bs of (n, bs) \<Rightarrow>
      case get_nat bs of (p, bs) \<Rightarrow> case get_string bs of (address, bs) \<Rightarrow>
      case get_option get_string bs of (host, bs) \<Rightarrow>
      case get_option (\<lambda>bs. case get_nat bs of (p, bs) \<Rightarrow> (word_of_nat p, bs)) bs of (port, bs) \<Rightarrow>
      case get_list get_pair bs of (metadata, bs) \<Rightarrow>
        (\<lparr>sd_service_id = UuidId (word_of_nat i), sd_service_name = name, sd_node_id = UuidId (word_of_nat n),
          sd_protocol = protocol_of p, sd_local_address = address, sd_public_host = host, sd_public_port = port,
          sd_metadata = metadata\<rparr>, bs))"

lemma get_put_definition: "get_definition (put_definition s) = (s, [])"
proof -
  have "get_list get_pair (put_list put_pair md) = (md, [])" for md
    using get_put_list [of get_pair put_pair md "[]"] by simp
  then show ?thesis by (simp add: get_definition_def put_definition_def)
qed

definition service_codec :: "ServiceDefinition serializer" where
  "service_codec = \<lparr>to_allocvec = (\<lambda>s. Inr (put_definition s)), from_bytes = (\<lambda>bs. Inr (fst (get_definition bs)))\<rparr>"

text \<open>One life: a start on a fresh database, a client that connects over TLS and registers its node
  and two web services.\<close>

definition web_service :: "uuid \<Rightarrow> string \<Rightarrow> ServiceDefinition" where
  "web_service u name = sample_service\<lparr>sd_service_id := UuidId u, sd_service_name := name, sd_protocol := Http,
     sd_public_host := Some (name @ ''.d''), sd_public_port := None\<rparr>"

definition life_record :: NodeRecord where
  "life_record = sample_record\<lparr>nr_transport := TcpTlsYamux, nr_connected_at := 5\<rparr>"

definition life_externals :: Externals where
  "life_externals = sample_externals\<lparr>x_service := service_codec,
     x_node := (listed [life_record])\<lparr>from_bytes := \<lambda>_. Inr life_record\<rparr>,
     x_tokens := (listed [sample_tokens])\<lparr>from_bytes := \<lambda>_. Inr sample_tokens\<rparr>,
     x_frame := listed [Hello 1, AuthAccepted User, RegisterServiceAccepted (web_service 2 ''ssh''),
       RegisterServiceAccepted (web_service 9 ''web''), OpenStream (UuidId 5) (UuidId 2)]\<rparr>"

lemma life_encodes: "services_encode life_externals"
proof -
  have "inj (x_uuid_string life_externals)" by (simp add: life_externals_def sample_externals_def)
  then show ?thesis by (simp add: services_encode_def life_externals_def service_codec_def get_put_definition)
qed

definition life_options :: RunOptions where
  "life_options = sample_options\<lparr>ro_http_domain := Some ''d''\<rparr>"

definition life_machine :: "Database \<Rightarrow> Machine" where
  "life_machine d = sample_machine\<lparr>ma_database := d\<rparr>"

lemma life_starts:
  "\<exists>st. start_up life_externals (life_machine (\<lambda>_. None)) life_options = Inr st \<and>
     st_tokens st = sample_tokens \<and> \<not> st_tokens_poisoned st \<and> st_nodes st = [] \<and> st_services st = [] \<and>
     st_sessions st = [] \<and> st_http_domain st = Some ''d''"
proof -
  have opened: "store_open ''db'' None (\<lambda>_. None) = Inr empty_database"
    by (auto simp: store_open_def empty_database_def table_for_write_def fun_eq_iff)
  have loaded: "load_services life_externals None empty_database = Inr []" "load_nodes life_externals None empty_database = Inr []"
    by (simp_all add: load_services_def load_nodes_def read_table_def empty_database_def table_names_def table_defs bt_from_list_def)
  obtain d where tokens: "load_or_initialize_tokens life_externals None None [1] [2] empty_database = (Inr sample_tokens, d)"
    by (simp add: load_or_initialize_tokens_def read_table_def empty_database_def table_names_def table_defs
        bt_get_def put_tokens_def encode_with_def life_externals_def listed_def sample_tokens_def write_txn_def)
  have hashes: "hash_token (x_blake3 life_externals) [CHR 0x01] = [1]" "hash_token (x_blake3 life_externals) [CHR 0x02] = [2]"
    by (simp_all add: hash_token_def life_externals_def sample_externals_def string_bytes_def)
  show ?thesis
    by (simp add: start_up_def open_and_load_def life_machine_def sample_machine_def life_options_def sample_options_def opened
        run_config_def load_state_def loaded hashes tokens initial_state_def start_server_def persisted_tcp_services_def bt_values_def)
qed

lemma load_nodes_table:
  assumes "d NODES_TABLE = Some t" and "\<exists>rs. read_items (\<lambda>_. True) (decode_with (x_node X) ''failed to decode node record'')
      ''failed to read node record'' None t = Inr rs"
  shows "\<exists>nodes. load_nodes X None d = Inr nodes"
  using assms by (auto simp: load_nodes_def read_table_def bad_item_def)

lemma life_restarts:
  assumes "services_durable life_externals d services" and "\<And>a. a \<in> set (bt_values services) \<Longrightarrow> sd_protocol a \<noteq> Tcp"
  shows "\<exists>st. start_up life_externals (life_machine d) life_options = Inr st"
proof -
  obtain d' where opened: "store_open ''db'' None d = Inr d'" "d' SERVICES_TABLE = d SERVICES_TABLE"
      "\<exists>t. d' NODES_TABLE = Some t" "\<exists>t. d' TOKENS_TABLE = Some t"
    using assms(1) by (auto simp: store_open_def table_names_def table_for_write_def services_durable_def)
  have "services_durable life_externals d' services" using assms(1) opened(2) by (simp add: services_durable_def)
  then have services: "load_services life_externals None d' = Inr services" by (rule services_durable_load)
  have "\<exists>rs. read_items (\<lambda>_. True) (decode_with (x_node life_externals) c) c' None t = Inr rs" for c c' t
    by (induction t) (auto simp: decode_with_def life_externals_def)
  moreover obtain t where "d' NODES_TABLE = Some t" using opened(3) by blast
  ultimately obtain nodes where nodes: "load_nodes life_externals None d' = Inr nodes"
    by (metis load_nodes_table)
  have "\<exists>d''. put_tokens life_externals None \<lparr>ts_admin_hash = Some [1], ts_user_hash = Some [2]\<rparr> d' = (Inr (), d'')"
    by (simp add: put_tokens_def encode_with_def life_externals_def listed_def sample_tokens_def write_txn_def)
  moreover have "from_bytes (x_tokens life_externals) b = Inr sample_tokens" for b by (simp add: life_externals_def)
  moreover obtain t where "d' TOKENS_TABLE = Some t" using opened(4) by blast
  ultimately have "\<exists>ts d''. load_or_initialize_tokens life_externals None None [1] [2] d' = (Inr ts, d'')"
    by (cases "bt_get t TOKEN_STATE_KEY") (auto simp: load_or_initialize_tokens_def read_table_def decode_with_def)
  then obtain ts d'' where tokens: "load_or_initialize_tokens life_externals None None [1] [2] d' = (Inr ts, d'')" by blast
  have hashes: "hash_token (x_blake3 life_externals) [CHR 0x01] = [1]" "hash_token (x_blake3 life_externals) [CHR 0x02] = [2]"
    by (simp_all add: hash_token_def life_externals_def sample_externals_def string_bytes_def)
  have "filter (\<lambda>a. sd_protocol a = Tcp) (bt_values services) = []"
    using assms(2) by (auto simp: filter_empty_conv)
  then show ?thesis
    by (simp add: start_up_def open_and_load_def life_machine_def sample_machine_def life_options_def sample_options_def opened(1)
        run_config_def load_state_def services nodes hashes tokens initial_state_def start_server_def persisted_tcp_services_def)
qed

lemma life_sends [simp]:
  "send_frame life_externals True (Hello 1) sent = (Inr (), sent @ [Hello 1])"
  "send_frame life_externals True (AuthAccepted User) sent = (Inr (), sent @ [AuthAccepted User])"
  "send_frame life_externals True (RegisterServiceAccepted (web_service 2 ''ssh'')) sent =
     (Inr (), sent @ [RegisterServiceAccepted (web_service 2 ''ssh'')])"
  "send_frame life_externals True (RegisterServiceAccepted (web_service 9 ''web'')) sent =
     (Inr (), sent @ [RegisterServiceAccepted (web_service 9 ''web'')])"
  by (simp_all add: send_frame_def write_control_frame_def encode_frame_def life_externals_def listed_def
      MAX_FRAME_SIZE_def web_service_def)

text \<open>The link's connection after the frames \<open>sent\<close>, and the state of its node.\<close>

definition life_link :: "Frame list \<Rightarrow> Link" where
  "life_link sent = \<lparr>li_quic = False,
     li_peer = \<lparr>pe_ip = ''10.0.0.1'', pe_port = 4000, pe_session = YamuxConnection 1\<rparr>,
     li_connection = \<lparr>co_phase = Serving arrived_principal True, co_sent = sent\<rparr>\<rparr>"

definition joined :: "ServiceDefinition list \<Rightarrow> Server \<Rightarrow> bool" where
  "joined services s \<longleftrightarrow> (\<exists>sent. se_links s = [(1, life_link sent)]) \<and>
     lives life_externals (\<lambda>o'. o' = life_options) True s \<and>
     st_sessions (se_state s) = [(sample_node, \<lparr>as_id = UuidId 8, as_token_kind = User, as_connection = YamuxConnection 1\<rparr>)] \<and>
     st_http_domain (se_state s) = Some ''d'' \<and>
     st_services (se_state s) = map (\<lambda>a. (sd_service_id a, a)) services"

lemma reading_written: "event_written (arriving f)"
  by (simp add: arriving_def reading_def sample_env_def services_written_def)

lemma life_event:
  "lives X allowed True s \<Longrightarrow> event_written e \<Longrightarrow> lives X allowed True (server_step X s e)"
  using lives.event [of X allowed True s e] by simp

lemma life_joins: "\<exists>s. joined [] s"
proof -
  obtain st where st: "start_up life_externals (life_machine (\<lambda>_. None)) life_options = Inr st"
      "st_tokens st = sample_tokens" "\<not> st_tokens_poisoned st" "st_nodes st = []" "st_services st = []"
      "st_sessions st = []" "st_http_domain st = Some ''d''"
    using life_starts by blast
  let ?peer = "\<lparr>pe_ip = ''10.0.0.1'', pe_port = 4000, pe_session = YamuxConnection 1\<rparr> :: Peer"
  let ?serving = "\<lambda>st registered. \<lparr>se_state = st, se_links = [(1, \<lparr>li_quic = False, li_peer = ?peer,
      li_connection = \<lparr>co_phase = Serving arrived_principal registered, co_sent = [Hello 1, AuthAccepted User]\<rparr>\<rparr>)]\<rparr>"
  have auth: "authenticate_token life_externals [CHR 0x02] st = Some User"
    using st(2,3) by (simp add: authenticate_token_def token_authenticate_def hash_token_def
        life_externals_def sample_externals_def sample_tokens_def string_bytes_def)
  have env: "in_io (reading r)" "e_fresh_id (in_env (reading r)) = 8" "in_env (reading r) = sample_env" "e_fresh_id sample_env = 8" for r
    by (simp_all add: reading_def sample_env_def)
  have shaken: "run_events (server_step life_externals) (boot st) (take 3 arrival) = ?serving st False"
    by (simp add: arrival_def arriving_def boot_def server_step_def bt_contains_key_def bt_get_def new_connection_def
        handle_of_def handler_step_def yamux_step_def yamux_hello_def yamux_auth_def PROTOCOL_VERSION_def
        env auth arrived_principal_def numeral_3_eq_3)
  have valid: "metadata_validate [] = Inr ()" by code_simp
  have identity: "validate_node_identity sample_node [9] st = Inr ()"
    using st(4) by (simp add: validate_node_identity_def bt_get_def)
  obtain d where "put_node life_externals None life_record (st_store st) = (Inr (), d)"
    by (simp add: put_node_def encode_with_def life_externals_def listed_def write_txn_def)
  moreover have "\<lparr>nr_node_id = sample_node, nr_public_key = Some [9], nr_metadata = nr_metadata sample_record,
      nr_public_ip = ''10.0.0.1'', nr_source_port = 4000, nr_transport = TcpTlsYamux, nr_status = NodeIsOnline,
      nr_connected_at = 5, nr_last_heartbeat_at = None, nr_rtt_ms = None\<rparr> = life_record"
    by (simp add: life_record_def sample_record_def)
  moreover have "now_unix_ms (Some 5) = 5" by (simp add: now_unix_ms_def as_i64_def)
  moreover have "nm_metadata (nr_metadata sample_record) = []" by (simp add: sample_record_def)
  ultimately have "\<exists>st'. register_node TcpTlsYamux life_externals sample_env ?peer arrived_principal
      (nr_metadata sample_record) [9] st = (Inr (), st') \<and>
      st_sessions st' = [(sample_node, \<lparr>as_id = UuidId 8, as_token_kind = User, as_connection = YamuxConnection 1\<rparr>)] \<and>
      st_http_domain st' = Some ''d'' \<and> st_services st' = []"
    using valid identity st(5-7)
    by (simp add: register_node_def arrived_principal_def Let_def) (simp add: sample_env_def)
  then obtain st' where st': "register_node TcpTlsYamux life_externals sample_env ?peer arrived_principal
      (nr_metadata sample_record) [9] st = (Inr (), st')"
      "st_sessions st' = [(sample_node, \<lparr>as_id = UuidId 8, as_token_kind = User, as_connection = YamuxConnection 1\<rparr>)]"
      "st_http_domain st' = Some ''d''" "st_services st' = []" by blast
  let ?s = "server_step life_externals (?serving st False) (arriving (RegisterNode (nr_metadata sample_record) [9]))"
  have "?s = ?serving st' True"
    using st' env(1,3) by (simp add: arriving_def server_step_def bt_get_def handler_step_def yamux_step_def yamux_frame_def)
  moreover have "lives life_externals (\<lambda>o'. o' = life_options) True (run_events (server_step life_externals) (boot st) (take 3 arrival))"
    using lives.first [of "\<lambda>o'. o' = life_options", OF _ _ st(1)]
    by (simp add: arrival_def life_machine_def life_event reading_written numeral_3_eq_3)
  then have "lives life_externals (\<lambda>o'. o' = life_options) True ?s"
    unfolding shaken by (rule life_event) (rule reading_written)
  ultimately have "joined [] (?serving st' True)"
    using st'(2-4) unfolding joined_def by (auto simp: life_link_def)
  then show ?thesis by blast
qed

lemma registers_web:
  assumes "services_durable X (st_store st) m" and "services_encode X" and "st_http_domain st = Some ''d''" and "validate_service_name name = Inr ()"
    and "\<And>a. a \<in> set (bt_values (st_services st)) \<Longrightarrow> sd_service_name a \<noteq> name"
  shows "\<exists>st'. register_service X sample_env (web_service u name) n st = (Inr (web_service u name), st') \<and>
    st_services st' = bt_insert (UuidId u) (web_service u name) (st_services st)"
proof -
  have web: "sd_service_name (web_service u name) = name" "sd_service_id (web_service u name) = UuidId u"
      "sd_protocol (web_service u name) = Http" "sd_metadata (web_service u name) = []"
      "web_service u name\<lparr>sd_public_host := Some (name @ ''.d''), sd_public_port := None\<rparr> = web_service u name"
    by (simp_all add: web_service_def sample_service_def)
  have "metadata_validate [] = Inr ()" by code_simp
  moreover have "find (\<lambda>a. sd_node_id a = n \<and> sd_service_name a = name) (bt_values (st_services st)) = None"
    using assms(5) by (auto simp: find_None_iff)
  ultimately have plan: "register_plan st (web_service u name) n = Inr (web_service u name)"
    using assms(3-5) web by (auto simp: register_plan_def assign_http_def list_ex_iff adopt_previous_def)
  obtain d where "put_service X None (web_service u name) (st_store st) = (Inr (), d)"
    using stored_put [OF assms(2,1)] by blast
  then show ?thesis
    unfolding register_service_def plan using web(2,3) by (simp add: sample_env_def Let_def)
qed

lemma life_publishes:
  assumes "joined services s" and "validate_service_name name = Inr ()"
    and "\<And>a. a \<in> set services \<Longrightarrow> sd_service_name a \<noteq> name \<and> sd_service_id a < UuidId u"
    and "\<And>sent. send_frame life_externals True (RegisterServiceAccepted (web_service u name)) sent =
      (Inr (), sent @ [RegisterServiceAccepted (web_service u name)])"
  shows "joined (services @ [web_service u name]) (server_step life_externals s (arriving (RegisterService (web_service u name))))"
proof -
  let ?st = "se_state s"
  obtain sent where s: "se_links s = [(1, life_link sent)]" "lives life_externals (\<lambda>o'. o' = life_options) True s"
      "st_http_domain ?st = Some ''d''" "st_services ?st = map (\<lambda>a. (sd_service_id a, a)) services"
      "st_sessions ?st = [(sample_node, \<lparr>as_id = UuidId 8, as_token_kind = User, as_connection = YamuxConnection 1\<rparr>)]"
    using assms(1) by (auto simp: joined_def)
  have stored: "stored life_externals ?st" using lives_inv [OF s(2) life_encodes] by simp
  have "bt_values (st_services ?st) = services" by (simp add: s(4) bt_values_def comp_def)
  then obtain st' where st': "register_service life_externals sample_env (web_service u name) sample_node ?st = (Inr (web_service u name), st')"
      "st_services st' = bt_insert (UuidId u) (web_service u name) (st_services ?st)"
    using registers_web [OF stored [unfolded stored_def] life_encodes s(3) assms(2)] assms(3) by metis
  have id: "sd_service_id (web_service u name) = UuidId u" "sd_node_id (web_service u name) = sample_node"
    by (simp_all add: web_service_def sample_service_def)
  have append: "bt_insert (UuidId u) x (map (\<lambda>a. (sd_service_id a, a)) as) = map (\<lambda>a. (sd_service_id a, a)) as @ [(UuidId u, x)]"
    if "\<And>a. a \<in> set as \<Longrightarrow> sd_service_id a < UuidId u" for x and "as" :: "ServiceDefinition list"
    using that by (induction "as") (auto simp: order_less_imp_not_less order_less_imp_not_eq)
  let ?next = "server_step life_externals s (arriving (RegisterService (web_service u name)))"
  have "?next = \<lparr>se_state = st', se_links = [(1, life_link (sent @ [RegisterServiceAccepted (web_service u name)]))]\<rparr>"
    using st'(1) s(1) assms(4) id(2)
    by (simp add: arriving_def server_step_def bt_get_def handler_step_def yamux_step_def yamux_frame_def reply_def
        life_link_def reading_def arrived_principal_def)
  moreover have "st_sessions st' = st_sessions ?st" "st_http_domain st' = st_http_domain ?st"
    using register_service_frame st'(1) by (metis snd_conv)+
  moreover have "lives life_externals (\<lambda>o'. o' = life_options) True ?next"
    using s(2) reading_written by (rule life_event)
  ultimately show ?thesis
    using s(3-5) st'(2) append [of services] assms(3) id(1) unfolding joined_def by auto
qed

section \<open>Two services, a restart, a visitor\<close>

lemma life_two: "\<exists>s. joined [web_service 2 ''ssh'', web_service 9 ''web''] s"
proof -
  have valid: "validate_service_name ''ssh'' = Inr ()" "validate_service_name ''web'' = Inr ()" by code_simp+
  have ids: "sd_service_name (web_service u name) = name" "sd_service_id (web_service u name) = UuidId u" for u name
    by (simp_all add: web_service_def)
  obtain s where "joined [] s" using life_joins by blast
  then have "joined ([] @ [web_service 2 ''ssh'']) (server_step life_externals s (arriving (RegisterService (web_service 2 ''ssh''))))"
    using valid(1) by (rule life_publishes) simp_all
  then have "joined (([] @ [web_service 2 ''ssh'']) @ [web_service 9 ''web''])
      (server_step life_externals (server_step life_externals s (arriving (RegisterService (web_service 2 ''ssh''))))
        (arriving (RegisterService (web_service 9 ''web''))))"
    using valid(2) by (rule life_publishes) (auto simp: ids less_uuid_id_def)
  then show ?thesis by auto
qed

lemma joined_two:
  assumes "joined [web_service 2 ''ssh'', web_service 9 ''web''] s"
  shows "lives life_externals (\<lambda>o'. o' = life_options) True s"
    and "bt_get (st_services (se_state s)) (UuidId 2) = Some (web_service 2 ''ssh'')"
    and "bt_get (st_services (se_state s)) (UuidId 9) = Some (web_service 9 ''web'')"
    and "\<exists>st. start_up life_externals (life_machine (st_store (se_state s))) life_options = Inr st"
proof -
  show lives: "lives life_externals (\<lambda>o'. o' = life_options) True s" using assms by (simp add: joined_def)
  have services: "st_services (se_state s) = [(UuidId 2, web_service 2 ''ssh''), (UuidId 9, web_service 9 ''web'')]"
    using assms by (simp add: joined_def web_service_def)
  then show "bt_get (st_services (se_state s)) (UuidId 2) = Some (web_service 2 ''ssh'')"
      "bt_get (st_services (se_state s)) (UuidId 9) = Some (web_service 9 ''web'')"
    by (simp_all add: bt_get_def)
  have "services_durable life_externals (st_store (se_state s)) (st_services (se_state s))"
    using lives_inv [OF lives life_encodes] by (simp add: stored_def)
  then show "\<exists>st. start_up life_externals (life_machine (st_store (se_state s))) life_options = Inr st"
    by (rule life_restarts) (auto simp: services bt_values_def web_service_def)
qed





theorem failed_delete_revives_name_witness:
  "\<exists>d st. start_up life_externals (life_machine d) life_options = Inr st \<and>
     bt_get (st_services st) (UuidId 2) = Some (web_service 2 ''ssh'') \<and>
     bt_get (st_services st) (UuidId 11) = Some (web_service 11 ''ssh'')"
proof -
  obtain s where s: "joined [web_service 2 ''ssh'', web_service 9 ''web''] s" using life_two by blast
  let ?st = "se_state s"
  let ?services = "[(UuidId 2, web_service 2 ''ssh''), (UuidId 9, web_service 9 ''web'')]"
  have services: "st_services ?st = ?services" and domain: "st_http_domain ?st = Some ''d''"
    using s by (simp_all add: joined_def web_service_def)
  have durable: "services_durable life_externals (st_store ?st) ?services"
    using lives_inv [OF joined_two(1) [OF s] life_encodes] services by (simp add: stored_def)
  let ?E = "sample_env\<lparr>e_db := \<lambda>c. if c = CallDeleteService then Some AtCommit else None\<rparr>"
  obtain answered st1 where st1: "service_delete life_externals ?E (UuidId 2) ?st = (answered, st1)" by fastforce
  then have kept: "st_services st1 = [(UuidId 9, web_service 9 ''web'')]" "st_store st1 = st_store ?st" "st_http_domain st1 = Some ''d''"
    by (auto simp: service_delete_def Let_def delete_service_def write_txn_def services domain bt_get_def bt_remove_def
        split: option.splits)
  have "validate_service_name ''ssh'' = Inr ()" by code_simp
  moreover have "services_durable life_externals (st_store st1) ?services" using durable kept(2) by simp
  ultimately obtain st2 where st2: "register_service life_externals sample_env (web_service 11 ''ssh'') sample_node st1 =
      (Inr (web_service 11 ''ssh''), st2)"
    using registers_web [of life_externals st1 ?services "''ssh''" 11 sample_node] life_encodes kept(1,3)
    by (auto simp: bt_values_def web_service_def)
  have written: "services_written sample_env" by (simp add: services_written_def sample_env_def)
  have "sd_service_id (web_service 11 ''ssh'') = UuidId 11" by (simp add: web_service_def)
  with register_service_table [OF life_encodes written _ st2, of ?services] durable kept(2)
  have "services_durable life_externals (st_store st2) (bt_insert (UuidId 11) (web_service 11 ''ssh'') ?services)"
    by simp
  then obtain st3 where st3: "start_up life_externals (life_machine (st_store st2)) life_options = Inr st3"
    using life_restarts by (fastforce simp: bt_values_def web_service_def less_uuid_id_def)
  have "bt_get (st_services st3) (UuidId 2) = Some (web_service 2 ''ssh'') \<and>
      bt_get (st_services st3) (UuidId 11) = Some (web_service 11 ''ssh'')"
    using failed_delete_revives_name [OF life_encodes joined_two(1,2) [OF s] _ st1 written st2 _ _ _ st3]
    by (simp add: web_service_def life_machine_def)
  with st3 show ?thesis by blast
qed


end
