(* ===== verification/Commands.thy ===== *)
theory Commands
  imports Client
begin

text \<open>
  The client's command line, \<open>main\<close> of \<open>crates/ongrok-relay-client/src/main.rs\<close>: \<open>init\<close> and
  \<open>status\<close>, \<open>doctor\<close> with its two probes, \<open>services list\<close>, \<open>run\<close> and \<open>service publish\<close>.
  The file system, the URL parser, TLS and the HTTP exchange are arguments.
\<close>

section \<open>Paths and roots\<close>

definition join_path :: "string \<Rightarrow> string \<Rightarrow> string" where
  "join_path base name =
     (if base = [] then name else if last base = CHR ''/'' then base @ name else base @ ''/'' @ name)"

text \<open>\<open>dirs\<close>: what \<open>ProjectDirs::from\<close> finds, and in it the state directory if there is one.\<close>

definition state_path :: "string option option \<Rightarrow> string option \<Rightarrow> string + string" where
  "state_path dirs override_dir =
     result_bind
       (case override_dir of
          Some path \<Rightarrow> Inr path
        | None \<Rightarrow>
            result_bind (ok_or ''unable to determine an OS state directory'' dirs) (\<lambda>found.
              ok_or ''the current platform has no usable state directory'' found))
       (\<lambda>base. Inr (join_path base ''node.json''))"

record RootFiles =
  rf_open :: "string \<Rightarrow> bytes option"
  rf_certs :: "bytes \<Rightarrow> bytes list option"
  rf_add :: "bytes \<Rightarrow> bool"

definition load_roots :: "RootFiles \<Rightarrow> string \<Rightarrow> string + bytes list" where
  "load_roots R path =
     result_bind (ok_or (''failed to open CA certificate '' @ path) (rf_open R path)) (\<lambda>file.
     result_bind (ok_or ''failed to parse CA certificate PEM'' (rf_certs R file)) (\<lambda>certs.
     if certs = [] then Inl ''CA certificate file is empty''
     else if \<not> list_all (rf_add R) certs then Inl ''invalid CA certificate''
     else Inr certs))"

section \<open>Doctor\<close>

datatype QuicProbe = QuicProbeSetup string | QuicProbeTimedOut | QuicProbeHandshake | QuicProbeOk

datatype TcpProbe =
    TcpProbeTimedOut | TcpProbeConnect string | TcpProbeName | TcpProbeTlsTimedOut | TcpProbeTls string
  | TcpProbeAlpn | TcpProbeOk

definition probe_quic :: "RootFiles \<Rightarrow> string \<Rightarrow> QuicProbe \<Rightarrow> string + unit" where
  "probe_quic R ca_cert probe =
     result_bind (load_roots R ca_cert) (\<lambda>_.
       case probe of
         QuicProbeSetup e \<Rightarrow> Inl e
       | QuicProbeTimedOut \<Rightarrow> Inl ''QUIC probe timed out''
       | QuicProbeHandshake \<Rightarrow> Inl ''QUIC probe handshake failed''
       | QuicProbeOk \<Rightarrow> Inr ())"

definition probe_tcp_tls :: "RootFiles \<Rightarrow> string \<Rightarrow> TcpProbe \<Rightarrow> string + unit" where
  "probe_tcp_tls R ca_cert probe =
     result_bind (load_roots R ca_cert) (\<lambda>_.
       case probe of
         TcpProbeTimedOut \<Rightarrow> Inl ''TCP probe timed out''
       | TcpProbeConnect e \<Rightarrow> Inl e
       | TcpProbeName \<Rightarrow> Inl ''server name is not a valid DNS name''
       | TcpProbeTlsTimedOut \<Rightarrow> Inl ''TCP/TLS probe handshake timed out''
       | TcpProbeTls e \<Rightarrow> Inl e
       | TcpProbeAlpn \<Rightarrow> Inl ''relay did not negotiate ongrok/1 over TCP/TLS''
       | TcpProbeOk \<Rightarrow> Inr ())"

text \<open>What the client's commands meet.\<close>

record ClientMachine =
  cm_dirs :: "string option option"
  cm_js :: "NodeState serializer"
  cm_calls :: FileCalls
  cm_fresh_node :: uuid
  cm_fresh_key :: bytes
  cm_fresh_service :: uuid
  cm_roots :: RootFiles
  cm_quic_probe :: "SocketAddr \<Rightarrow> QuicProbe"
  cm_tcp_probe :: "SocketAddr \<Rightarrow> TcpProbe"
  cm_show_address :: "SocketAddr \<Rightarrow> string"
  cm_metadata :: NodeMetadata
  cm_verifying_key :: "bytes \<Rightarrow> bytes"
  cm_ratio :: "u64 \<Rightarrow> u64 \<Rightarrow> f32"
  cm_attempts :: "nat \<Rightarrow> Attempt"
  cm_bits :: "nat \<Rightarrow> u64"

definition load_identity :: "ClientMachine \<Rightarrow> string \<Rightarrow> Files \<Rightarrow> (string + NodeState) \<times> Files" where
  "load_identity m path files =
     load_or_create_state (cm_js m) (cm_calls m) path (cm_fresh_node m) (cm_fresh_key m) files"

definition probe_line :: "string \<Rightarrow> string \<Rightarrow> string + unit \<Rightarrow> string" where
  "probe_line name address result =
     (case result of
        Inr _ \<Rightarrow> name @ ''=ok address='' @ address
      | Inl e \<Rightarrow> name @ ''=unavailable address='' @ address @ '' error='' @ e)"

definition doctor ::
  "Externals \<Rightarrow> ClientMachine \<Rightarrow> string option \<Rightarrow> RelayEndpoints \<Rightarrow> string \<Rightarrow> Files \<Rightarrow>
     (string + unit) \<times> string list \<times> Files" where
  "doctor X m state_dir endpoints ca_cert files =
     (case state_path (cm_dirs m) state_dir of
        Inl e \<Rightarrow> (Inl e, [], files)
      | Inr path \<Rightarrow>
     (case load_identity m path files of
        (Inl e, files) \<Rightarrow> (Inl e, [], files)
      | (Inr state, files) \<Rightarrow>
          let identity = ''identity=ok node_id='' @ id_string X (ns_node_id state) @ '' state_path='' @ path in
     (case load_roots (cm_roots m) ca_cert of
        Inl e \<Rightarrow> (Inl e, [identity], files)
      | Inr _ \<Rightarrow>
          let quic = probe_quic (cm_roots m) ca_cert (cm_quic_probe m (re_quic endpoints));
              tcp_tls = map_option (\<lambda>address. (address, probe_tcp_tls (cm_roots m) ca_cert (cm_tcp_probe m address)))
                (re_tcp_tls endpoints);
              lines = [identity, ''ca=ok path='' @ ca_cert,
                 probe_line ''quic'' (cm_show_address m (re_quic endpoints)) quic,
                 case tcp_tls of
                   Some (address, result) \<Rightarrow> probe_line ''tcp_tls'' (cm_show_address m address) result
                 | None \<Rightarrow> ''tcp_tls=not_configured'']
          in if is_ok quic \<or> (case tcp_tls of None \<Rightarrow> False | Some (_, result) \<Rightarrow> is_ok result)
             then (Inr (), lines @ [''relay=reachable''], files)
             else (Inl ''no configured relay transport is reachable'', lines, files))))"

section \<open>Services list\<close>

text \<open>What \<open>hyper::Uri\<close> has parsed.\<close>

record Uri =
  ur_scheme :: "string option"
  ur_authority :: "string option"
  ur_host :: "string option"
  ur_port :: "u16 option"

text \<open>
  Where a connection goes: to the authority of an \<open>http\<close> URL, as hyper's client takes it from
  the URL, or over TLS to a host and port with the name the server must show and the trusted
  roots.
\<close>

datatype Destination = Clear string | Tls string u16 string "bytes list"

text \<open>A request to the control API as it leaves.\<close>

record SentRequest =
  sr_to :: Destination
  sr_uri :: string
  sr_authorization :: string

text \<open>The exchange: what fails before the request is sent, or the response to it.\<close>

datatype Exchange = Unsent string | Unanswered | Answer nat "string + bytes"

record HttpWorld =
  hw_parse :: "string \<Rightarrow> Uri option"
  hw_name_ok :: "string \<Rightarrow> bool"
  hw_exchange :: "SentRequest \<Rightarrow> Exchange"
  hw_lossy :: "bytes \<Rightarrow> string"
  hw_show_status :: "nat \<Rightarrow> string"

definition print_services_response :: "HttpWorld \<Rightarrow> nat \<Rightarrow> string + bytes \<Rightarrow> (string + unit) \<times> string list" where
  "print_services_response H status body =
     (case body of
        Inl e \<Rightarrow> (Inl (''failed to read services response: '' @ e), [])
      | Inr b \<Rightarrow>
          if \<not> (200 \<le> status \<and> status < 300)
          then (Inl (''server returned '' @ hw_show_status H status @ '': '' @ hw_lossy H b), [])
          else (Inr (), [hw_lossy H b]))"

definition services_list_http ::
  "HttpWorld \<Rightarrow> string \<Rightarrow> string \<Rightarrow> (string + unit) \<times> string list \<times> SentRequest list" where
  "services_list_http H authority token =
     (let request = \<lparr>sr_to = Clear authority, sr_uri = ''http://'' @ authority @ ''/v1/services'',
            sr_authorization = ''Bearer '' @ token\<rparr>
      in case hw_exchange H request of
           Unsent e \<Rightarrow> (Inl e, [], [])
         | Unanswered \<Rightarrow> (Inl ''services request failed'', [], [request])
         | Answer status body \<Rightarrow>
             (case print_services_response H status body of (r, out) \<Rightarrow> (r, out, [request])))"

definition services_list ::
  "HttpWorld \<Rightarrow> RootFiles \<Rightarrow> string \<Rightarrow> string \<Rightarrow> string option \<Rightarrow>
     (string + unit) \<times> string list \<times> SentRequest list" where
  "services_list H R server token ca_cert =
     (case hw_parse H server of
        None \<Rightarrow> (Inl ''server must be an absolute HTTP URL'', [], [])
      | Some base \<Rightarrow>
     (case ur_scheme base of
        None \<Rightarrow> (Inl ''server URL needs a scheme'', [], [])
      | Some scheme \<Rightarrow>
     (case ur_authority base of
        None \<Rightarrow> (Inl ''server URL needs an authority'', [], [])
      | Some authority \<Rightarrow>
          if scheme = ''http'' then services_list_http H authority token
          else if scheme \<noteq> ''https'' then (Inl ''server URL must use http:// or https://'', [], [])
          else
     (case ca_cert of
        None \<Rightarrow> (Inl ''--ca-cert is required for an https:// server'', [], [])
      | Some ca_cert \<Rightarrow>
     (case load_roots R ca_cert of
        Inl e \<Rightarrow> (Inl e, [], [])
      | Inr roots \<Rightarrow>
     (case ur_host base of
        None \<Rightarrow> (Inl ''server URL host is empty'', [], [])
      | Some host \<Rightarrow>
          if \<not> hw_name_ok H host then (Inl ''server URL host is not a valid DNS name'', [], [])
          else
            let port = (case ur_port base of None \<Rightarrow> 443 | Some port \<Rightarrow> port);
                request = \<lparr>sr_to = Tls host port host roots, sr_uri = ''https://'' @ authority @ ''/v1/services'',
                  sr_authorization = ''Bearer '' @ token\<rparr>
            in case hw_exchange H request of
                 Unsent e \<Rightarrow> (Inl e, [], [])
               | Unanswered \<Rightarrow> (Inl ''HTTPS services request failed'', [], [request])
               | Answer status body \<Rightarrow>
                   (case print_services_response H status body of (r, out) \<Rightarrow> (r, out, [request]))))))))"

section \<open>The commands\<close>

datatype ProtocolArg = HttpArg | HttpsArg | TcpArg

fun protocol_of_arg :: "ProtocolArg \<Rightarrow> Protocol" where
  "protocol_of_arg HttpArg = Http"
| "protocol_of_arg HttpsArg = Https"
| "protocol_of_arg TcpArg = Tcp"

record PublishOptions =
  po_name :: string
  po_local_address :: string
  po_protocol :: ProtocolArg
  po_public_host :: "string option"
  po_public_port :: "u16 option"

datatype ClientCommand =
    ClientInit
  | ClientStatus
  | ClientDoctor RelayEndpoints string
  | ServicesList string string "string option"
  | ClientRun RelayEndpoints string bool
  | ServicePublish RelayEndpoints string PublishOptions bool

text \<open>The service of \<open>service publish\<close>; its identifier is new in every run of the client.\<close>

definition published_service :: "ClientMachine \<Rightarrow> NodeState \<Rightarrow> PublishOptions \<Rightarrow> ServiceDefinition" where
  "published_service m state options =
     \<lparr>sd_service_id = UuidId (cm_fresh_service m), sd_service_name = po_name options, sd_node_id = ns_node_id state,
      sd_protocol = protocol_of_arg (po_protocol options), sd_local_address = po_local_address options,
      sd_public_host = po_public_host options, sd_public_port = po_public_port options, sd_metadata = []\<rparr>"

definition session_profile :: "ClientMachine \<Rightarrow> NodeState \<Rightarrow> string \<Rightarrow> ServiceDefinition option \<Rightarrow> bool \<Rightarrow> Profile" where
  "session_profile m state token service once =
     \<lparr>pf_state = state, pf_token = token, pf_service = service, pf_once = once, pf_metadata = cm_metadata m,
      pf_verifying_key = cm_verifying_key m, pf_ratio = cm_ratio m\<rparr>"

definition identity_at :: "ClientMachine \<Rightarrow> string option \<Rightarrow> Files \<Rightarrow> (string + string \<times> NodeState) \<times> Files" where
  "identity_at m state_dir files =
     (case state_path (cm_dirs m) state_dir of
        Inl e \<Rightarrow> (Inl e, files)
      | Inr path \<Rightarrow>
          (case load_identity m path files of
             (Inl e, files) \<Rightarrow> (Inl e, files)
           | (Inr state, files) \<Rightarrow> (Inr (path, state), files)))"

record CommandResult =
  cr_result :: "(string + unit) option"
  cr_printed :: "string list"
  cr_requests :: "SentRequest list"
  cr_files :: Files

definition command_result :: "(string + unit) option \<Rightarrow> string list \<Rightarrow> SentRequest list \<Rightarrow> Files \<Rightarrow> CommandResult" where
  "command_result r out sent files = \<lparr>cr_result = r, cr_printed = out, cr_requests = sent, cr_files = files\<rparr>"

definition show_identity :: "Externals \<Rightarrow> ClientMachine \<Rightarrow> string option \<Rightarrow> Files \<Rightarrow> CommandResult" where
  "show_identity X m state_dir files =
     (case identity_at m state_dir files of
        (Inl e, files) \<Rightarrow> command_result (Some (Inl e)) [] [] files
      | (Inr (path, state), files) \<Rightarrow>
          command_result (Some (Inr ()))
            [''node_id='' @ id_string X (ns_node_id state), ''state_path='' @ path] [] files)"

definition run_session_command ::
  "Externals \<Rightarrow> ClientMachine \<Rightarrow> string option \<Rightarrow> RelayEndpoints \<Rightarrow> (NodeState \<Rightarrow> Profile) \<Rightarrow> Files \<Rightarrow> CommandResult" where
  "run_session_command X m state_dir endpoints profile files =
     (case identity_at m state_dir files of
        (Inl e, files) \<Rightarrow> command_result (Some (Inl e)) [] [] files
      | (Inr (_, state), files) \<Rightarrow>
          command_result (map_option fst (run_with_fallback X (profile state) endpoints (cm_attempts m) (cm_bits m))) [] [] files)"

fun client_main :: "Externals \<Rightarrow> HttpWorld \<Rightarrow> ClientMachine \<Rightarrow> string option \<Rightarrow> ClientCommand \<Rightarrow> Files \<Rightarrow> CommandResult" where
  "client_main X H m state_dir ClientInit files = show_identity X m state_dir files"
| "client_main X H m state_dir ClientStatus files = show_identity X m state_dir files"
| "client_main X H m state_dir (ClientDoctor endpoints ca_cert) files =
     (case doctor X m state_dir endpoints ca_cert files of (r, out, files) \<Rightarrow> command_result (Some r) out [] files)"
| "client_main X H m state_dir (ServicesList server token ca_cert) files =
     (case services_list H (cm_roots m) server token ca_cert of (r, out, sent) \<Rightarrow> command_result (Some r) out sent files)"
| "client_main X H m state_dir (ClientRun endpoints token once) files =
     run_session_command X m state_dir endpoints (\<lambda>state. session_profile m state token None once) files"
| "client_main X H m state_dir (ServicePublish endpoints token options once) files =
     (case validate_service_name (po_name options) of
        Inl e \<Rightarrow> command_result (Some (Inl (validation_message e))) [] [] files
      | Inr _ \<Rightarrow>
          run_session_command X m state_dir endpoints
            (\<lambda>state. session_profile m state token (Some (published_service m state options)) once) files)"

section \<open>What the commands guarantee\<close>

lemma state_path_cases: "state_path dirs (Some d) = Inr (join_path d ''node.json'')"
  by (simp add: state_path_def)

text \<open>C33: \<open>doctor\<close> succeeds exactly when the state path, the identity and the CA certificates are
  good and at least one configured transport answers the probe, and it prints
  \<open>relay=reachable\<close> as its last line exactly then.\<close>

theorem doctor_tells_reachability:
  "(fst (doctor X m state_dir endpoints ca_cert files) = Inr ()) =
     (\<exists>path state files' roots. state_path (cm_dirs m) state_dir = Inr path \<and>
        load_identity m path files = (Inr state, files') \<and> load_roots (cm_roots m) ca_cert = Inr roots \<and>
        (cm_quic_probe m (re_quic endpoints) = QuicProbeOk \<or>
         (\<exists>address. re_tcp_tls endpoints = Some address \<and> cm_tcp_probe m address = TcpProbeOk))) \<and>
   (fst (doctor X m state_dir endpoints ca_cert files) = Inr ()) =
     (\<exists>lines. fst (snd (doctor X m state_dir endpoints ca_cert files)) = lines @ [''relay=reachable''])"
proof -
  have quic: "is_ok (probe_quic R c p) \<longleftrightarrow> (\<exists>roots. load_roots R c = Inr roots) \<and> p = QuicProbeOk" for R c p
    by (cases "load_roots R c") (auto simp: probe_quic_def split: QuicProbe.split)
  have tcp: "is_ok (probe_tcp_tls R c p) \<longleftrightarrow> (\<exists>roots. load_roots R c = Inr roots) \<and> p = TcpProbeOk" for R c p
    by (cases "load_roots R c") (auto simp: probe_tcp_tls_def split: TcpProbe.split)
  have last: "probe_line ''tcp_tls'' a r \<noteq> ''relay=reachable''" for a r
    by (simp add: probe_line_def split: sum.split)
  show ?thesis
    using last
    by (auto simp: doctor_def Let_def quic tcp split: sum.split prod.split option.split)
qed

text \<open>C34: \<open>services list\<close> sends at most one request, with the token given, for the services of the
  URL given: in the clear only for an \<open>http\<close> URL and to its authority; otherwise over TLS to the
  host of the URL, on its port or 443, to a server that shows that host's name, which is a valid
  DNS name, under exactly the certificates of \<open>--ca-cert\<close>. What it prints and returns is the
  answer of that destination.\<close>

theorem services_list_sends_to_url_only:
  "case services_list H R server token ca_cert of (r, out, sent) \<Rightarrow>
     length sent \<le> 1 \<and>
     list_all (\<lambda>q. sr_authorization q = ''Bearer '' @ token \<and>
       (\<exists>base authority. hw_parse H server = Some base \<and> ur_authority base = Some authority \<and>
          (case sr_to q of
             Clear to \<Rightarrow> ur_scheme base = Some ''http'' \<and> to = authority \<and>
               sr_uri q = ''http://'' @ authority @ ''/v1/services''
           | Tls host port name roots \<Rightarrow> ur_scheme base = Some ''https'' \<and>
               ur_host base = Some host \<and> port = (case ur_port base of None \<Rightarrow> 443 | Some p \<Rightarrow> p) \<and>
               name = host \<and> hw_name_ok H name \<and> sr_uri q = ''https://'' @ authority @ ''/v1/services'' \<and>
               (\<exists>path. ca_cert = Some path \<and> load_roots R path = Inr roots))) \<and>
       (case hw_exchange H q of
          Unsent e \<Rightarrow> False
        | Unanswered \<Rightarrow> \<not> is_ok r \<and> out = []
        | Answer status body \<Rightarrow> (r, out) = print_services_response H status body)) sent"
proof (cases "hw_parse H server")
  case (Some base)
  show ?thesis
  proof (cases "ur_scheme base = Some ''http''")
    case True
    with Some show ?thesis
      by (simp add: services_list_def services_list_http_def Let_def split: option.split Exchange.split prod.split)
  next
    case False
    with Some show ?thesis
      by (simp add: services_list_def Let_def split: option.split sum.split Exchange.split prod.split)
  qed
qed (simp add: services_list_def)

text \<open>\<open>service publish\<close> refuses a bad name before it touches the identity file; otherwise the
  session it runs offers a service of the very node it authenticates as, and a server where that
  node is registered never answers it as another node's: the reply is what
  \<open>register_service\<close> decides, and its metadata is valid.\<close>

theorem publish_offers_own_service:
  "client_main X H m state_dir (ServicePublish endpoints token options once) files =
     (case validate_service_name (po_name options) of
        Inl e \<Rightarrow> command_result (Some (Inl (validation_message e))) [] [] files
      | Inr _ \<Rightarrow> run_session_command X m state_dir endpoints
          (\<lambda>state. session_profile m state token (Some (published_service m state options)) once) files) \<and>
   metadata_validate (sd_metadata (published_service m state options)) = Inr () \<and>
   yamux_frame X E io peer (pr\<lparr>pr_node := ns_node_id state\<rparr>) (RegisterService (published_service m state options)) True sent st =
     (case register_service X E (published_service m state options) (ns_node_id state) st of
        (Inr service, st) \<Rightarrow> reply X io (RegisterServiceAccepted service) True sent st
      | (Inl e, st) \<Rightarrow> reply X io (ErrorFrame e) True sent st)"
proof -
  have "metadata_validate [] = Inr ()" by code_simp
  then show ?thesis by (simp add: published_service_def yamux_frame_def split: sum.split)
qed

end
