(* ===== verification/Spec2Isabelle.thy ===== *)
theory Spec2Isabelle
  imports Tunnel Directory Pump Lifetimes Commands
begin

text \<open>
  Verification of the ongrok relay: a reverse tunnel whose clients connect to a public server,
  register a node and publish local services, and whose visitors reach those services through
  the server.

  The program. A client opens a control stream over QUIC or over TCP/TLS with Yamux. After
  \<open>Hello\<close> and \<open>Auth\<close> it registers its node and its services and sends heartbeats.
  The server keeps five shared maps (tokens, services, nodes, sessions, TCP listeners), writes
  them through to a redb database, serves an HTTP control API, forwards TCP visitors of leased
  ports and HTTP visitors by host name, and opens one data stream per visitor to the client.

  The theories, in import order, each on the source it models:

  \<^item> \<open>Prelude\<close>: result values, saturating and clamped integers, decimal formatting and
    ASCII helpers the others share; the locale of transition systems with an invariant.
  \<^item> \<open>BTree\<close>: \<open>BTreeMap\<close> as a sorted association list, so that iteration order is the
    code's, with the locales \<open>keyed_map\<close> and \<open>mirrored_maps\<close> it interprets.
  \<^item> \<open>Domain\<close>, \<open>Codec\<close>, \<open>Tokens\<close>: \<open>libongrok/src/lib.rs\<close> and the server's \<open>wire.rs\<close>.
    Data types, validation, the framing of the control protocol (locale
    \<open>framed_transport\<close>), token generation and hashing.
  \<^item> \<open>Store\<close>: \<open>store.rs\<close>. A database is a map from table names to tables of encoded records;
    every operation takes the fault redb reports, if any, and at which step.
  \<^item> \<open>State\<close>: \<open>state.rs\<close>, \<open>relay.rs\<close> and the authentication of \<open>server.rs\<close>. The
    record \<open>AppState\<close> holds the five maps, the database and the log of effects on sockets and
    tasks (closing a session, binding a port, aborting a listener).
  \<^item> \<open>Registry\<close>: registration, removal, heartbeats and token replacement of \<open>server.rs\<close>;
    \<open>Registry_Inv\<close> and \<open>Registry_Props\<close> prove what they promise.
  \<^item> \<open>Control\<close>, \<open>Control_Props\<close>: \<open>handle_yamux_session\<close>, \<open>handle_quic_connection\<close> and
    \<open>open_client_stream\<close> of \<open>server.rs\<close>. A step consumes the result of one awaited read.
  \<^item> \<open>Api\<close>, \<open>Api_Props\<close>: \<open>api_handler\<close> of \<open>server.rs\<close> with the shapes of \<open>api_models.rs\<close>.
  \<^item> \<open>Ingress\<close>, \<open>Ingress_Props\<close>: \<open>ingress.rs\<close>.
  \<^item> \<open>Config\<close>: the settings of \<open>config.rs\<close>.
  \<^item> \<open>System\<close>, \<open>System_Props\<close>: start-up and the server as a transition system over
    everything its listeners deliver; the invariants that hold in every reachable state, through
    interpretations of \<open>invariant_system\<close>. A step is one handler run to its next awaited read.
  \<^item> \<open>Sections\<close>, \<open>Sections_Props\<close>: the same operations of \<open>server.rs\<close> and \<open>state.rs\<close>
    cut where they give a mutex back, as jobs whose steps interleave. A job run alone is the
    operation of \<open>Registry\<close> or \<open>Api\<close> (\<open>operations_are_their_sections\<close> ties the two
    translations together); what every interleaving keeps, and three that no order
    of whole operations can produce.
  \<^item> \<open>Directory\<close>: the abstract directory of published names and the simulation of it by the
    critical sections.
  \<^item> \<open>Pump\<close>: \<open>YamuxSession\<close> of \<open>libongrok/src/lib.rs\<close>, the task that owns a Yamux connection
    and the channels to its handles.
  \<^item> \<open>Relay\<close>: the byte copying of \<open>forward_tcp_connection\<close> in \<open>relay.rs\<close> and of
    \<open>handle_data_stream\<close> in the client, and both joins at the ends of one stream, which ends
    when its writer shuts it down and when \<open>try_join!\<close> drops it.
  \<^item> \<open>Listeners\<close>, \<open>Launch\<close>: \<open>transport.rs\<close>, the accept loops of \<open>ingress.rs\<close>,
    \<open>relay.rs\<close> and \<open>run_api\<close>, the supervision in \<open>run\<close>, the commands of \<open>run_cli\<close> and
    the checks of the TLS material in \<open>config.rs\<close>.
  \<^item> \<open>Lifetimes\<close>: \<open>run\<close> on a fresh database, the events of that life, and \<open>run\<close> again on the
    database it left, any number of times. The services table holds what the map holds as long as
    its writes succeed, so the invariants of \<open>System_Props\<close> pass from life to life; what a failed
    write leaves for the next start.
  \<^item> \<open>Identity\<close>, \<open>Client\<close>, \<open>Client_Props\<close>, \<open>Commands\<close>:
    \<open>ongrok-relay-client/src/main.rs\<close>. The identity file; the client's session as a step
    function over the frames it reads, its data streams, the fall-back from QUIC to TCP/TLS and
    the retry loop; its commands.
  \<^item> \<open>Tunnel\<close>: the client's session and the server's control connection joined, each reading
    the frames the other wrote, and a visitor's way to the client's local service.

  How they interact. A \<open>Connection\<close> of \<open>Control\<close> and every route of \<open>Api\<close> act on the same
  \<open>AppState\<close>; what they cause outside it (a task started or aborted, a session closed) is
  appended to its log. \<open>Ingress\<close> and the TCP listeners of \<open>State\<close> look services up there and
  ask \<open>Control\<close> for a data stream; \<open>Relay\<close> carries the bytes of that stream, \<open>Pump\<close> delivers
  the stream to the client's \<open>accept_yamux_data_streams\<close>.

  Parameters. The record \<open>Externals\<close> holds what is not under \<open>src/\<close>: the postcard and JSON
  serializers, BLAKE3, UUID printing. \<open>Env\<close> holds what one call draws from outside: the clock,
  fresh identifiers, database faults, whether a bind succeeds. Sockets, TLS, PEM parsing, the file
  system and the command-line parsers are the results they give, as arguments of the definitions
  that use them. The hypotheses on them are the documented ones (a serializer reads back what it
  wrote) and each theorem that uses one has a witness with a concrete instance.

  What the lemmas show. Per operation: its effect on every branch, which of the five maps it
  leaves alone, and that it keeps the well-formedness of the maps and the uniqueness of names
  and ports. Per component: the contracts named by the properties, each after a block that
  states it in words. Across components: the invariants of every reachable server, through
  restarts, and of every interleaving of critical sections, the refinement of the abstract
  directory, and the client, the server and the bytes between them end to end. Some theorems show behaviour that the code
  should not have; their text says so.

  Bounds and termination. Machine integers have their width (ports 16, lengths 32, identifiers
  128 bits); UNIX times are \<open>i64\<close> values represented by integers. The decoder recurses on a
  shrinking buffer, the port scan on the list of the range, a job on the lexicographic order of
  its stage and the services it has left. The client's retry loop may run for ever and is a
  \<open>partial_function (option)\<close>; \<open>run_with_fallback_returns\<close> says exactly when it returns. The
  argument of \<open>dialogue\<close> counts the frames exchanged, it is no fuel of the code. The channels of
  \<open>YamuxSession\<close> hold 128 entries and the API drains its connections for five seconds, as in
  the code.

  Not modelled. \<open>QuicIo\<close> and \<open>YamuxIo\<close> of \<open>libongrok\<close>, which forward each poll call to
  quinn or yamux; logging, the \<open>.env\<close> file and the allocator in the binaries' \<open>main\<close>; the
  dashboard, which is TypeScript. The protocols below (TLS, QUIC, Yamux frames, HTTP) are the
  libraries': a stream is an ordered queue of bytes. Floating-point ratios of the client's meters
  are a parameter. The system of \<open>System\<close> runs each handler step whole; the
  interleavings inside one are those of \<open>Sections\<close>. \<open>Lifetimes\<close> ends a life between two
  events and follows a restart only when the writes of the services table have succeeded; a
  life whose last write failed is the subject of \<open>failed_delete_revives_name\<close>.
\<close>

end
